theory Spec2Isabelle
  imports Complex_Main
begin

section \<open>The feature drawer of the Spring engine (rts/Rendering/FeatureDrawer.cpp)\<close>

text \<open>
  A shallow embedding of \<^verbatim>\<open>FeatureDrawer.cpp\<close>. A value of the C++ type \<^verbatim>\<open>float\<close> is a
  real number. The file tests one \<^verbatim>\<open>float\<close> for equality, \<^verbatim>\<open>drawAlpha == 1.0f\<close>, so the
  arithmetic that produces \<^verbatim>\<open>drawAlpha\<close> is rounded to binary32 after every operation
  (\<open>float_round\<close>, below). The other products and sums of the file are only compared with
  each other by \<^verbatim>\<open><\<close> and \<^verbatim>\<open>>=\<close>; they are written without rounding and stand for the
  values the machine computed. Overflow, subnormal numbers and NaN are not modelled.
  C++ \<^verbatim>\<open>int\<close> is read as \<open>int\<close>; no computation of the file gets near the limits of
  32 bits for a map of realistic size. A pointer to a feature is a natural number, the
  address of the object in a store.
\<close>

subsection \<open>Vectors, cameras, features\<close>

record float3 =
  vx :: real
  vy :: real
  vz :: real

definition float3_plus :: "float3 \<Rightarrow> float3 \<Rightarrow> float3" where
  "float3_plus a b = \<lparr>vx = vx a + vx b, vy = vy a + vy b, vz = vz a + vz b\<rparr>"

definition float3_minus :: "float3 \<Rightarrow> float3 \<Rightarrow> float3" where
  "float3_minus a b = \<lparr>vx = vx a - vx b, vy = vy a - vy b, vz = vz a - vz b\<rparr>"

definition float3_scale :: "float3 \<Rightarrow> real \<Rightarrow> float3" where
  "float3_scale a s = \<lparr>vx = vx a * s, vy = vy a * s, vz = vz a * s\<rparr>"

definition SqLength :: "float3 \<Rightarrow> real" where
  "SqLength a = vx a * vx a + vy a * vy a + vz a * vz a"

text \<open>The draw flags of the anonymous enum at the head of the file.\<close>

definition FD_NODRAW_FLAG :: int where "FD_NODRAW_FLAG = 0"
definition FD_OPAQUE_FLAG :: int where "FD_OPAQUE_FLAG = 1"
definition FD_ALPHAF_FLAG :: int where "FD_ALPHAF_FLAG = 2"
definition FD_SHADOW_FLAG :: int where "FD_SHADOW_FLAG = 3"
definition FD_FARTEX_FLAG :: int where "FD_FARTEX_FLAG = 4"

text \<open>
  The camera types the file names (\<^verbatim>\<open>CCamera::CAMTYPE_*\<close>, declared in Game/Camera.h);
  the file's comments give the first three as the ones a visibility pass is run for.
\<close>

datatype CamType = CAMTYPE_PLAYER | CAMTYPE_UWREFL | CAMTYPE_SHADOW | CAMTYPE_ENVMAP

text \<open>
  A camera: its position, its type, and its frustum test \<^verbatim>\<open>InView(pos, radius)\<close>, which
  the file only calls.
\<close>

record CCamera =
  GetPos :: float3
  GetCamType :: CamType
  InView :: "float3 \<Rightarrow> real \<Rightarrow> bool"

text \<open>
  \<^verbatim>\<open>DRAWTYPE_MODEL\<close> is declared with the feature definitions; the file only compares
  \<^verbatim>\<open>def->drawType\<close> with it.
\<close>

definition DRAWTYPE_MODEL :: int where "DRAWTYPE_MODEL = 0"

text \<open>The model of a feature: \<^verbatim>\<open>MDL_TYPE(f)\<close> and \<^verbatim>\<open>TEX_TYPE(f)\<close> read these.\<close>

record S3DModel =
  mdl_type :: nat
  textureType :: nat

text \<open>
  The fields and accessors of \<^verbatim>\<open>CFeature\<close> that the file reads or writes. The methods
  \<^verbatim>\<open>IsInVoid()\<close>, \<^verbatim>\<open>IsInWater()\<close> and \<^verbatim>\<open>IsInLosForAllyTeam(allyTeam)\<close> are fields here:
  the file never changes what they return.
\<close>

record CFeature =
  pos :: float3
  midPos :: float3
  speed :: float3
  drawPos :: float3
  drawMidPos :: float3
  sqRadius :: real
  drawRadius :: real
  drawQuad :: int
  drawFlag :: int
  drawAlpha :: real
  alphaFade :: bool
  noDraw :: bool
  IsInVoid :: bool
  IsInWater :: bool
  IsInLosForAllyTeam :: "int \<Rightarrow> bool"
  drawType :: int
  model :: "S3DModel option"
  team :: int

text \<open>
  The globals the file reads: \<^verbatim>\<open>gu->spectatingFullView\<close>, \<^verbatim>\<open>gu->myAllyTeam\<close>,
  \<^verbatim>\<open>unitDrawer->unitDrawDistSqr\<close>, \<^verbatim>\<open>globalRendering->drawFrame\<close> and
  \<^verbatim>\<open>timeOffset\<close>, the water renderer's two pass predicates, the constant
  \<^verbatim>\<open>SQUARE_SIZE\<close> (world units per map square, declared with the engine's global
  constants), the active camera \<^verbatim>\<open>CCamera::GetActiveCamera()\<close> (also what
  \<^verbatim>\<open>CCamera::GetCamera(CAMTYPE_ACTIVE)\<close> returns) and the camera of each type
  (\<^verbatim>\<open>CCamera::GetCamera\<close>), and the functions of other modules that the file only calls: the
  static \<^verbatim>\<open>CUnitDrawer::ObjectVisibleReflection\<close>, the three
  \<^verbatim>\<open>LuaObjectDrawer::Add*MaterialObject\<close> hooks, which answer whether the custom material
  system takes the feature over, and \<^verbatim>\<open>readMap->GridVisibility(cam, drawer, dist, quadSize,
  extraSize)\<close>, given here by the list of the quads \<open>(x, y)\<close> for which it calls the drawer's
  \<^verbatim>\<open>DrawQuad\<close>, in order.
\<close>

record Globals =
  spectatingFullView :: bool
  myAllyTeam :: int
  unitDrawDistSqr :: real
  drawFrame :: nat
  timeOffset :: real
  DrawReflectionPass :: bool
  DrawRefractionPass :: bool
  SQUARE_SIZE :: int
  GetActiveCamera :: CCamera
  GetCamera :: "CamType \<Rightarrow> CCamera"
  GridVisibility :: "CCamera \<Rightarrow> real \<Rightarrow> int \<Rightarrow> int \<Rightarrow> (int \<times> int) list"
  ObjectVisibleReflection :: "float3 \<Rightarrow> float3 \<Rightarrow> real \<Rightarrow> bool"
  AddOpaqueMaterialObject :: "nat \<Rightarrow> bool"
  AddShadowMaterialObject :: "nat \<Rightarrow> bool"
  AddAlphaMaterialObject :: "nat \<Rightarrow> bool"

subsection \<open>Rounding to binary32\<close>

text \<open>
  The result of an operation on \<^verbatim>\<open>float\<close> is the exact result rounded to the nearest
  number with a significand of 24 bits, a tie going to the even significand (IEEE 754,
  round to nearest even). The exponent is not bounded here. \<open>round_even\<close> rounds a real to
  the nearest integer in that way; \<open>float_round x\<close> scales \<open>x\<close> by the power of two that
  brings its magnitude into \<open>[2\<^sup>2\<^sup>3, 2\<^sup>2\<^sup>4)\<close>, rounds, and scales back.
\<close>

definition round_even :: "real \<Rightarrow> int" where
  "round_even x =
     (let n = \<lfloor>x\<rfloor>; r = x - of_int n in
      if r < 1 / 2 then n else if 1 / 2 < r then n + 1 else if even n then n else n + 1)"

definition float_round :: "real \<Rightarrow> real" where
  "float_round x =
     (if x = 0 then 0
      else let e = \<lfloor>log 2 \<bar>x\<bar>\<rfloor>; u = 2 powr (of_int e - 23) in of_int (round_even (x / u)) * u)"

subsection \<open>SetDrawAlphaValue\<close>

text \<open>
  \<^verbatim>\<open>static bool SetDrawAlphaValue(f, cam, sqFadeDistMin, sqFadeDistMax)\<close>: the feature
  with its new \<^verbatim>\<open>drawAlpha\<close>, and the returned flag. A null camera is \<open>None\<close>. The last
  assignment is \<^verbatim>\<open>1.0f - ((sqDist - sqFadeDistB) / (sqFadeDistE - sqFadeDistB))\<close>: two
  subtractions, a division and a subtraction, each rounded.
\<close>

definition SetDrawAlphaValue ::
  "Globals \<Rightarrow> CFeature \<Rightarrow> CCamera option \<Rightarrow> real \<Rightarrow> real \<Rightarrow> CFeature \<times> bool" where
  "SetDrawAlphaValue g f0 cam sqFadeDistMin sqFadeDistMax =
     (let f = f0\<lparr>drawAlpha := 0\<rparr> in
      case cam of
        None \<Rightarrow> (f, False)
      | Some c \<Rightarrow>
          if \<not> alphaFade f then (f\<lparr>drawAlpha := 1\<rparr>, True)
          else
            let sqDist = SqLength (float3_minus (pos f) (GetPos c));
                farLength = sqRadius f * unitDrawDistSqr g
            in
              if sqDist \<ge> farLength then (f, False)
              else
                let sqFadeDistE = (if farLength < sqFadeDistMax then farLength else sqFadeDistMax);
                    sqFadeDistB = (if farLength < sqFadeDistMax
                                   then farLength * (sqFadeDistMin / sqFadeDistMax)
                                   else sqFadeDistMin)
                in
                  if sqDist < sqFadeDistB then (f\<lparr>drawAlpha := 1\<rparr>, True)
                  else if sqDist < sqFadeDistE then
                    (f\<lparr>drawAlpha :=
                        float_round (1 - float_round (float_round (sqDist - sqFadeDistB) /
                                                      float_round (sqFadeDistE - sqFadeDistB)))\<rparr>,
                     True)
                  else (f, False))"

subsection \<open>CFeatureQuadDrawer\<close>

record CFeatureQuadDrawer =
  qd_drawQuadsX :: int
  drawReflection :: bool
  drawRefraction :: bool
  drawShadowPass :: bool
  drawFarFeatures :: bool
  sqFadeDistBegin :: real
  sqFadeDistEnd :: real
  cam :: "CCamera option"

definition ResetState :: CFeatureQuadDrawer where
  "ResetState = \<lparr>qd_drawQuadsX = 0, drawReflection = False, drawRefraction = False,
     drawShadowPass = False, drawFarFeatures = False, sqFadeDistBegin = 0, sqFadeDistEnd = 0,
     cam = None\<rparr>"

text \<open>
  The body of the innermost loop of \<^verbatim>\<open>CFeatureQuadDrawer::DrawQuad(x, y)\<close>, for one feature
  of the visited quad. \<open>None\<close> is a failed \<^verbatim>\<open>assert\<close>, or the dereference of a null
  camera. A C++ \<^verbatim>\<open>bool\<close> used as a factor is \<open>of_bool\<close>.
\<close>

definition DrawQuadFeature ::
  "Globals \<Rightarrow> CFeatureQuadDrawer \<Rightarrow> int \<Rightarrow> int \<Rightarrow> CFeature \<Rightarrow> CFeature option" where
  "DrawQuadFeature g qd x y f0 =
     (if y * qd_drawQuadsX qd + x \<noteq> drawQuad f0 then None
      else
        let f = f0\<lparr>drawFlag := FD_NODRAW_FLAG\<rparr> in
        if noDraw f then Some f
        else if IsInVoid f then Some f
        else if drawType f \<noteq> DRAWTYPE_MODEL then None
        else if \<not> spectatingFullView g \<and> \<not> IsInLosForAllyTeam f (myAllyTeam g) then Some f
        else if drawShadowPass qd then Some (f\<lparr>drawFlag := FD_SHADOW_FLAG\<rparr>)
        else if drawRefraction qd \<and> \<not> IsInWater f then Some f
        else if drawReflection qd \<and> cam qd = None then None
        else if drawReflection qd \<and>
                \<not> ObjectVisibleReflection g (drawMidPos f) (GetPos (the (cam qd))) (drawRadius f)
        then Some f
        else
          let (f1, ok) = SetDrawAlphaValue g f (cam qd) (sqFadeDistBegin qd) (sqFadeDistEnd qd) in
          if ok then
            let f2 = f1\<lparr>drawFlag := drawFlag f1 + FD_OPAQUE_FLAG * of_bool (drawAlpha f1 = 1)\<rparr>;
                f3 = f2\<lparr>drawFlag := drawFlag f2 + FD_ALPHAF_FLAG * of_bool (drawAlpha f2 < 1)\<rparr>
            in Some f3
          else
            Some (f1\<lparr>drawFlag :=
              FD_FARTEX_FLAG * of_bool (drawFarFeatures qd) * of_bool (\<not> alphaFade f1)\<rparr>))"


subsection \<open>The drawer and its grid of quads\<close>

definition DRAW_QUAD_SIZE :: int where "DRAW_QUAD_SIZE = 32"

text \<open>
  The model types (\<^verbatim>\<open>MODELTYPE_*\<close>, declared with the 3D models): the file loops from
  \<^verbatim>\<open>MODELTYPE_3DO\<close> or \<^verbatim>\<open>MODELTYPE_S3O\<close> up to, and without, \<^verbatim>\<open>MODELTYPE_OTHER\<close>.
\<close>

definition MODELTYPE_3DO :: nat where "MODELTYPE_3DO = 0"
definition MODELTYPE_S3O :: nat where "MODELTYPE_S3O = 1"
definition MODELTYPE_OTHER :: nat where "MODELTYPE_OTHER = 4"

text \<open>
  Modelled from the spec: the container behind \<^verbatim>\<open>GetRenderer(modelType)\<close> is not in the
  file. The spec gives every cell, per model category, a collection of the objects
  registered in it, with insertion and removal. Here an element of \<^verbatim>\<open>modelRenderers\<close>
  holds, for every model type, the list of the features in its bins (the texture keys of
  the bins, which the file uses only to bind a texture, are left out) and the frame of
  the last visit.
\<close>

record ModelRenderProxy =
  rendererTypes :: "nat \<Rightarrow> nat list"
  lastDrawFrame :: nat

text \<open>
  Modelled from the spec: \<^verbatim>\<open>VectorErase\<close> (System/Util.h) removes one occurrence from a
  vector, and the removal need not keep the order: the first occurrence is overwritten
  with the last element, and the last element dropped.
\<close>

fun VectorErase :: "'a list \<Rightarrow> 'a \<Rightarrow> 'a list" where
  "VectorErase [] e = []"
| "VectorErase (x # xs) e =
     (if x = e then (if xs = [] then [] else last xs # butlast xs)
      else x # VectorErase xs e)"

text \<open>Modelled from the spec: insertion into and removal from a cell's collection.\<close>

definition AddFeature :: "nat \<Rightarrow> nat list \<Rightarrow> nat list" where
  "AddFeature f bin = bin @ [f]"

definition DelFeature :: "nat \<Rightarrow> nat list \<Rightarrow> nat list" where
  "DelFeature f bin = VectorErase bin f"

text \<open>
  The state the file works on: the store of features (\<open>objs\<close>, by address), the fields of
  \<^verbatim>\<open>CFeatureDrawer\<close>, and what the file hands to other modules:
  \<^verbatim>\<open>groundDecals->ForceRemoveSolidObject(f)\<close> (\<open>decalsRemoved\<close>),
  \<^verbatim>\<open>LuaObjectDrawer::SetObjectLOD(f, LUAOBJ_FEATURE, lod)\<close> (\<open>objectLODs\<close>),
  \<^verbatim>\<open>farTextureHandler->Queue(f)\<close> (\<open>farTexQueue\<close>), the features a material hook took
  over (\<open>materialObjects\<close>), and the calls of \<^verbatim>\<open>DrawFeature\<close> with the alpha handed to
  the team colour, when the pass sets one (\<open>drawn\<close>).
\<close>

record State =
  objs :: "nat \<Rightarrow> CFeature"
  unsortedFeatures :: "nat list"
  drawQuadsX :: int
  drawQuadsY :: int
  featureDrawDistance :: real
  featureFadeDistance :: real
  modelRenderers :: "ModelRenderProxy list"
  camVisibleQuadFlags :: "CamType \<Rightarrow> nat"
  drawForward :: bool
  inAlphaPass :: bool
  inShadowPass :: bool
  decalsRemoved :: "nat list"
  objectLODs :: "(nat \<times> nat) list"
  farTexQueue :: "nat list"
  materialObjects :: "nat list"
  drawn :: "(nat \<times> real option) list"

text \<open>
  The constructor, from the map's size in squares and the two configured distances. The
  store, and the logs of the other modules, are as the caller gives them.
\<close>

definition CFeatureDrawer ::
  "(nat \<Rightarrow> CFeature) \<Rightarrow> int \<Rightarrow> int \<Rightarrow> real \<Rightarrow> real \<Rightarrow> State" where
  "CFeatureDrawer heap mapx mapy cfgFeatureDrawDistance cfgFeatureFadeDistance =
     \<lparr>objs = heap, unsortedFeatures = [],
      drawQuadsX = mapx div DRAW_QUAD_SIZE, drawQuadsY = mapy div DRAW_QUAD_SIZE,
      featureDrawDistance = cfgFeatureDrawDistance,
      featureFadeDistance = min cfgFeatureFadeDistance cfgFeatureDrawDistance,
      modelRenderers =
        replicate (nat ((mapx div DRAW_QUAD_SIZE) * (mapy div DRAW_QUAD_SIZE)))
          \<lparr>rendererTypes = (\<lambda>t. []), lastDrawFrame = 0\<rparr>,
      camVisibleQuadFlags = (\<lambda>c. 0), drawForward = True, inAlphaPass = False,
      inShadowPass = False,
      decalsRemoved = [], objectLODs = [], farTexQueue = [], materialObjects = [], drawn = []\<rparr>"

text \<open>The destructor: every feature still in the drawer loses its ground decal.\<close>

definition CFeatureDrawer_destructor :: "State \<Rightarrow> State" where
  "CFeatureDrawer_destructor s =
     s\<lparr>decalsRemoved := decalsRemoved s @ unsortedFeatures s,
       modelRenderers := [], camVisibleQuadFlags := (\<lambda>c. 0)\<rparr>"

text \<open>
  \<^verbatim>\<open>modelRenderers[q].GetRenderer(t)->...\<close>: the bin of model type \<open>t\<close> in quad \<open>q\<close>, changed
  by \<open>upd\<close>. An index outside the vector is \<open>None\<close>.
\<close>

definition update_bin :: "int \<Rightarrow> nat \<Rightarrow> (nat list \<Rightarrow> nat list) \<Rightarrow> State \<Rightarrow> State option" where
  "update_bin q t upd s =
     (if 0 \<le> q \<and> nat q < length (modelRenderers s) then
        let proxy = modelRenderers s ! nat q in
        Some (s\<lparr>modelRenderers := (modelRenderers s)
                [nat q := proxy\<lparr>rendererTypes := (rendererTypes proxy)(t := upd (rendererTypes proxy t))\<rparr>]\<rparr>)
      else None)"

text \<open>
  Modelled from the spec: \<^verbatim>\<open>Clamp\<close> (System/myMath.h), and the conversion of a \<^verbatim>\<open>float\<close>
  to \<^verbatim>\<open>int\<close>, which drops the fraction (towards zero).
\<close>

definition Clamp :: "int \<Rightarrow> int \<Rightarrow> int \<Rightarrow> int" where
  "Clamp v mi ma = min ma (max mi v)"

definition float_to_int :: "real \<Rightarrow> int" where
  "float_to_int r = (if 0 \<le> r then \<lfloor>r\<rfloor> else \<lceil>r\<rceil>)"

text \<open>
  The quad that \<^verbatim>\<open>UpdateDrawQuad\<close> computes for a position (its \<^verbatim>\<open>newDrawQuadX\<close>,
  \<^verbatim>\<open>newDrawQuadY\<close> and \<^verbatim>\<open>newDrawQuad\<close>).
\<close>

definition newDrawQuadX :: "Globals \<Rightarrow> State \<Rightarrow> float3 \<Rightarrow> int" where
  "newDrawQuadX g s p =
     Clamp (float_to_int (vx p / real_of_int (SQUARE_SIZE g) / real_of_int DRAW_QUAD_SIZE))
       0 (drawQuadsX s - 1)"

definition newDrawQuadY :: "Globals \<Rightarrow> State \<Rightarrow> float3 \<Rightarrow> int" where
  "newDrawQuadY g s p =
     Clamp (float_to_int (vz p / real_of_int (SQUARE_SIZE g) / real_of_int DRAW_QUAD_SIZE))
       0 (drawQuadsY s - 1)"

definition newDrawQuad :: "Globals \<Rightarrow> State \<Rightarrow> float3 \<Rightarrow> int" where
  "newDrawQuad g s p = newDrawQuadY g s p * drawQuadsX s + newDrawQuadX g s p"

text \<open>\<^verbatim>\<open>f->drawQuad = q\<close>, for the feature at address \<open>f\<close>.\<close>

definition set_drawQuad :: "nat \<Rightarrow> int \<Rightarrow> State \<Rightarrow> State" where
  "set_drawQuad f q s = s\<lparr>objs := (objs s)(f := (objs s f)\<lparr>drawQuad := q\<rparr>)\<rparr>"

text \<open>
  \<^verbatim>\<open>CFeatureDrawer::UpdateDrawQuad\<close>. \<open>None\<close> is a failed \<^verbatim>\<open>assert\<close> or an index outside
  \<^verbatim>\<open>modelRenderers\<close>.
\<close>

definition UpdateDrawQuad :: "Globals \<Rightarrow> nat \<Rightarrow> State \<Rightarrow> State option" where
  "UpdateDrawQuad g f s =
     (let feature = objs s f;
          oldDrawQuad = drawQuad feature
      in
        if oldDrawQuad < -1 then Some s
        else
          let newQuad = newDrawQuad g s (pos feature) in
          if oldDrawQuad = newQuad then Some s
          else if \<not> oldDrawQuad < drawQuadsX s * drawQuadsY s then None
          else if \<not> (newQuad < drawQuadsX s * drawQuadsY s \<and> newQuad \<ge> 0) then None
          else
            case model feature of
              None \<Rightarrow> Some (set_drawQuad f newQuad s)
            | Some m \<Rightarrow>
                (case (if oldDrawQuad \<ge> 0
                       then update_bin oldDrawQuad (mdl_type m) (DelFeature f) s
                       else Some s) of
                   None \<Rightarrow> None
                 | Some s1 \<Rightarrow>
                     (case update_bin newQuad (mdl_type m) (AddFeature f) s1 of
                        None \<Rightarrow> None
                      | Some s2 \<Rightarrow> Some (set_drawQuad f newQuad s2))))"

text \<open>\<^verbatim>\<open>SetDrawAlphaValue(f, nullptr)\<close> on the feature at address \<open>f\<close>.\<close>

definition reset_drawAlpha :: "Globals \<Rightarrow> nat \<Rightarrow> State \<Rightarrow> State" where
  "reset_drawAlpha g f s =
     s\<lparr>objs := (objs s)(f := fst (SetDrawAlphaValue g (objs s f) None (-1) (-1)))\<rparr>"

definition RenderFeatureCreated :: "Globals \<Rightarrow> nat \<Rightarrow> State \<Rightarrow> State option" where
  "RenderFeatureCreated g f s =
     (if drawType (objs s f) \<noteq> DRAWTYPE_MODEL then Some s
      else
        case UpdateDrawQuad g f (reset_drawAlpha g f (set_drawQuad f (-1) s)) of
          None \<Rightarrow> None
        | Some s1 \<Rightarrow> Some (s1\<lparr>unsortedFeatures := unsortedFeatures s1 @ [f]\<rparr>))"

definition RenderFeatureDestroyed :: "nat \<Rightarrow> State \<Rightarrow> State option" where
  "RenderFeatureDestroyed f s =
     (let s1 = (if drawType (objs s f) = DRAWTYPE_MODEL
                then s\<lparr>unsortedFeatures := VectorErase (unsortedFeatures s) f\<rparr>
                else s);
          s2 = (case model (objs s1 f) of
                  Some m \<Rightarrow>
                    if drawQuad (objs s1 f) \<ge> 0 then
                      (case update_bin (drawQuad (objs s1 f)) (mdl_type m) (DelFeature f) s1 of
                         None \<Rightarrow> None
                       | Some s' \<Rightarrow> Some (set_drawQuad f (-1) s'))
                    else Some s1
                | None \<Rightarrow> Some s1)
      in
        case s2 of
          None \<Rightarrow> None
        | Some s3 \<Rightarrow> Some (s3\<lparr>objectLODs := objectLODs s3 @ [(f, 0)]\<rparr>))"

definition FeatureMoved :: "Globals \<Rightarrow> nat \<Rightarrow> float3 \<Rightarrow> State \<Rightarrow> State option" where
  "FeatureMoved g f oldpos s = UpdateDrawQuad g f s"

definition UpdateDrawPos :: "Globals \<Rightarrow> nat \<Rightarrow> State \<Rightarrow> State" where
  "UpdateDrawPos g f s =
     (let time = timeOffset g; feature = objs s f in
      s\<lparr>objs := (objs s)(f := feature
           \<lparr>drawPos := float3_plus (pos feature) (float3_scale (speed feature) time),
            drawMidPos := float3_plus (midPos feature) (float3_scale (speed feature) time)\<rparr>)\<rparr>)"

text \<open>\<^verbatim>\<open>CFeatureDrawer::Update\<close>: the loop over \<^verbatim>\<open>unsortedFeatures\<close>.\<close>

definition Update :: "Globals \<Rightarrow> State \<Rightarrow> State" where
  "Update g s = fold (\<lambda>f s'. reset_drawAlpha g f (UpdateDrawPos g f s')) (unsortedFeatures s) s"

text \<open>What one round of the loop of \<^verbatim>\<open>Update\<close> makes of a feature.\<close>

definition UpdateFeature :: "Globals \<Rightarrow> CFeature \<Rightarrow> CFeature" where
  "UpdateFeature g feature =
     feature\<lparr>drawPos := float3_plus (pos feature) (float3_scale (speed feature) (timeOffset g)),
             drawMidPos := float3_plus (midPos feature) (float3_scale (speed feature) (timeOffset g)),
             drawAlpha := 0\<rparr>"


subsection \<open>The visibility pass\<close>

text \<open>
  \<^verbatim>\<open>CFeatureQuadDrawer::DrawQuad(x, y)\<close>: the loops over the bins of the quad, for the model
  types below \<^verbatim>\<open>MODELTYPE_OTHER\<close>, around the body \<open>DrawQuadFeature\<close>; before them the quad is
  stamped with the current draw frame. \<open>None\<close> is a failed \<^verbatim>\<open>assert\<close> or an index outside
  \<^verbatim>\<open>modelRenderers\<close>.
\<close>

fun DrawQuadFeatures ::
  "Globals \<Rightarrow> CFeatureQuadDrawer \<Rightarrow> int \<Rightarrow> int \<Rightarrow> nat list \<Rightarrow> State \<Rightarrow> State option" where
  "DrawQuadFeatures g qd x y [] s = Some s"
| "DrawQuadFeatures g qd x y (f # fs) s =
     (case DrawQuadFeature g qd x y (objs s f) of
        None \<Rightarrow> None
      | Some feature \<Rightarrow> DrawQuadFeatures g qd x y fs (s\<lparr>objs := (objs s)(f := feature)\<rparr>))"

definition DrawQuad :: "Globals \<Rightarrow> CFeatureQuadDrawer \<Rightarrow> int \<Rightarrow> int \<Rightarrow> State \<Rightarrow> State option" where
  "DrawQuad g qd x y s =
     (let q = y * qd_drawQuadsX qd + x in
      if \<not> (0 \<le> q \<and> nat q < length (modelRenderers s)) then None
      else
        let mdlRenderProxy = modelRenderers s ! nat q;
            s1 = s\<lparr>modelRenderers := (modelRenderers s)
                    [nat q := mdlRenderProxy\<lparr>lastDrawFrame := drawFrame g\<rparr>]\<rparr>
        in DrawQuadFeatures g qd x y
             (concat (map (rendererTypes mdlRenderProxy) [0..<MODELTYPE_OTHER])) s1)"

text \<open>The calls of \<^verbatim>\<open>DrawQuad\<close> that \<^verbatim>\<open>GridVisibility\<close> makes.\<close>

fun DrawQuads ::
  "Globals \<Rightarrow> CFeatureQuadDrawer \<Rightarrow> (int \<times> int) list \<Rightarrow> State \<Rightarrow> State option" where
  "DrawQuads g qd [] s = Some s"
| "DrawQuads g qd ((x, y) # qs) s =
     (case DrawQuad g qd x y s of None \<Rightarrow> None | Some s' \<Rightarrow> DrawQuads g qd qs s')"

text \<open>
  \<^verbatim>\<open>CFeatureDrawer::GetVisibleFeatures(cam, extraSize, drawFar)\<close>. The vector
  \<^verbatim>\<open>camVisibleQuadFlags\<close> has one entry for each camera type below \<^verbatim>\<open>CAMTYPE_ENVMAP\<close>, which
  the \<^verbatim>\<open>assert\<close> at the head of the function checks; the early return behind
  \<^verbatim>\<open>if (false && ...)\<close> is never taken.
\<close>

definition GetVisibleFeatures :: "Globals \<Rightarrow> CCamera \<Rightarrow> int \<Rightarrow> bool \<Rightarrow> State \<Rightarrow> State option" where
  "GetVisibleFeatures g c extraSize drawFar s =
     (if GetCamType c = CAMTYPE_ENVMAP then None
      else
        let s1 = s\<lparr>camVisibleQuadFlags := (camVisibleQuadFlags s)(GetCamType c := drawFrame g)\<rparr>;
            drawer = \<lparr>qd_drawQuadsX = drawQuadsX s1,
                      drawReflection = DrawReflectionPass g,
                      drawRefraction = DrawRefractionPass g,
                      drawShadowPass = (GetCamType c = CAMTYPE_SHADOW),
                      drawFarFeatures = drawFar,
                      sqFadeDistBegin = featureFadeDistance s1 * featureFadeDistance s1,
                      sqFadeDistEnd = featureDrawDistance s1 * featureDrawDistance s1,
                      cam = Some c\<rparr>
        in DrawQuads g drawer
             (GridVisibility g c (featureDrawDistance s1) DRAW_QUAD_SIZE extraSize) s1)"

subsection \<open>The draw passes\<close>

definition CanDrawFeature :: "Globals \<Rightarrow> State \<Rightarrow> CFeature \<Rightarrow> bool" where
  "CanDrawFeature g s feature =
     (if noDraw feature then False
      else if IsInVoid feature then False
      else if \<not> IsInLosForAllyTeam feature (myAllyTeam g) \<and> \<not> spectatingFullView g then False
      else
        let c = GetActiveCamera g in
        if alphaFade feature \<and> GetCamType c \<noteq> CAMTYPE_SHADOW \<and>
           (let sqDist = SqLength (float3_minus (pos feature) (GetPos c));
                farLength = sqRadius feature * unitDrawDistSqr g;
                sqFadeDistEnd = featureDrawDistance s * featureDrawDistance s
            in sqDist \<ge> min farLength sqFadeDistEnd)
        then False
        else InView c (drawMidPos feature) (drawRadius feature))"

text \<open>
  The body of the innermost loop of \<^verbatim>\<open>DrawOpaqueFeatures\<close>, for the feature at address \<open>f\<close>:
  the \<^verbatim>\<open>switch\<close> on the flag, the distance gate, the material hooks, and the call of
  \<^verbatim>\<open>DrawFeature\<close>.
\<close>

definition DrawOpaqueFeature :: "Globals \<Rightarrow> nat \<Rightarrow> State \<Rightarrow> State" where
  "DrawOpaqueFeature g f s =
     (let feature = objs s f in
      if drawFlag feature = FD_NODRAW_FLAG then s
      else if drawFlag feature = FD_ALPHAF_FLAG then s
      else if drawFlag feature = FD_FARTEX_FLAG then s\<lparr>farTexQueue := farTexQueue s @ [f]\<rparr>
      else if \<not> CanDrawFeature g s feature then s
      else if inShadowPass s \<and> AddShadowMaterialObject g f
        then s\<lparr>materialObjects := materialObjects s @ [f]\<rparr>
      else if \<not> inShadowPass s \<and> AddOpaqueMaterialObject g f
        then s\<lparr>materialObjects := materialObjects s @ [f]\<rparr>
      else s\<lparr>drawn := drawn s @ [(f, None)]\<rparr>)"

text \<open>
  \<^verbatim>\<open>CFeatureDrawer::DrawOpaqueFeatures(modelType)\<close>: the loop over \<^verbatim>\<open>modelRenderers\<close>, which
  skips a quad whose last draw frame is before the current one.
\<close>

definition DrawOpaqueFeatures :: "Globals \<Rightarrow> nat \<Rightarrow> State \<Rightarrow> State" where
  "DrawOpaqueFeatures g modelType s =
     fold (\<lambda>mdlRenderProxy s'.
             if lastDrawFrame mdlRenderProxy < drawFrame g then s'
             else fold (DrawOpaqueFeature g) (rendererTypes mdlRenderProxy modelType) s')
          (modelRenderers s) s"

text \<open>
  The body of the innermost loop of \<^verbatim>\<open>DrawAlphaFeatures\<close>; the alpha it hands to
  \<^verbatim>\<open>SetTeamColour\<close> and \<^verbatim>\<open>SetFeatureAlphaDrawState\<close> is the feature's \<^verbatim>\<open>drawAlpha\<close>.
\<close>

definition DrawAlphaFeature :: "Globals \<Rightarrow> nat \<Rightarrow> State \<Rightarrow> State" where
  "DrawAlphaFeature g f s =
     (let feature = objs s f in
      if drawFlag feature = FD_NODRAW_FLAG then s
      else if drawFlag feature = FD_OPAQUE_FLAG then s
      else if drawFlag feature = FD_SHADOW_FLAG then s
      else if drawFlag feature = FD_FARTEX_FLAG then s
      else if \<not> CanDrawFeature g s feature then s
      else if AddAlphaMaterialObject g f
        then s\<lparr>materialObjects := materialObjects s @ [f]\<rparr>
      else s\<lparr>drawn := drawn s @ [(f, Some (drawAlpha feature))]\<rparr>)"

definition DrawAlphaFeatures :: "Globals \<Rightarrow> nat \<Rightarrow> State \<Rightarrow> State" where
  "DrawAlphaFeatures g modelType s =
     fold (\<lambda>mdlRenderProxy s'.
             if lastDrawFrame mdlRenderProxy < drawFrame g then s'
             else fold (DrawAlphaFeature g) (rendererTypes mdlRenderProxy modelType) s')
          (modelRenderers s) s"

text \<open>
  The passes, without the calls that set up and reset the state of OpenGL and of the unit
  drawer, and without the passes that \<^verbatim>\<open>LuaObjectDrawer\<close> and \<^verbatim>\<open>farTextureHandler\<close> draw
  themselves.
\<close>

definition DrawOpaquePass :: "Globals \<Rightarrow> bool \<Rightarrow> State \<Rightarrow> State" where
  "DrawOpaquePass g deferredPass s =
     fold (DrawOpaqueFeatures g) [MODELTYPE_3DO..<MODELTYPE_OTHER] s"

definition Draw :: "Globals \<Rightarrow> State \<Rightarrow> State option" where
  "Draw g s =
     (case GetVisibleFeatures g (GetActiveCamera g) 0 True s of
        None \<Rightarrow> None
      | Some s1 \<Rightarrow> Some (if drawForward s1 then DrawOpaquePass g False s1 else s1))"

definition DrawAlphaPass :: "Globals \<Rightarrow> State \<Rightarrow> State" where
  "DrawAlphaPass g s =
     (fold (DrawAlphaFeatures g) [MODELTYPE_3DO..<MODELTYPE_OTHER] (s\<lparr>inAlphaPass := True\<rparr>))
       \<lparr>inAlphaPass := False\<rparr>"

definition DrawShadowPass :: "Globals \<Rightarrow> State \<Rightarrow> State option" where
  "DrawShadowPass g s =
     (case GetVisibleFeatures g (GetCamera g CAMTYPE_SHADOW) 0 False (s\<lparr>inShadowPass := True\<rparr>) of
        None \<Rightarrow> None
      | Some s1 \<Rightarrow>
          Some ((fold (DrawOpaqueFeatures g) [MODELTYPE_S3O..<MODELTYPE_OTHER]
                   (DrawOpaqueFeatures g MODELTYPE_3DO s1))\<lparr>inShadowPass := False\<rparr>))"

text \<open>
  What the renderer calls in one draw frame, in the order it chooses: the update, the
  shadow pass, the opaque pass and the alpha pass, each with the globals of the moment of
  the call (the active camera, the time offset and the pass of the water renderer change
  between the calls of one frame).
\<close>

datatype pass = Pass_Update | Pass_DrawShadowPass | Pass_Draw | Pass_DrawAlphaPass

fun run_pass :: "Globals \<Rightarrow> pass \<Rightarrow> State \<Rightarrow> State option" where
  "run_pass g Pass_Update s = Some (Update g s)"
| "run_pass g Pass_DrawShadowPass s = DrawShadowPass g s"
| "run_pass g Pass_Draw s = Draw g s"
| "run_pass g Pass_DrawAlphaPass s = Some (DrawAlphaPass g s)"

fun run_passes :: "(Globals \<times> pass) list \<Rightarrow> State \<Rightarrow> State option" where
  "run_passes [] s = Some s"
| "run_passes ((g, p) # ps) s =
     (case run_pass g p s of None \<Rightarrow> None | Some s' \<Rightarrow> run_passes ps s')"

subsection \<open>What the batchers look at\<close>

text \<open>
  The features that \<^verbatim>\<open>DrawOpaqueFeatures(modelType)\<close> and \<^verbatim>\<open>DrawAlphaFeatures(modelType)\<close>
  iterate over: the bins of the model type in the quads whose last draw frame is not
  before the current one, in the order of \<^verbatim>\<open>modelRenderers\<close>.
\<close>

definition candidates :: "Globals \<Rightarrow> nat \<Rightarrow> State \<Rightarrow> nat list" where
  "candidates g modelType s =
     concat (map (\<lambda>mdlRenderProxy. rendererTypes mdlRenderProxy modelType)
       (filter (\<lambda>mdlRenderProxy. \<not> lastDrawFrame mdlRenderProxy < drawFrame g) (modelRenderers s)))"

definition fresh_bins :: "Globals \<Rightarrow> nat \<Rightarrow> ModelRenderProxy list \<Rightarrow> nat list" where
  "fresh_bins g modelType ps =
     concat (map (\<lambda>mdlRenderProxy. rendererTypes mdlRenderProxy modelType)
       (filter (\<lambda>mdlRenderProxy. \<not> lastDrawFrame mdlRenderProxy < drawFrame g) ps))"

text \<open>
  What the loop of \<^verbatim>\<open>DrawOpaqueFeatures\<close> and the loop of \<^verbatim>\<open>DrawAlphaFeatures\<close> let through:
  the feature's flag is none of those the \<^verbatim>\<open>switch\<close> skips, and \<^verbatim>\<open>CanDrawFeature\<close> holds.
  \<open>opaque_mat\<close> is the answer of the material hook that \<^verbatim>\<open>DrawOpaqueFeatures\<close> asks.
\<close>

definition opaque_sel :: "Globals \<Rightarrow> State \<Rightarrow> nat \<Rightarrow> bool" where
  "opaque_sel g s f \<longleftrightarrow>
     drawFlag (objs s f) \<noteq> FD_NODRAW_FLAG \<and> drawFlag (objs s f) \<noteq> FD_ALPHAF_FLAG \<and>
     drawFlag (objs s f) \<noteq> FD_FARTEX_FLAG \<and> CanDrawFeature g s (objs s f)"

definition opaque_mat :: "Globals \<Rightarrow> State \<Rightarrow> nat \<Rightarrow> bool" where
  "opaque_mat g s f \<longleftrightarrow>
     (inShadowPass s \<and> AddShadowMaterialObject g f) \<or>
     (\<not> inShadowPass s \<and> AddOpaqueMaterialObject g f)"

definition alpha_sel :: "Globals \<Rightarrow> State \<Rightarrow> nat \<Rightarrow> bool" where
  "alpha_sel g s f \<longleftrightarrow>
     drawFlag (objs s f) \<noteq> FD_NODRAW_FLAG \<and> drawFlag (objs s f) \<noteq> FD_OPAQUE_FLAG \<and>
     drawFlag (objs s f) \<noteq> FD_SHADOW_FLAG \<and> drawFlag (objs s f) \<noteq> FD_FARTEX_FLAG \<and>
     CanDrawFeature g s (objs s f)"

subsection \<open>Two runs of one draw frame\<close>

text \<open>
  \<open>flags_rel\<close>: two states that differ at most in the \<^verbatim>\<open>drawFlag\<close> and the \<^verbatim>\<open>drawAlpha\<close> of
  their features. \<open>flag_good\<close>: two versions of a feature with the same flag, one of the
  five, and with the same \<^verbatim>\<open>drawAlpha\<close> when the flag is AlphaFading. \<open>frame_inv n\<close>: what
  the passes of draw frame \<open>n\<close> keep of two such states; no quad has a last draw frame
  beyond \<open>n\<close>, and in a quad visited in frame \<open>n\<close> every feature in a bin of a model type
  below \<^verbatim>\<open>MODELTYPE_OTHER\<close> is classified alike in both.
\<close>

definition flags_rel :: "State \<Rightarrow> State \<Rightarrow> bool" where
  "flags_rel r r' \<longleftrightarrow>
     r' = r\<lparr>objs := objs r'\<rparr> \<and>
     (\<forall>f. objs r' f =
        (objs r f)\<lparr>drawFlag := drawFlag (objs r' f), drawAlpha := drawAlpha (objs r' f)\<rparr>)"

definition flag_good :: "CFeature \<Rightarrow> CFeature \<Rightarrow> bool" where
  "flag_good f f' \<longleftrightarrow>
     drawFlag f' = drawFlag f \<and> 0 \<le> drawFlag f \<and> drawFlag f \<le> 4 \<and>
     (drawFlag f = FD_ALPHAF_FLAG \<longrightarrow> drawAlpha f' = drawAlpha f)"

definition frame_inv :: "nat \<Rightarrow> State \<Rightarrow> State \<Rightarrow> bool" where
  "frame_inv n r r' \<longleftrightarrow>
     flags_rel r r' \<and>
     (\<forall>c < length (modelRenderers r).
        lastDrawFrame (modelRenderers r ! c) \<le> n \<and>
        (lastDrawFrame (modelRenderers r ! c) = n \<longrightarrow>
           (\<forall>t < MODELTYPE_OTHER. \<forall>f \<in> set (rendererTypes (modelRenderers r ! c) t).
              flag_good (objs r f) (objs r' f))))"

subsection \<open>The events of the simulation\<close>

text \<open>
  What the simulation does to a feature, each followed by the handler the drawer
  registers for it: a new feature is constructed at a free address and announced with
  \<^verbatim>\<open>RenderFeatureCreated\<close>; a feature's position changes and \<^verbatim>\<open>FeatureMoved\<close> is called; a
  feature is announced with \<^verbatim>\<open>RenderFeatureDestroyed\<close> before it is deleted.
\<close>

datatype event = Created nat CFeature | Moved nat float3 | Destroyed nat

fun apply_event :: "Globals \<Rightarrow> event \<Rightarrow> State \<Rightarrow> State option" where
  "apply_event g (Created f obj) s = RenderFeatureCreated g f (s\<lparr>objs := (objs s)(f := obj)\<rparr>)"
| "apply_event g (Moved f p) s =
     FeatureMoved g f (pos (objs s f)) (s\<lparr>objs := (objs s)(f := (objs s f)\<lparr>pos := p\<rparr>)\<rparr>)"
| "apply_event g (Destroyed f) s = RenderFeatureDestroyed f s"

fun run_events :: "Globals \<Rightarrow> event list \<Rightarrow> State \<Rightarrow> State option" where
  "run_events g [] s = Some s"
| "run_events g (e # es) s =
     (case apply_event g e s of None \<Rightarrow> None | Some s' \<Rightarrow> run_events g es s')"

text \<open>
  The sequences the simulation produces, given the set of addresses in use: a feature is
  created at an address not in use, as an object that is in no quad yet (its \<^verbatim>\<open>drawQuad\<close>
  is negative: -1 for unregistered, less for excluded); only a feature in use moves or is
  destroyed, and its address is free afterwards.
\<close>

fun events_ok :: "nat set \<Rightarrow> event list \<Rightarrow> bool" where
  "events_ok A [] = True"
| "events_ok A (Created f obj # es) = (f \<notin> A \<and> drawQuad obj < 0 \<and> events_ok (insert f A) es)"
| "events_ok A (Moved f p # es) = (f \<in> A \<and> events_ok A es)"
| "events_ok A (Destroyed f # es) = (f \<in> A \<and> events_ok (A - {f}) es)"

text \<open>\<^verbatim>\<open>modelRenderers[c].GetRenderer(t)->GetFeatureBin()\<close>, as one list.\<close>

definition GetFeatureBin :: "State \<Rightarrow> nat \<Rightarrow> nat \<Rightarrow> nat list" where
  "GetFeatureBin s c t = rendererTypes (modelRenderers s ! c) t"


text \<open>The addresses in use after a sequence of events.\<close>

fun alive_after :: "nat set \<Rightarrow> event list \<Rightarrow> nat set" where
  "alive_after A [] = A"
| "alive_after A (Created f obj # es) = alive_after (insert f A) es"
| "alive_after A (Moved f p # es) = alive_after A es"
| "alive_after A (Destroyed f # es) = alive_after (A - {f}) es"


subsection \<open>The invariant of the grid\<close>

text \<open>
  \<open>A\<close> is the set of addresses in use, \<open>E\<close> a set of features whose position has changed
  and whose \<^verbatim>\<open>FeatureMoved\<close> has not run yet. A bin of quad \<open>c\<close> and model type \<open>t\<close> holds
  no feature twice, and only features in use whose \<^verbatim>\<open>drawQuad\<close> is \<open>c\<close>, whose model has type
  \<open>t\<close>, and (outside \<open>E\<close>) whose position lies in quad \<open>c\<close>.
\<close>

definition bin_ok :: "Globals \<Rightarrow> nat set \<Rightarrow> nat set \<Rightarrow> State \<Rightarrow> nat \<Rightarrow> nat \<Rightarrow> bool" where
  "bin_ok g A E s c t \<longleftrightarrow>
     distinct (GetFeatureBin s c t) \<and>
     (\<forall>f \<in> set (GetFeatureBin s c t).
        f \<in> A \<and> drawQuad (objs s f) = int c \<and>
        (\<exists>m. model (objs s f) = Some m \<and> mdl_type m = t) \<and>
        (f \<notin> E \<longrightarrow> newDrawQuad g s (pos (objs s f)) = int c))"


text \<open>
  The \<^verbatim>\<open>drawQuad\<close> of a feature in use is below the size of the grid, and a feature with a
  model and a \<^verbatim>\<open>drawQuad\<close> that is not negative is in the bin of that quad.
\<close>

definition obj_ok :: "State \<Rightarrow> nat \<Rightarrow> bool" where
  "obj_ok s f \<longleftrightarrow>
     drawQuad (objs s f) < drawQuadsX s * drawQuadsY s \<and>
     (\<forall>m. 0 \<le> drawQuad (objs s f) \<and> model (objs s f) = Some m \<longrightarrow>
        f \<in> set (GetFeatureBin s (nat (drawQuad (objs s f))) (mdl_type m)))"

definition grid_inv :: "Globals \<Rightarrow> nat set \<Rightarrow> nat set \<Rightarrow> State \<Rightarrow> bool" where
  "grid_inv g A E s \<longleftrightarrow>
     0 < drawQuadsX s \<and> 0 < drawQuadsY s \<and>
     length (modelRenderers s) = nat (drawQuadsX s * drawQuadsY s) \<and>
     (\<forall>c < length (modelRenderers s). \<forall>t. bin_ok g A E s c t) \<and>
     (\<forall>f \<in> A. obj_ok s f) \<and>
     set (unsortedFeatures s) \<subseteq> A \<and> distinct (unsortedFeatures s) \<and>
     (\<forall>f \<in> set (unsortedFeatures s). drawType (objs s f) = DRAWTYPE_MODEL)"


subsection \<open>Concrete objects for the examples\<close>

text \<open>
  A player camera at the origin, the default fade and draw distances (4500 and 6000), and a
  feature at \<open>(px, 0, pz)\<close> with squared radius \<open>r2\<close>, visible to the viewing ally team.
\<close>

definition fx_cam :: CCamera where
  "fx_cam = \<lparr>GetPos = \<lparr>vx = 0, vy = 0, vz = 0\<rparr>, GetCamType = CAMTYPE_PLAYER, InView = (\<lambda>p r. True)\<rparr>"

definition fx_globals :: Globals where
  "fx_globals = \<lparr>spectatingFullView = False, myAllyTeam = 0, unitDrawDistSqr = 1000000,
     drawFrame = 1, timeOffset = 0, DrawReflectionPass = False, DrawRefractionPass = False,
     SQUARE_SIZE = 8, GetActiveCamera = fx_cam,
     GetCamera = (\<lambda>t. fx_cam\<lparr>GetCamType := t\<rparr>),
     GridVisibility = (\<lambda>c dist quadSize extraSize.
        if GetCamType c = CAMTYPE_SHADOW then [(1, 2)] else [(0, 0)]),
     ObjectVisibleReflection = (\<lambda>p c r. True),
     AddOpaqueMaterialObject = (\<lambda>f. False), AddShadowMaterialObject = (\<lambda>f. False),
     AddAlphaMaterialObject = (\<lambda>f. False)\<rparr>"

text \<open>The globals during a shadow pass: the active camera is the shadow camera.\<close>

definition fx_globals_shadow :: Globals where
  "fx_globals_shadow = fx_globals\<lparr>GetActiveCamera := GetCamera fx_globals CAMTYPE_SHADOW\<rparr>"

definition fx_drawer :: CFeatureQuadDrawer where
  "fx_drawer = \<lparr>qd_drawQuadsX = 64, drawReflection = False, drawRefraction = False,
     drawShadowPass = False, drawFarFeatures = True, sqFadeDistBegin = 4500 * 4500,
     sqFadeDistEnd = 6000 * 6000, cam = Some fx_cam\<rparr>"

definition fx_feature :: "real \<Rightarrow> real \<Rightarrow> real \<Rightarrow> CFeature" where
  "fx_feature px pz r2 =
     \<lparr>pos = \<lparr>vx = px, vy = 0, vz = pz\<rparr>, midPos = \<lparr>vx = px, vy = 0, vz = pz\<rparr>,
      speed = \<lparr>vx = 0, vy = 0, vz = 0\<rparr>, drawPos = \<lparr>vx = px, vy = 0, vz = pz\<rparr>,
      drawMidPos = \<lparr>vx = px, vy = 0, vz = pz\<rparr>, sqRadius = r2, drawRadius = 10,
      drawQuad = 0, drawFlag = 0, drawAlpha = 0, alphaFade = True, noDraw = False,
      IsInVoid = False, IsInWater = False, IsInLosForAllyTeam = (\<lambda>a. True),
      drawType = DRAWTYPE_MODEL, model = Some \<lparr>mdl_type = 1, textureType = 0\<rparr>, team = 0\<rparr>"


text \<open>
  Two features are created, one moves from quad 0 to quad 7 of a grid of 3 by 3 quads, the
  other is destroyed.
\<close>

definition fx_events :: "event list" where
  "fx_events =
     [Created 7 ((fx_feature 100 100 100)\<lparr>drawQuad := -2\<rparr>),
      Created 8 ((fx_feature 700 300 100)\<lparr>drawQuad := -2\<rparr>),
      Moved 7 \<lparr>vx = 300, vy = 0, vz = 600\<rparr>,
      Destroyed 8]"


text \<open>
  A drawer for a map of 2048 by 2048 squares (64 by 64 quads) with one feature, at address
  7: it is registered in quad 194, which is (2, 3), it fades (flag AlphaFading, alpha 1/2),
  and its position has just changed to a point of quad (2, 4).
\<close>

definition fx_state64 :: State where
  "fx_state64 =
     (CFeatureDrawer (\<lambda>a. fx_feature 0 0 1) 2048 2048 6000 4500)
       \<lparr>objs := (\<lambda>a. fx_feature 0 0 1)
          (7 := (fx_feature 600 1100 100)
                  \<lparr>drawQuad := 194, drawFlag := FD_ALPHAF_FLAG, drawAlpha := 1 / 2\<rparr>),
        unsortedFeatures := [7],
        modelRenderers := (replicate 4096 \<lparr>rendererTypes = (\<lambda>t. []), lastDrawFrame = 0\<rparr>)
          [194 := \<lparr>rendererTypes = (\<lambda>t. [])(1 := [7]), lastDrawFrame = 0\<rparr>]\<rparr>"


text \<open>
  The same drawer before the feature is announced (it is in the store, in no bin, with a
  negative \<^verbatim>\<open>drawQuad\<close>), and with the feature registered in quad 194 and at rest at a
  point of that quad.
\<close>

definition fx_new64 :: State where
  "fx_new64 =
     (CFeatureDrawer (\<lambda>a. fx_feature 0 0 1) 2048 2048 6000 4500)
       \<lparr>objs := (\<lambda>a. fx_feature 0 0 1)(7 := (fx_feature 600 800 100)\<lparr>drawQuad := -2\<rparr>)\<rparr>"

definition fx_home64 :: State where
  "fx_home64 =
     (CFeatureDrawer (\<lambda>a. fx_feature 0 0 1) 2048 2048 6000 4500)
       \<lparr>objs := (\<lambda>a. fx_feature 0 0 1)(7 := (fx_feature 600 800 100)\<lparr>drawQuad := 194\<rparr>),
        unsortedFeatures := [7],
        modelRenderers := (replicate 4096 \<lparr>rendererTypes = (\<lambda>t. []), lastDrawFrame = 0\<rparr>)
          [194 := \<lparr>rendererTypes = (\<lambda>t. [])(1 := [7]), lastDrawFrame = 0\<rparr>]\<rparr>"


text \<open>
  A drawer for a map of 96 by 96 squares (3 by 3 quads) with one feature that does not
  fade, at address 7, registered in quad 7, which is (1, 2); and the same drawer after a
  visit of quad 7 in draw frame 1 that left the feature, now fade-capable, with a given
  flag and \<open>drawAlpha = 1/2\<close>.
\<close>

definition fx_state9 :: State where
  "fx_state9 =
     (CFeatureDrawer (\<lambda>a. fx_feature 0 0 1) 96 96 6000 4500)
       \<lparr>objs := (\<lambda>a. fx_feature 0 0 1)
          (7 := (fx_feature 300 600 100)\<lparr>drawQuad := 7, alphaFade := False\<rparr>),
        unsortedFeatures := [7],
        modelRenderers := (replicate 9 \<lparr>rendererTypes = (\<lambda>t. []), lastDrawFrame = 0\<rparr>)
          [7 := \<lparr>rendererTypes = (\<lambda>t. [])(1 := [7]), lastDrawFrame = 0\<rparr>]\<rparr>"

definition fx_state9_seen :: "int \<Rightarrow> State" where
  "fx_state9_seen flag =
     fx_state9
       \<lparr>objs := (\<lambda>a. fx_feature 0 0 1)
          (7 := (fx_feature 300 600 100)\<lparr>drawQuad := 7, drawFlag := flag, drawAlpha := 1 / 2\<rparr>),
        modelRenderers := (replicate 9 \<lparr>rendererTypes = (\<lambda>t. []), lastDrawFrame = 0\<rparr>)
          [7 := \<lparr>rendererTypes = (\<lambda>t. [])(1 := [7]), lastDrawFrame = 1\<rparr>]\<rparr>"


section \<open>Properties\<close>

lemmas FD_FLAG_defs =
  FD_NODRAW_FLAG_def FD_OPAQUE_FLAG_def FD_ALPHAF_FLAG_def FD_SHADOW_FLAG_def FD_FARTEX_FLAG_def

lemmas fx_defs = fx_cam_def fx_globals_def fx_drawer_def fx_feature_def
  SqLength_def float3_minus_def DRAWTYPE_MODEL_def

subsection \<open>Rounding\<close>

lemma round_even_of_int [simp]: "round_even (of_int n) = n"
  by (simp add: round_even_def)

lemma round_even_bounds: "\<lfloor>x\<rfloor> \<le> round_even x \<and> round_even x \<le> \<lfloor>x\<rfloor> + 1"
  by (simp add: round_even_def Let_def)

lemma round_even_mono: "x \<le> y \<Longrightarrow> round_even x \<le> round_even y"
proof -
  assume xy: "x \<le> y"
  have fl: "\<lfloor>x\<rfloor> \<le> \<lfloor>y\<rfloor>" using xy by (rule floor_mono)
  show ?thesis
  proof (cases "\<lfloor>x\<rfloor> = \<lfloor>y\<rfloor>")
    case True
    then show ?thesis using xy by (auto simp: round_even_def Let_def)
  next
    case False
    then have "\<lfloor>x\<rfloor> + 1 \<le> \<lfloor>y\<rfloor>" using fl by simp
    then show ?thesis using round_even_bounds[of x] round_even_bounds[of y] by linarith
  qed
qed

lemma round_even_ge: "of_int n \<le> x \<Longrightarrow> n \<le> round_even x"
  using round_even_mono[of "of_int n" x] by simp

lemma round_even_le: "x \<le> of_int n \<Longrightarrow> round_even x \<le> n"
  using round_even_mono[of x "of_int n"] by simp

text \<open>A positive number lies in the binade of the floor of its logarithm.\<close>

lemma binade:
  assumes "0 < x"
  shows "2 powr of_int \<lfloor>log 2 x\<rfloor> \<le> x \<and> x < 2 powr (of_int \<lfloor>log 2 x\<rfloor> + 1)"
  using floor_log_eq_powr_iff[of x 2 "\<lfloor>log 2 x\<rfloor>"] assms by simp

lemma float_round_pos_bounds:
  assumes "0 < x"
  shows "2 powr of_int \<lfloor>log 2 x\<rfloor> \<le> float_round x \<and> float_round x \<le> 2 powr (of_int \<lfloor>log 2 x\<rfloor> + 1)"
proof -
  define e where "e = \<lfloor>log 2 x\<rfloor>"
  define u :: real where "u = 2 powr (of_int e - 23)"
  have u: "0 < u" by (simp add: u_def)
  have lo: "2 powr of_int e = 8388608 * u"
    by (simp add: u_def powr_diff)
  have hi: "2 powr (of_int e + 1) = 16777216 * u"
    by (simp add: u_def powr_diff powr_add)
  have b: "8388608 * u \<le> x" "x < 16777216 * u"
    using binade[OF assms] by (simp_all add: e_def[symmetric] lo hi)
  have "of_int 8388608 \<le> x / u" using b(1) u by (simp add: field_simps)
  then have r1: "8388608 \<le> round_even (x / u)" by (rule round_even_ge)
  have "x / u \<le> of_int 16777216" using b(2) u by (simp add: field_simps)
  then have r2: "round_even (x / u) \<le> 16777216" by (rule round_even_le)
  have fr: "float_round x = of_int (round_even (x / u)) * u"
    using assms by (simp add: float_round_def Let_def e_def u_def)
  have "8388608 * u \<le> of_int (round_even (x / u)) * u"
    using r1 u by simp
  moreover have "of_int (round_even (x / u)) * u \<le> 16777216 * u"
    using r2 u by simp
  ultimately show ?thesis
    unfolding e_def[symmetric] lo hi fr by simp
qed

lemma float_round_0 [simp]: "float_round 0 = 0"
  by (simp add: float_round_def)

lemma float_round_pos: "0 < x \<Longrightarrow> 0 < float_round x"
proof -
  assume x: "0 < x"
  have "(0::real) < 2 powr of_int \<lfloor>log 2 x\<rfloor>" by simp
  then show ?thesis using float_round_pos_bounds[OF x] by linarith
qed

lemma float_round_nonneg: "0 \<le> x \<Longrightarrow> 0 \<le> float_round x"
  using float_round_pos[of x] by (cases "x = 0") (simp_all add: less_eq_real_def)

lemma float_round_mono:
  assumes "0 \<le> x" "x \<le> y"
  shows "float_round x \<le> float_round y"
proof (cases "x = 0")
  case True
  then show ?thesis using float_round_nonneg[of y] assms by simp
next
  case False
  then have x: "0 < x" and y: "0 < y" using assms by simp_all
  have le: "\<lfloor>log 2 x\<rfloor> \<le> \<lfloor>log 2 y\<rfloor>"
    using x y assms(2) by (simp add: floor_mono)
  show ?thesis
  proof (cases "\<lfloor>log 2 x\<rfloor> = \<lfloor>log 2 y\<rfloor>")
    case True
    define u :: real where "u = 2 powr (of_int \<lfloor>log 2 y\<rfloor> - 23)"
    have u: "0 < u" by (simp add: u_def)
    have "x / u \<le> y / u" using assms(2) u by (simp add: divide_right_mono)
    then have "round_even (x / u) \<le> round_even (y / u)" by (rule round_even_mono)
    then have "of_int (round_even (x / u)) * u \<le> of_int (round_even (y / u)) * u"
      using u by simp
    then show ?thesis
      using x y True by (simp add: float_round_def Let_def u_def)
  next
    case False
    then have "of_int \<lfloor>log 2 x\<rfloor> + (1::real) \<le> of_int \<lfloor>log 2 y\<rfloor>"
      using le by linarith
    then have "(2::real) powr (of_int \<lfloor>log 2 x\<rfloor> + 1) \<le> 2 powr of_int \<lfloor>log 2 y\<rfloor>"
      by (simp add: powr_mono)
    then show ?thesis
      using float_round_pos_bounds[OF x] float_round_pos_bounds[OF y] by linarith
  qed
qed

text \<open>A number with a significand of 24 bits is not changed.\<close>

lemma float_round_repr:
  assumes "8388608 \<le> m" "m < 16777216"
  shows "float_round (of_int m * 2 powr of_int k) = of_int m * 2 powr of_int k"
proof -
  define x :: real where "x = of_int m * 2 powr of_int k"
  have x: "0 < x" using assms by (simp add: x_def)
  have "2 powr (of_int (k + 23)) \<le> x \<and> x < 2 powr (of_int (k + 23) + 1)"
  proof
    have "(2::real) powr (of_int (k + 23)) = 8388608 * 2 powr of_int k"
      by (simp add: powr_add)
    also have "\<dots> \<le> of_int m * 2 powr of_int k" using assms(1) by simp
    finally show "2 powr (of_int (k + 23)) \<le> x" by (simp add: x_def)
    have "(2::real) powr (of_int (k + 23) + 1) = 16777216 * 2 powr of_int k"
      by (simp add: powr_add)
    moreover have "of_int m * 2 powr of_int k < 16777216 * (2::real) powr of_int k"
      using assms(2) by simp
    ultimately show "x < 2 powr (of_int (k + 23) + 1)" by (simp add: x_def)
  qed
  then have e: "\<lfloor>log 2 x\<rfloor> = k + 23"
    using floor_log_eq_powr_iff[of x 2 "k + 23"] x by simp
  have q: "x / 2 powr of_int k = of_int m" by (simp add: x_def)
  have "float_round x = of_int (round_even (x / 2 powr of_int k)) * 2 powr of_int k"
    using x by (simp add: float_round_def Let_def e)
  also have "\<dots> = x" unfolding q by (simp add: x_def)
  finally show ?thesis by (simp add: x_def)
qed

lemma float_round_1 [simp]: "float_round 1 = 1"
  using float_round_repr[of 8388608 "-23"] by (simp add: powr_minus)

lemma float_round_half [simp]: "float_round (1 / 2) = 1 / 2"
  using float_round_repr[of 8388608 "-24"] by (simp add: powr_minus)




text \<open>The value of l.86 for a squared distance \<open>d\<close> in a window from \<open>B\<close> to \<open>E\<close>.\<close>

lemma fade_alpha_range:
  assumes "B \<le> d" "d < E"
  shows "0 \<le> float_round (1 - float_round (float_round (d - B) / float_round (E - B)))"
    and "float_round (1 - float_round (float_round (d - B) / float_round (E - B))) \<le> 1"
proof -
  define a where "a = float_round (d - B)"
  define b where "b = float_round (E - B)"
  have a: "0 \<le> a" using assms by (simp add: a_def float_round_nonneg)
  have b: "0 < b" using assms by (simp add: b_def float_round_pos)
  have ab: "a \<le> b" unfolding a_def b_def using assms by (intro float_round_mono) simp_all
  have q: "0 \<le> a / b" "a / b \<le> 1" using a b ab by simp_all
  have fq: "0 \<le> float_round (a / b)" "float_round (a / b) \<le> 1"
    using float_round_nonneg[OF q(1)] float_round_mono[OF q(1) q(2)] by simp_all
  have r: "0 \<le> 1 - float_round (a / b)" "1 - float_round (a / b) \<le> 1" using fq by simp_all
  show "0 \<le> float_round (1 - float_round (float_round (d - B) / float_round (E - B)))"
    using float_round_nonneg[OF r(1)] by (simp add: a_def b_def)
  show "float_round (1 - float_round (float_round (d - B) / float_round (E - B))) \<le> 1"
    using float_round_mono[OF r(1) r(2)] by (simp add: a_def b_def)
qed






subsection \<open>Classification of one feature\<close>

lemma DrawQuadFeature_visible:
  assumes "y * qd_drawQuadsX qd + x = drawQuad f" "\<not> noDraw f" "\<not> IsInVoid f"
    "drawType f = DRAWTYPE_MODEL"
    "spectatingFullView g \<or> IsInLosForAllyTeam f (myAllyTeam g)"
    "\<not> drawShadowPass qd" "drawRefraction qd \<longrightarrow> IsInWater f" "cam qd = Some c"
    "drawReflection qd \<longrightarrow> ObjectVisibleReflection g (drawMidPos f) (GetPos c) (drawRadius f)"
  shows "DrawQuadFeature g qd x y f =
     (let (f1, ok) = SetDrawAlphaValue g (f\<lparr>drawFlag := FD_NODRAW_FLAG\<rparr>) (Some c)
                       (sqFadeDistBegin qd) (sqFadeDistEnd qd) in
      if ok then Some (f1\<lparr>drawFlag := drawFlag f1 + FD_OPAQUE_FLAG * of_bool (drawAlpha f1 = 1)
                                 + FD_ALPHAF_FLAG * of_bool (drawAlpha f1 < 1)\<rparr>)
      else Some (f1\<lparr>drawFlag := FD_FARTEX_FLAG * of_bool (drawFarFeatures qd) * of_bool (\<not> alphaFade f1)\<rparr>))"
  using assms by (auto simp: DrawQuadFeature_def Let_def split: prod.splits)

lemma SetDrawAlphaValue_fade:
  assumes "alphaFade f"
  shows "SetDrawAlphaValue g f (Some c) B E =
    (let d = SqLength (float3_minus (pos f) (GetPos c));
         farLength = sqRadius f * unitDrawDistSqr g;
         E' = (if farLength < E then farLength else E);
         B' = (if farLength < E then farLength * (B / E) else B)
     in if farLength \<le> d then (f\<lparr>drawAlpha := 0\<rparr>, False)
        else if d < B' then (f\<lparr>drawAlpha := 1\<rparr>, True)
        else if d < E' then
          (f\<lparr>drawAlpha := float_round (1 - float_round (float_round (d - B') / float_round (E' - B')))\<rparr>,
           True)
        else (f\<lparr>drawAlpha := 0\<rparr>, False))"
  using assms by (simp add: SetDrawAlphaValue_def Let_def)


lemma SetDrawAlphaValue_nofade:
  "\<not> alphaFade f \<Longrightarrow> SetDrawAlphaValue g f (Some c) B E = (f\<lparr>drawAlpha := 1\<rparr>, True)"
  by (simp add: SetDrawAlphaValue_def Let_def)


lemma DrawQuadFeature_fade:
  assumes "y * qd_drawQuadsX qd + x = drawQuad f" "\<not> noDraw f" "\<not> IsInVoid f"
    "drawType f = DRAWTYPE_MODEL"
    "spectatingFullView g \<or> IsInLosForAllyTeam f (myAllyTeam g)"
    "\<not> drawShadowPass qd" "drawRefraction qd \<longrightarrow> IsInWater f" "cam qd = Some c"
    "drawReflection qd \<longrightarrow> ObjectVisibleReflection g (drawMidPos f) (GetPos c) (drawRadius f)"
    "alphaFade f"
    and d: "d = SqLength (float3_minus (pos f) (GetPos c))"
    and farLength: "farLength = sqRadius f * unitDrawDistSqr g"
    and E: "E = (if farLength < sqFadeDistEnd qd then farLength else sqFadeDistEnd qd)"
    and B: "B = (if farLength < sqFadeDistEnd qd
                 then farLength * (sqFadeDistBegin qd / sqFadeDistEnd qd)
                 else sqFadeDistBegin qd)"
    and alpha: "alpha = float_round (1 - float_round (float_round (d - B) / float_round (E - B)))"
  shows "DrawQuadFeature g qd x y f =
      (if farLength \<le> d then Some (f\<lparr>drawFlag := FD_NODRAW_FLAG, drawAlpha := 0\<rparr>)
       else if d < B then Some (f\<lparr>drawFlag := FD_OPAQUE_FLAG, drawAlpha := 1\<rparr>)
       else if d < E then
         Some (f\<lparr>drawFlag := (if alpha = 1 then FD_OPAQUE_FLAG else FD_ALPHAF_FLAG),
                 drawAlpha := alpha\<rparr>)
       else Some (f\<lparr>drawFlag := FD_NODRAW_FLAG, drawAlpha := 0\<rparr>))"
proof -
  note vis = DrawQuadFeature_visible[OF assms(1-9)]
  have fade: "alphaFade (f\<lparr>drawFlag := FD_NODRAW_FLAG\<rparr>)" using assms(10) by simp
  have sdav: "SetDrawAlphaValue g (f\<lparr>drawFlag := FD_NODRAW_FLAG\<rparr>) (Some c)
        (sqFadeDistBegin qd) (sqFadeDistEnd qd) =
      (if farLength \<le> d then (f\<lparr>drawFlag := FD_NODRAW_FLAG, drawAlpha := 0\<rparr>, False)
        else if d < B then (f\<lparr>drawFlag := FD_NODRAW_FLAG, drawAlpha := 1\<rparr>, True)
        else if d < E then (f\<lparr>drawFlag := FD_NODRAW_FLAG, drawAlpha := alpha\<rparr>, True)
        else (f\<lparr>drawFlag := FD_NODRAW_FLAG, drawAlpha := 0\<rparr>, False))"
    unfolding SetDrawAlphaValue_fade[OF fade] d farLength E B alpha
    by (simp add: Let_def)
  have le1: "alpha \<le> 1" if "\<not> d < B" "d < E"
    unfolding alpha using that by (intro fade_alpha_range(2)) simp_all
  show ?thesis
  proof (cases "\<not> farLength \<le> d \<and> \<not> d < B \<and> d < E")
    case True
    then have "alpha = 1 \<or> alpha < 1" using le1 by fastforce
    then show ?thesis
      unfolding vis sdav using True by (auto simp: FD_FLAG_defs)
  next
    case False
    then show ?thesis
      unfolding vis sdav using assms(10) by (auto simp: FD_FLAG_defs)
  qed
qed




text \<open>
  \<^bold>\<open>C2\<close> (as amended). A fade-capable feature at squared camera distance at least
  \<open>farLength\<close> that passes the exclusions of a non-shadow pass is marked neither Opaque nor
  AlphaFading, and it is not marked FarImpostor either: the flag is NoDraw whether or not
  far-rendering is enabled, since the impostor flag carries the factor \<^verbatim>\<open>!f->alphaFade\<close>.
\<close>

theorem C2_beyond_farLength:
  assumes "y * qd_drawQuadsX qd + x = drawQuad f" "\<not> noDraw f" "\<not> IsInVoid f"
    "drawType f = DRAWTYPE_MODEL"
    "spectatingFullView g \<or> IsInLosForAllyTeam f (myAllyTeam g)"
    "\<not> drawShadowPass qd" "drawRefraction qd \<longrightarrow> IsInWater f" "cam qd = Some c"
    "drawReflection qd \<longrightarrow> ObjectVisibleReflection g (drawMidPos f) (GetPos c) (drawRadius f)"
    "alphaFade f"
    "sqRadius f * unitDrawDistSqr g \<le> SqLength (float3_minus (pos f) (GetPos c))"
  shows "DrawQuadFeature g qd x y f = Some (f\<lparr>drawFlag := FD_NODRAW_FLAG, drawAlpha := 0\<rparr>) \<and>
         FD_NODRAW_FLAG \<noteq> FD_OPAQUE_FLAG \<and> FD_NODRAW_FLAG \<noteq> FD_ALPHAF_FLAG \<and>
         FD_NODRAW_FLAG \<noteq> FD_FARTEX_FLAG"
  using assms(11) DrawQuadFeature_fade[OF assms(1-10) refl refl refl refl]
  by (simp add: FD_FLAG_defs)

text \<open>
  The theorem for a small feature far from the camera, in a pass without far-rendering.
\<close>

theorem C2_beyond_farLength_witness:
  "DrawQuadFeature fx_globals (fx_drawer\<lparr>drawFarFeatures := False\<rparr>) 0 0 (fx_feature 0 7000 1) =
     Some ((fx_feature 0 7000 1)\<lparr>drawFlag := FD_NODRAW_FLAG, drawAlpha := 0\<rparr>)"
  using C2_beyond_farLength[of 0 "fx_drawer\<lparr>drawFarFeatures := False\<rparr>" 0 "fx_feature 0 7000 1"
      fx_globals fx_cam]
  by (simp add: fx_defs)

text \<open>
  The claim as written makes such a feature a FarImpostor when far-rendering is enabled.
  With \<^verbatim>\<open>drawFarFeatures\<close> set, the fade-capable feature beyond \<open>farLength\<close> is NoDraw.
\<close>

theorem C2_counterexample:
  "alphaFade (fx_feature 2000 0 1) \<and> drawFarFeatures fx_drawer \<and> \<not> drawShadowPass fx_drawer \<and>
   sqRadius (fx_feature 2000 0 1) * unitDrawDistSqr fx_globals
     \<le> SqLength (float3_minus (pos (fx_feature 2000 0 1)) (GetPos fx_cam)) \<and>
   DrawQuadFeature fx_globals fx_drawer 0 0 (fx_feature 2000 0 1) =
     Some ((fx_feature 2000 0 1)\<lparr>drawFlag := FD_NODRAW_FLAG, drawAlpha := 0\<rparr>) \<and>
   FD_NODRAW_FLAG \<noteq> FD_FARTEX_FLAG"
  by (simp add: DrawQuadFeature_def SetDrawAlphaValue_def fx_defs FD_FLAG_defs Let_def)


text \<open>
  \<^bold>\<open>C5\<close> (as amended). Among the features that pass the visibility exclusions (not
  \<^verbatim>\<open>noDraw\<close>, not in the void, in line of sight or full-view spectating): in a shadow pass
  every one is classified Shadow; in any other pass a feature with fading disabled is
  Opaque with \<open>drawAlpha = 1\<close> for any camera and any distance, unless the pass is a
  refraction pass and the feature is not in water, or a reflection pass and the feature
  fails the reflection test, in which cases it is NoDraw.
\<close>

theorem C5_non_fading:
  assumes "y * qd_drawQuadsX qd + x = drawQuad f" "\<not> noDraw f" "\<not> IsInVoid f"
    "drawType f = DRAWTYPE_MODEL"
    "spectatingFullView g \<or> IsInLosForAllyTeam f (myAllyTeam g)"
  shows "(drawShadowPass qd \<longrightarrow>
            DrawQuadFeature g qd x y f = Some (f\<lparr>drawFlag := FD_SHADOW_FLAG\<rparr>)) \<and>
         (\<not> drawShadowPass qd \<and> \<not> alphaFade f \<and> cam qd = Some c \<and>
          (drawRefraction qd \<longrightarrow> IsInWater f) \<and>
          (drawReflection qd \<longrightarrow>
             ObjectVisibleReflection g (drawMidPos f) (GetPos c) (drawRadius f)) \<longrightarrow>
            DrawQuadFeature g qd x y f = Some (f\<lparr>drawFlag := FD_OPAQUE_FLAG, drawAlpha := 1\<rparr>)) \<and>
         (\<not> drawShadowPass qd \<and> drawRefraction qd \<and> \<not> IsInWater f \<longrightarrow>
            DrawQuadFeature g qd x y f = Some (f\<lparr>drawFlag := FD_NODRAW_FLAG\<rparr>)) \<and>
         (\<not> drawShadowPass qd \<and> (drawRefraction qd \<longrightarrow> IsInWater f) \<and> drawReflection qd \<and>
          cam qd = Some c \<and>
          \<not> ObjectVisibleReflection g (drawMidPos f) (GetPos c) (drawRadius f) \<longrightarrow>
            DrawQuadFeature g qd x y f = Some (f\<lparr>drawFlag := FD_NODRAW_FLAG\<rparr>))"
proof -
  have shadow: "DrawQuadFeature g qd x y f = Some (f\<lparr>drawFlag := FD_SHADOW_FLAG\<rparr>)"
    if "drawShadowPass qd"
    using assms that by (auto simp: DrawQuadFeature_def Let_def)
  have opaque: "DrawQuadFeature g qd x y f = Some (f\<lparr>drawFlag := FD_OPAQUE_FLAG, drawAlpha := 1\<rparr>)"
    if "\<not> drawShadowPass qd" "\<not> alphaFade f" "cam qd = Some c" "drawRefraction qd \<longrightarrow> IsInWater f"
      "drawReflection qd \<longrightarrow> ObjectVisibleReflection g (drawMidPos f) (GetPos c) (drawRadius f)"
  proof -
    have "SetDrawAlphaValue g (f\<lparr>drawFlag := FD_NODRAW_FLAG\<rparr>) (Some c)
            (sqFadeDistBegin qd) (sqFadeDistEnd qd) =
          (f\<lparr>drawFlag := FD_NODRAW_FLAG, drawAlpha := 1\<rparr>, True)"
      using that(2) by (simp add: SetDrawAlphaValue_nofade)
    then show ?thesis
      unfolding DrawQuadFeature_visible[OF assms that(1,4,3,5)]
      by (simp add: FD_FLAG_defs)
  qed
  have refr: "DrawQuadFeature g qd x y f = Some (f\<lparr>drawFlag := FD_NODRAW_FLAG\<rparr>)"
    if "\<not> drawShadowPass qd" "drawRefraction qd" "\<not> IsInWater f"
    using assms that by (auto simp: DrawQuadFeature_def Let_def)
  have refl: "DrawQuadFeature g qd x y f = Some (f\<lparr>drawFlag := FD_NODRAW_FLAG\<rparr>)"
    if "\<not> drawShadowPass qd" "drawRefraction qd \<longrightarrow> IsInWater f" "drawReflection qd"
      "cam qd = Some c" "\<not> ObjectVisibleReflection g (drawMidPos f) (GetPos c) (drawRadius f)"
    using assms that by (auto simp: DrawQuadFeature_def Let_def)
  show ?thesis using shadow opaque refr refl by blast
qed

text \<open>
  The theorem for a shadow pass, and for a feature with fading disabled far beyond the
  draw distance in an ordinary pass.
\<close>

theorem C5_non_fading_witness:
  "DrawQuadFeature fx_globals (fx_drawer\<lparr>drawShadowPass := True\<rparr>) 0 0 (fx_feature 9000 0 100) =
     Some ((fx_feature 9000 0 100)\<lparr>drawFlag := FD_SHADOW_FLAG\<rparr>) \<and>
   DrawQuadFeature fx_globals fx_drawer 0 0 ((fx_feature 9000 0 100)\<lparr>alphaFade := False\<rparr>) =
     Some ((fx_feature 9000 0 100)\<lparr>alphaFade := False, drawFlag := FD_OPAQUE_FLAG, drawAlpha := 1\<rparr>)"
proof -
  have a: "DrawQuadFeature fx_globals (fx_drawer\<lparr>drawShadowPass := True\<rparr>) 0 0 (fx_feature 9000 0 100) =
     Some ((fx_feature 9000 0 100)\<lparr>drawFlag := FD_SHADOW_FLAG\<rparr>)"
    using C5_non_fading[of 0 "fx_drawer\<lparr>drawShadowPass := True\<rparr>" 0 "fx_feature 9000 0 100"
        fx_globals fx_cam]
    by (simp add: fx_defs)
  have b: "DrawQuadFeature fx_globals fx_drawer 0 0 ((fx_feature 9000 0 100)\<lparr>alphaFade := False\<rparr>) =
     Some ((fx_feature 9000 0 100)\<lparr>alphaFade := False, drawFlag := FD_OPAQUE_FLAG, drawAlpha := 1\<rparr>)"
    using C5_non_fading[of 0 fx_drawer 0 "(fx_feature 9000 0 100)\<lparr>alphaFade := False\<rparr>"
        fx_globals fx_cam]
    by (simp add: fx_defs)
  show ?thesis using a b by simp
qed

text \<open>
  The claim as written makes every feature with fading disabled Opaque outside a shadow
  pass. In a refraction pass a visible feature with fading disabled that is not in water
  stays NoDraw, with its \<open>drawAlpha\<close> untouched.
\<close>

theorem C5_counterexample:
  "\<not> alphaFade ((fx_feature 100 0 100)\<lparr>alphaFade := False\<rparr>) \<and>
   \<not> noDraw (fx_feature 100 0 100) \<and> \<not> IsInVoid (fx_feature 100 0 100) \<and>
   IsInLosForAllyTeam (fx_feature 100 0 100) (myAllyTeam fx_globals) \<and>
   \<not> drawShadowPass (fx_drawer\<lparr>drawRefraction := True\<rparr>) \<and>
   DrawQuadFeature fx_globals (fx_drawer\<lparr>drawRefraction := True\<rparr>) 0 0
       ((fx_feature 100 0 100)\<lparr>alphaFade := False\<rparr>) =
     Some ((fx_feature 100 0 100)\<lparr>alphaFade := False, drawFlag := FD_NODRAW_FLAG, drawAlpha := 0\<rparr>) \<and>
   FD_NODRAW_FLAG \<noteq> FD_OPAQUE_FLAG"
  by (simp add: DrawQuadFeature_def SetDrawAlphaValue_def fx_defs FD_FLAG_defs Let_def)





subsection \<open>The grid under creation, movement and destruction\<close>

lemma set_last_butlast: "xs \<noteq> [] \<Longrightarrow> set (last xs # butlast xs) = set xs"
proof -
  assume "xs \<noteq> []"
  then have "set xs = set (butlast xs @ [last xs])" by simp
  then show ?thesis by auto
qed

lemma distinct_last_butlast: "xs \<noteq> [] \<Longrightarrow> distinct xs \<Longrightarrow> distinct (last xs # butlast xs)"
proof -
  assume "xs \<noteq> []" "distinct xs"
  then have "distinct (butlast xs @ [last xs])" by simp
  then show ?thesis by auto
qed

lemma set_VectorErase_subset: "set (VectorErase xs e) \<subseteq> set xs"
proof (induction xs)
  case Nil
  show ?case by simp
next
  case (Cons x xs)
  show ?case
  proof (cases "x = e")
    case True
    then show ?thesis using set_last_butlast[of xs] by auto
  next
    case False
    then show ?thesis using Cons by auto
  qed
qed

lemma set_VectorErase: "distinct xs \<Longrightarrow> set (VectorErase xs e) = set xs - {e}"
proof (induction xs)
  case Nil
  show ?case by simp
next
  case (Cons x xs)
  show ?case
  proof (cases "x = e")
    case True
    then show ?thesis using Cons.prems set_last_butlast[of xs] by auto
  next
    case False
    then show ?thesis using Cons by auto
  qed
qed

lemma distinct_VectorErase: "distinct xs \<Longrightarrow> distinct (VectorErase xs e)"
proof (induction xs)
  case Nil
  show ?case by simp
next
  case (Cons x xs)
  show ?case
  proof (cases "x = e")
    case True
    then show ?thesis using Cons.prems distinct_last_butlast[of xs] by auto
  next
    case False
    then show ?thesis using Cons set_VectorErase_subset[of xs e] by auto
  qed
qed

lemma VectorErase_absent: "e \<notin> set xs \<Longrightarrow> VectorErase xs e = xs"
  by (induction xs) auto


lemma Clamp_range: "mi \<le> ma \<Longrightarrow> mi \<le> Clamp v mi ma \<and> Clamp v mi ma \<le> ma"
  by (simp add: Clamp_def)

lemma newDrawQuadX_range:
  "0 < drawQuadsX s \<Longrightarrow> 0 \<le> newDrawQuadX g s p \<and> newDrawQuadX g s p \<le> drawQuadsX s - 1"
  unfolding newDrawQuadX_def by (rule Clamp_range) simp

lemma newDrawQuadY_range:
  "0 < drawQuadsY s \<Longrightarrow> 0 \<le> newDrawQuadY g s p \<and> newDrawQuadY g s p \<le> drawQuadsY s - 1"
  unfolding newDrawQuadY_def by (rule Clamp_range) simp

lemma newDrawQuad_range:
  assumes "0 < drawQuadsX s" "0 < drawQuadsY s"
  shows "0 \<le> newDrawQuad g s p \<and> newDrawQuad g s p < drawQuadsX s * drawQuadsY s"
proof -
  define X where "X = drawQuadsX s"
  define Y where "Y = drawQuadsY s"
  define nx where "nx = newDrawQuadX g s p"
  define ny where "ny = newDrawQuadY g s p"
  have x: "0 \<le> nx" "nx \<le> X - 1"
    using newDrawQuadX_range[OF assms(1), of g p] by (simp_all add: nx_def X_def)
  have y: "0 \<le> ny" "ny \<le> Y - 1"
    using newDrawQuadY_range[OF assms(2), of g p] by (simp_all add: ny_def Y_def)
  have X: "0 < X" using assms(1) by (simp add: X_def)
  have "0 \<le> ny * X" using y(1) X by simp
  then have lo: "0 \<le> ny * X + nx" using x(1) by simp
  have "ny * X \<le> (Y - 1) * X" using y(2) X by (simp add: mult_right_mono)
  then have "ny * X + nx \<le> (Y - 1) * X + (X - 1)" using x(2) by simp
  also have "\<dots> = X * Y - 1" by (simp add: algebra_simps)
  finally have hi: "ny * X + nx < X * Y" by simp
  show ?thesis using lo hi by (simp add: newDrawQuad_def nx_def ny_def X_def Y_def)
qed

lemma update_bin_Some:
  assumes "0 \<le> q" "nat q < length (modelRenderers s)"
  shows "\<exists>mr. update_bin q t upd s = Some (s\<lparr>modelRenderers := mr\<rparr>) \<and>
           length mr = length (modelRenderers s) \<and>
           (\<forall>c t'. c < length mr \<longrightarrow>
              lastDrawFrame (mr ! c) = lastDrawFrame (modelRenderers s ! c) \<and>
              rendererTypes (mr ! c) t' =
                (if c = nat q \<and> t' = t then upd (rendererTypes (modelRenderers s ! c) t')
                 else rendererTypes (modelRenderers s ! c) t'))"
  using assms by (auto simp: update_bin_def Let_def nth_list_update)

lemma UpdateDrawQuad_noop:
  "drawQuad (objs s f) < -1 \<or> drawQuad (objs s f) = newDrawQuad g s (pos (objs s f)) \<Longrightarrow>
   UpdateDrawQuad g f s = Some s"
  by (auto simp: UpdateDrawQuad_def Let_def)

lemma UpdateDrawQuad_no_model:
  assumes "0 < drawQuadsX s" "0 < drawQuadsY s"
    "-1 \<le> drawQuad (objs s f)" "drawQuad (objs s f) < drawQuadsX s * drawQuadsY s"
    "drawQuad (objs s f) \<noteq> newDrawQuad g s (pos (objs s f))"
    "model (objs s f) = None"
  shows "UpdateDrawQuad g f s = Some (set_drawQuad f (newDrawQuad g s (pos (objs s f))) s)"
  using assms newDrawQuad_range[OF assms(1,2), of g "pos (objs s f)"]
  by (auto simp: UpdateDrawQuad_def Let_def)

lemma UpdateDrawQuad_relocate:
  assumes shape: "0 < drawQuadsX s" "0 < drawQuadsY s"
      "length (modelRenderers s) = nat (drawQuadsX s * drawQuadsY s)"
    and old: "-1 \<le> drawQuad (objs s f)" "drawQuad (objs s f) < drawQuadsX s * drawQuadsY s"
    and ne: "drawQuad (objs s f) \<noteq> newDrawQuad g s (pos (objs s f))"
    and m: "model (objs s f) = Some m"
  shows "\<exists>mr. UpdateDrawQuad g f s =
           Some (set_drawQuad f (newDrawQuad g s (pos (objs s f))) (s\<lparr>modelRenderers := mr\<rparr>)) \<and>
           length mr = length (modelRenderers s) \<and>
           (\<forall>c t. c < length mr \<longrightarrow>
              lastDrawFrame (mr ! c) = lastDrawFrame (modelRenderers s ! c) \<and>
              rendererTypes (mr ! c) t =
                (if c = nat (newDrawQuad g s (pos (objs s f))) \<and> t = mdl_type m
                 then AddFeature f (rendererTypes (modelRenderers s ! c) t)
                 else if 0 \<le> drawQuad (objs s f) \<and> c = nat (drawQuad (objs s f)) \<and> t = mdl_type m
                 then DelFeature f (rendererTypes (modelRenderers s ! c) t)
                 else rendererTypes (modelRenderers s ! c) t))"
proof -
  define old where "old = drawQuad (objs s f)"
  define new where "new = newDrawQuad g s (pos (objs s f))"
  have new: "0 \<le> new" "new < drawQuadsX s * drawQuadsY s"
    using newDrawQuad_range[OF shape(1,2), of g "pos (objs s f)"] by (simp_all add: new_def)
  have new_len: "nat new < length (modelRenderers s)" using new shape(3) by simp
  show ?thesis
  proof (cases "0 \<le> old")
    case True
    then have old_len: "nat old < length (modelRenderers s)"
      using old(2) shape(3) by (simp add: old_def)
    obtain mr1 where mr1: "update_bin old (mdl_type m) (DelFeature f) s = Some (s\<lparr>modelRenderers := mr1\<rparr>)"
      "length mr1 = length (modelRenderers s)"
      "\<And>c t'. c < length mr1 \<Longrightarrow>
              lastDrawFrame (mr1 ! c) = lastDrawFrame (modelRenderers s ! c) \<and>
              rendererTypes (mr1 ! c) t' =
                (if c = nat old \<and> t' = mdl_type m then DelFeature f (rendererTypes (modelRenderers s ! c) t')
                 else rendererTypes (modelRenderers s ! c) t')"
      using update_bin_Some[OF True old_len, of "mdl_type m" "DelFeature f"] by blast
    have len1: "nat new < length (modelRenderers (s\<lparr>modelRenderers := mr1\<rparr>))"
      using new_len mr1(2) by simp
    obtain mr2 where mr2: "update_bin new (mdl_type m) (AddFeature f) (s\<lparr>modelRenderers := mr1\<rparr>) =
        Some (s\<lparr>modelRenderers := mr2\<rparr>)"
      "length mr2 = length mr1"
      "\<And>c t'. c < length mr2 \<Longrightarrow>
              lastDrawFrame (mr2 ! c) = lastDrawFrame (mr1 ! c) \<and>
              rendererTypes (mr2 ! c) t' =
                (if c = nat new \<and> t' = mdl_type m then AddFeature f (rendererTypes (mr1 ! c) t')
                 else rendererTypes (mr1 ! c) t')"
      using update_bin_Some[OF new(1) len1, of "mdl_type m" "AddFeature f"] by auto
    have neq: "nat old \<noteq> nat new" using True new(1) ne by (simp add: old_def new_def)
    have eq: "UpdateDrawQuad g f s = Some (set_drawQuad f new (s\<lparr>modelRenderers := mr2\<rparr>))"
      using True old ne m new mr1(1) mr2(1)
      by (simp add: UpdateDrawQuad_def Let_def old_def[symmetric] new_def[symmetric])
    have "\<forall>c t. c < length mr2 \<longrightarrow>
              lastDrawFrame (mr2 ! c) = lastDrawFrame (modelRenderers s ! c) \<and>
              rendererTypes (mr2 ! c) t =
                (if c = nat new \<and> t = mdl_type m
                 then AddFeature f (rendererTypes (modelRenderers s ! c) t)
                 else if 0 \<le> old \<and> c = nat old \<and> t = mdl_type m
                 then DelFeature f (rendererTypes (modelRenderers s ! c) t)
                 else rendererTypes (modelRenderers s ! c) t)"
      using mr1(3) mr2(2,3) neq True by auto
    then show ?thesis
      using eq mr1(2) mr2(2) unfolding old_def new_def by auto
  next
    case False
    obtain mr2 where mr2: "update_bin new (mdl_type m) (AddFeature f) s = Some (s\<lparr>modelRenderers := mr2\<rparr>)"
      "length mr2 = length (modelRenderers s)"
      "\<And>c t'. c < length mr2 \<Longrightarrow>
              lastDrawFrame (mr2 ! c) = lastDrawFrame (modelRenderers s ! c) \<and>
              rendererTypes (mr2 ! c) t' =
                (if c = nat new \<and> t' = mdl_type m then AddFeature f (rendererTypes (modelRenderers s ! c) t')
                 else rendererTypes (modelRenderers s ! c) t')"
      using update_bin_Some[OF new(1) new_len, of "mdl_type m" "AddFeature f"] by blast
    have eq: "UpdateDrawQuad g f s = Some (set_drawQuad f new (s\<lparr>modelRenderers := mr2\<rparr>))"
      using False old ne m new mr2(1)
      by (simp add: UpdateDrawQuad_def Let_def old_def[symmetric] new_def[symmetric])
    have "\<forall>c t. c < length mr2 \<longrightarrow>
              lastDrawFrame (mr2 ! c) = lastDrawFrame (modelRenderers s ! c) \<and>
              rendererTypes (mr2 ! c) t =
                (if c = nat new \<and> t = mdl_type m
                 then AddFeature f (rendererTypes (modelRenderers s ! c) t)
                 else if 0 \<le> old \<and> c = nat old \<and> t = mdl_type m
                 then DelFeature f (rendererTypes (modelRenderers s ! c) t)
                 else rendererTypes (modelRenderers s ! c) t)"
      using mr2(3) False by auto
    then show ?thesis
      using eq mr2(2) unfolding old_def new_def by auto
  qed
qed


lemma newDrawQuad_cong:
  "drawQuadsX s' = drawQuadsX s \<Longrightarrow> drawQuadsY s' = drawQuadsY s \<Longrightarrow>
   newDrawQuad g s' p = newDrawQuad g s p"
  by (simp add: newDrawQuad_def newDrawQuadX_def newDrawQuadY_def)

lemma UpdateDrawQuad_inv:
  assumes inv: "grid_inv g A {f} s" and fA: "f \<in> A"
  shows "\<exists>s'. UpdateDrawQuad g f s = Some s' \<and> grid_inv g A {} s' \<and>
           unsortedFeatures s' = unsortedFeatures s \<and>
           (\<forall>f'. f' \<noteq> f \<longrightarrow> objs s' f' = objs s f') \<and>
           (\<exists>q. objs s' f = (objs s f)\<lparr>drawQuad := q\<rparr>)"
proof -
  define old where "old = drawQuad (objs s f)"
  define new where "new = newDrawQuad g s (pos (objs s f))"
  define N where "N = drawQuadsX s * drawQuadsY s"
  have shape: "0 < drawQuadsX s" "0 < drawQuadsY s"
    "length (modelRenderers s) = nat (drawQuadsX s * drawQuadsY s)"
    using inv by (simp_all add: grid_inv_def)
  have bins: "bin_ok g A {f} s c t" if "c < length (modelRenderers s)" for c t
    using inv that by (simp add: grid_inv_def)
  have objsA: "obj_ok s f'" if "f' \<in> A" for f'
    using inv that by (simp add: grid_inv_def)
  have uns: "set (unsortedFeatures s) \<subseteq> A" "distinct (unsortedFeatures s)"
    "\<forall>f \<in> set (unsortedFeatures s). drawType (objs s f) = DRAWTYPE_MODEL"
    using inv by (simp_all add: grid_inv_def)
  have new: "0 \<le> new" "new < N"
    using newDrawQuad_range[OF shape(1,2), of g "pos (objs s f)"] by (simp_all add: new_def N_def)
  have oldN: "old < N" using objsA[OF fA] by (simp add: obj_ok_def old_def N_def)
  have in_bin: "old = int c \<and> (\<exists>m. model (objs s f) = Some m \<and> mdl_type m = t)"
    if "c < length (modelRenderers s)" "f \<in> set (GetFeatureBin s c t)" for c t
    using bins[OF that(1), of t] that(2) by (auto simp: bin_ok_def old_def)
  show ?thesis
  proof (cases "old < -1 \<or> old = new")
    case True
    then have eq: "UpdateDrawQuad g f s = Some s"
      using UpdateDrawQuad_noop[of s f g] by (simp add: old_def new_def)
    have "bin_ok g A {} s c t" if c: "c < length (modelRenderers s)" for c t
      unfolding bin_ok_def
    proof (intro conjI ballI)
      show "distinct (GetFeatureBin s c t)" using bins[OF c, of t] by (simp add: bin_ok_def)
    next
      fix f' assume f': "f' \<in> set (GetFeatureBin s c t)"
      show "f' \<in> A" using bins[OF c, of t] f' by (simp add: bin_ok_def)
      show "drawQuad (objs s f') = int c" using bins[OF c, of t] f' by (simp add: bin_ok_def)
      show "\<exists>m. model (objs s f') = Some m \<and> mdl_type m = t"
        using bins[OF c, of t] f' by (simp add: bin_ok_def)
      show "f' \<notin> {} \<longrightarrow> newDrawQuad g s (pos (objs s f')) = int c"
      proof (cases "f' = f")
        case True
        then have "old = int c" using in_bin[OF c] f' by simp
        then have "new = int c" using \<open>old < -1 \<or> old = new\<close> by auto
        then show ?thesis using \<open>f' = f\<close> by (simp add: new_def)
      next
        case False
        then show ?thesis using bins[OF c, of t] f' by (simp add: bin_ok_def)
      qed
    qed
    then have "grid_inv g A {} s"
      using inv by (simp add: grid_inv_def)
    moreover have "objs s f = (objs s f)\<lparr>drawQuad := old\<rparr>" by (simp add: old_def)
    ultimately show ?thesis using eq by blast
  next
    case False
    then have old: "-1 \<le> old" "old \<noteq> new" by auto
    show ?thesis
    proof (cases "model (objs s f)")
      case None
      define s' where "s' = set_drawQuad f new s"
      have eq: "UpdateDrawQuad g f s = Some s'"
        using UpdateDrawQuad_no_model[OF shape(1,2), of f g] old oldN None
        by (simp add: old_def new_def N_def s'_def)
      have s'_simps: "drawQuadsX s' = drawQuadsX s" "drawQuadsY s' = drawQuadsY s"
        "modelRenderers s' = modelRenderers s" "unsortedFeatures s' = unsortedFeatures s"
        "\<And>f'. objs s' f' = (if f' = f then (objs s f)\<lparr>drawQuad := new\<rparr> else objs s f')"
        by (simp_all add: s'_def set_drawQuad_def)
      have nobin: "f \<notin> set (GetFeatureBin s c t)" if "c < length (modelRenderers s)" for c t
        using in_bin[OF that] None by auto
      have "bin_ok g A {} s' c t" if c: "c < length (modelRenderers s')" for c t
      proof -
        have c': "c < length (modelRenderers s)" using c by (simp add: s'_simps)
        have b: "bin_ok g A {f} s c t" by (rule bins[OF c'])
        have nf: "f' \<noteq> f" if "f' \<in> set (GetFeatureBin s c t)" for f'
          using nobin[OF c', of t] that by auto
        show ?thesis
          using b nf unfolding bin_ok_def GetFeatureBin_def s'_simps
            newDrawQuad_cong[OF s'_simps(1,2)]
          by auto
      qed
      moreover have "obj_ok s' f'" if "f' \<in> A" for f'
      proof (cases "f' = f")
        case True
        then show ?thesis using new None by (simp add: obj_ok_def s'_simps N_def)
      next
        case False
        then show ?thesis
          using objsA[OF that] by (simp add: obj_ok_def s'_simps GetFeatureBin_def)
      qed
      moreover have "\<forall>f' \<in> set (unsortedFeatures s'). drawType (objs s' f') = DRAWTYPE_MODEL"
        using uns(3) by (simp add: s'_simps)
      ultimately have "grid_inv g A {} s'"
        using shape uns by (simp add: grid_inv_def s'_simps)
      moreover have "objs s' f = (objs s f)\<lparr>drawQuad := new\<rparr>" by (simp add: s'_simps)
      moreover have "\<forall>f'. f' \<noteq> f \<longrightarrow> objs s' f' = objs s f'" by (simp add: s'_simps)
      ultimately show ?thesis using eq s'_simps(4) by blast
    next
      case (Some m)
      obtain mr where mr: "UpdateDrawQuad g f s = Some (set_drawQuad f new (s\<lparr>modelRenderers := mr\<rparr>))"
        "length mr = length (modelRenderers s)"
        "\<And>c t. c < length mr \<Longrightarrow>
              rendererTypes (mr ! c) t =
                (if c = nat new \<and> t = mdl_type m
                 then AddFeature f (rendererTypes (modelRenderers s ! c) t)
                 else if 0 \<le> old \<and> c = nat old \<and> t = mdl_type m
                 then DelFeature f (rendererTypes (modelRenderers s ! c) t)
                 else rendererTypes (modelRenderers s ! c) t)"
        using UpdateDrawQuad_relocate[OF shape, of f g m] old oldN Some
        unfolding old_def new_def N_def by blast
      define s' where "s' = set_drawQuad f new (s\<lparr>modelRenderers := mr\<rparr>)"
      have s'_simps: "drawQuadsX s' = drawQuadsX s" "drawQuadsY s' = drawQuadsY s"
        "modelRenderers s' = mr" "unsortedFeatures s' = unsortedFeatures s"
        "\<And>f'. objs s' f' = (if f' = f then (objs s f)\<lparr>drawQuad := new\<rparr> else objs s f')"
        by (simp_all add: s'_def set_drawQuad_def)
      have bin': "GetFeatureBin s' c t =
          (if c = nat new \<and> t = mdl_type m then GetFeatureBin s c t @ [f]
           else if 0 \<le> old \<and> c = nat old \<and> t = mdl_type m then VectorErase (GetFeatureBin s c t) f
           else GetFeatureBin s c t)" if "c < length (modelRenderers s)" for c t
        using mr(3)[of c t] that mr(2)
        by (simp add: GetFeatureBin_def s'_simps AddFeature_def DelFeature_def)
      have ndq: "newDrawQuad g s' p = newDrawQuad g s p" for p
        by (rule newDrawQuad_cong[OF s'_simps(1,2)])
      have "bin_ok g A {} s' c t" if c: "c < length (modelRenderers s')" for c t
      proof -
        have c': "c < length (modelRenderers s)" using c mr(2) by (simp add: s'_simps)
        have b: "distinct (GetFeatureBin s c t)"
          "\<And>f'. f' \<in> set (GetFeatureBin s c t) \<Longrightarrow> f' \<in> A \<and> drawQuad (objs s f') = int c \<and>
              (\<exists>m. model (objs s f') = Some m \<and> mdl_type m = t) \<and>
              (f' \<noteq> f \<longrightarrow> newDrawQuad g s (pos (objs s f')) = int c)"
          using bins[OF c', of t] by (auto simp: bin_ok_def)
        consider (add) "c = nat new" "t = mdl_type m"
          | (del) "\<not> (c = nat new \<and> t = mdl_type m)" "0 \<le> old" "c = nat old" "t = mdl_type m"
          | (other) "\<not> (c = nat new \<and> t = mdl_type m)" "\<not> (0 \<le> old \<and> c = nat old \<and> t = mdl_type m)"
          by blast
        then show ?thesis
        proof cases
          case add
          have nf: "f \<notin> set (GetFeatureBin s c t)"
          proof
            assume "f \<in> set (GetFeatureBin s c t)"
            then have "old = int c" using in_bin[OF c'] by simp
            then show False using add(1) new(1) old(2) by simp
          qed
          have eq: "GetFeatureBin s' c t = GetFeatureBin s c t @ [f]"
            using bin'[OF c', of t] add by simp
          have d: "distinct (GetFeatureBin s c t @ [f])" using b(1) nf by simp
          have cnew: "int c = new" using add(1) new(1) by simp
          have mem: "f' \<in> A \<and> drawQuad (objs s' f') = int c \<and>
              (\<exists>m. model (objs s' f') = Some m \<and> mdl_type m = t) \<and>
              (f' \<notin> {} \<longrightarrow> newDrawQuad g s' (pos (objs s' f')) = int c)"
            if "f' \<in> set (GetFeatureBin s c t @ [f])" for f'
          proof (cases "f' = f")
            case True
            then show ?thesis
              using fA Some add(2) cnew by (simp add: s'_simps ndq new_def[symmetric])
          next
            case False
            then have "f' \<in> set (GetFeatureBin s c t)" using that by simp
            then show ?thesis using b(2)[of f'] False by (simp add: s'_simps ndq)
          qed
          show ?thesis
            unfolding bin_ok_def eq using d mem by blast
        next
          case del
          have eq: "GetFeatureBin s' c t = VectorErase (GetFeatureBin s c t) f"
            using bin'[OF c', of t] del by simp
          have st: "set (VectorErase (GetFeatureBin s c t) f) = set (GetFeatureBin s c t) - {f}"
            by (rule set_VectorErase[OF b(1)])
          show ?thesis
            unfolding bin_ok_def eq st using b distinct_VectorErase[OF b(1), of f]
            by (auto simp: s'_simps ndq)
        next
          case other
          have eq: "GetFeatureBin s' c t = GetFeatureBin s c t"
            using bin'[OF c', of t] other by auto
          have nf: "f \<notin> set (GetFeatureBin s c t)"
          proof
            assume "f \<in> set (GetFeatureBin s c t)"
            then have "old = int c" "mdl_type m = t" using in_bin[OF c', of t] Some by auto
            then show False using other(2) by auto
          qed
          show ?thesis
            unfolding bin_ok_def eq using b nf
            by (auto simp: s'_simps ndq)
        qed
      qed
      moreover have "obj_ok s' f'" if f': "f' \<in> A" for f'
      proof (cases "f' = f")
        case True
        have "nat new < length (modelRenderers s)" using new shape(3) by (simp add: N_def)
        then have "f \<in> set (GetFeatureBin s' (nat new) (mdl_type m))"
          using bin'[of "nat new" "mdl_type m"] by simp
        then show ?thesis using True new Some by (simp add: obj_ok_def s'_simps N_def)
      next
        case False
        have o: "obj_ok s f'" by (rule objsA[OF f'])
        show ?thesis
          unfolding obj_ok_def
        proof (intro conjI allI impI)
          show "drawQuad (objs s' f') < drawQuadsX s' * drawQuadsY s'"
            using o False by (simp add: obj_ok_def s'_simps)
        next
          fix m' assume a: "0 \<le> drawQuad (objs s' f') \<and> model (objs s' f') = Some m'"
          define c where "c = nat (drawQuad (objs s f'))"
          have a': "0 \<le> drawQuad (objs s f')" "model (objs s f') = Some m'"
            using a False by (simp_all add: s'_simps)
          have c': "c < length (modelRenderers s)"
            using o a' shape(3) by (simp add: obj_ok_def c_def)
          have mem: "f' \<in> set (GetFeatureBin s c (mdl_type m'))"
            using o a' by (simp add: obj_ok_def c_def)
          have d: "distinct (GetFeatureBin s c (mdl_type m'))"
            using bins[OF c', of "mdl_type m'"] by (simp add: bin_ok_def)
          have e: "GetFeatureBin s' c (mdl_type m') =
              (if c = nat new \<and> mdl_type m' = mdl_type m then GetFeatureBin s c (mdl_type m') @ [f]
               else if 0 \<le> old \<and> c = nat old \<and> mdl_type m' = mdl_type m
               then VectorErase (GetFeatureBin s c (mdl_type m')) f
               else GetFeatureBin s c (mdl_type m'))"
            by (rule bin'[OF c'])
          have m1: "f' \<in> set (GetFeatureBin s c (mdl_type m') @ [f])" using mem by simp
          have m2: "f' \<in> set (VectorErase (GetFeatureBin s c (mdl_type m')) f)"
            unfolding set_VectorErase[OF d] using mem False by simp
          have "f' \<in> set (GetFeatureBin s' c (mdl_type m'))"
          proof (cases "c = nat new \<and> mdl_type m' = mdl_type m")
            case True
            show ?thesis using m1 e[unfolded if_P[OF True]] by simp
          next
            case nadd: False
            show ?thesis
            proof (cases "0 \<le> old \<and> c = nat old \<and> mdl_type m' = mdl_type m")
              case True
              show ?thesis using m2 e[unfolded if_not_P[OF nadd] if_P[OF True]] by simp
            next
              case False
              show ?thesis using mem e[unfolded if_not_P[OF nadd] if_not_P[OF False]] by simp
            qed
          qed
          then show "f' \<in> set (GetFeatureBin s' (nat (drawQuad (objs s' f'))) (mdl_type m'))"
            using False by (simp add: s'_simps c_def)
        qed
      qed
      moreover have "\<forall>f' \<in> set (unsortedFeatures s'). drawType (objs s' f') = DRAWTYPE_MODEL"
        using uns(3) by (simp add: s'_simps)
      ultimately have "grid_inv g A {} s'"
        using shape uns mr(2) by (simp add: grid_inv_def s'_simps)
      moreover have "objs s' f = (objs s f)\<lparr>drawQuad := new\<rparr>" by (simp add: s'_simps)
      moreover have "\<forall>f'. f' \<noteq> f \<longrightarrow> objs s' f' = objs s f'" by (simp add: s'_simps)
      moreover have "UpdateDrawQuad g f s = Some s'" using mr(1) by (simp add: s'_def)
      ultimately show ?thesis using s'_simps(4) by blast
    qed
  qed
qed


lemma grid_inv_fresh:
  assumes inv: "grid_inv g A {} s" and f: "f \<notin> A" and dq: "drawQuad obj < 0"
  shows "grid_inv g (insert f A) E (s\<lparr>objs := (objs s)(f := obj)\<rparr>)"
proof -
  define s' where "s' = s\<lparr>objs := (objs s)(f := obj)\<rparr>"
  have s'_simps: "drawQuadsX s' = drawQuadsX s" "drawQuadsY s' = drawQuadsY s"
    "modelRenderers s' = modelRenderers s" "unsortedFeatures s' = unsortedFeatures s"
    "\<And>f'. objs s' f' = (if f' = f then obj else objs s f')"
    "\<And>c t. GetFeatureBin s' c t = GetFeatureBin s c t"
    by (simp_all add: s'_def GetFeatureBin_def)
  have ndq: "newDrawQuad g s' p = newDrawQuad g s p" for p
    by (rule newDrawQuad_cong[OF s'_simps(1,2)])
  have shape: "0 < drawQuadsX s" "0 < drawQuadsY s"
    "length (modelRenderers s) = nat (drawQuadsX s * drawQuadsY s)"
    using inv by (simp_all add: grid_inv_def)
  have bins: "bin_ok g A {} s c t" if "c < length (modelRenderers s)" for c t
    using inv that by (simp add: grid_inv_def)
  have objsA: "obj_ok s f'" if "f' \<in> A" for f'
    using inv that by (simp add: grid_inv_def)
  have uns: "set (unsortedFeatures s) \<subseteq> A" "distinct (unsortedFeatures s)"
    "\<forall>f \<in> set (unsortedFeatures s). drawType (objs s f) = DRAWTYPE_MODEL"
    using inv by (simp_all add: grid_inv_def)
  have "bin_ok g (insert f A) E s' c t" if c: "c < length (modelRenderers s')" for c t
  proof -
    have c': "c < length (modelRenderers s)" using c by (simp add: s'_simps)
    have b: "distinct (GetFeatureBin s c t)"
      "\<And>f'. f' \<in> set (GetFeatureBin s c t) \<Longrightarrow> f' \<in> A \<and> drawQuad (objs s f') = int c \<and>
          (\<exists>m. model (objs s f') = Some m \<and> mdl_type m = t) \<and>
          newDrawQuad g s (pos (objs s f')) = int c"
      using bins[OF c', of t] by (auto simp: bin_ok_def)
    have "f' \<in> insert f A \<and> drawQuad (objs s' f') = int c \<and>
          (\<exists>m. model (objs s' f') = Some m \<and> mdl_type m = t) \<and>
          (f' \<notin> E \<longrightarrow> newDrawQuad g s' (pos (objs s' f')) = int c)"
      if "f' \<in> set (GetFeatureBin s c t)" for f'
    proof -
      have "f' \<in> A" using b(2)[OF that] by simp
      then have "f' \<noteq> f" using f by auto
      then show ?thesis using b(2)[OF that] by (simp add: s'_simps ndq)
    qed
    then show ?thesis unfolding bin_ok_def s'_simps using b(1) by blast
  qed
  moreover have "obj_ok s' f'" if "f' \<in> insert f A" for f'
  proof (cases "f' = f")
    case True
    have "0 < drawQuadsX s * drawQuadsY s" using shape(1,2) by simp
    then show ?thesis using True dq by (simp add: obj_ok_def s'_simps)
  next
    case False
    then have "f' \<in> A" using that by simp
    then show ?thesis using objsA[of f'] False by (simp add: obj_ok_def s'_simps)
  qed
  moreover have "\<forall>f' \<in> set (unsortedFeatures s'). drawType (objs s' f') = DRAWTYPE_MODEL"
  proof
    fix f' assume "f' \<in> set (unsortedFeatures s')"
    then have m: "f' \<in> set (unsortedFeatures s)" by (simp add: s'_simps)
    then have "f' \<noteq> f" using uns(1) f by auto
    then show "drawType (objs s' f') = DRAWTYPE_MODEL" using uns(3) m by (simp add: s'_simps)
  qed
  moreover have "set (unsortedFeatures s') \<subseteq> insert f A" using uns(1) by (auto simp: s'_simps)
  ultimately show ?thesis
    unfolding s'_def[symmetric] using shape uns(2) by (simp add: grid_inv_def s'_simps)
qed

lemma grid_inv_moved:
  assumes inv: "grid_inv g A {} s"
  shows "grid_inv g A {f} (s\<lparr>objs := (objs s)(f := (objs s f)\<lparr>pos := p\<rparr>)\<rparr>)"
proof -
  define s' where "s' = s\<lparr>objs := (objs s)(f := (objs s f)\<lparr>pos := p\<rparr>)\<rparr>"
  have s'_simps: "drawQuadsX s' = drawQuadsX s" "drawQuadsY s' = drawQuadsY s"
    "modelRenderers s' = modelRenderers s" "unsortedFeatures s' = unsortedFeatures s"
    "\<And>f'. objs s' f' = (if f' = f then (objs s f)\<lparr>pos := p\<rparr> else objs s f')"
    "\<And>c t. GetFeatureBin s' c t = GetFeatureBin s c t"
    by (simp_all add: s'_def GetFeatureBin_def)
  have ndq: "newDrawQuad g s' q = newDrawQuad g s q" for q
    by (rule newDrawQuad_cong[OF s'_simps(1,2)])
  have shape: "0 < drawQuadsX s" "0 < drawQuadsY s"
    "length (modelRenderers s) = nat (drawQuadsX s * drawQuadsY s)"
    using inv by (simp_all add: grid_inv_def)
  have bins: "bin_ok g A {} s c t" if "c < length (modelRenderers s)" for c t
    using inv that by (simp add: grid_inv_def)
  have objsA: "obj_ok s f'" if "f' \<in> A" for f'
    using inv that by (simp add: grid_inv_def)
  have uns: "set (unsortedFeatures s) \<subseteq> A" "distinct (unsortedFeatures s)"
    "\<forall>f \<in> set (unsortedFeatures s). drawType (objs s f) = DRAWTYPE_MODEL"
    using inv by (simp_all add: grid_inv_def)
  have "bin_ok g A {f} s' c t" if c: "c < length (modelRenderers s')" for c t
  proof -
    have c': "c < length (modelRenderers s)" using c by (simp add: s'_simps)
    have b: "distinct (GetFeatureBin s c t)"
      "\<And>f'. f' \<in> set (GetFeatureBin s c t) \<Longrightarrow> f' \<in> A \<and> drawQuad (objs s f') = int c \<and>
          (\<exists>m. model (objs s f') = Some m \<and> mdl_type m = t) \<and>
          newDrawQuad g s (pos (objs s f')) = int c"
      using bins[OF c', of t] by (auto simp: bin_ok_def)
    have "f' \<in> A \<and> drawQuad (objs s' f') = int c \<and>
          (\<exists>m. model (objs s' f') = Some m \<and> mdl_type m = t) \<and>
          (f' \<notin> {f} \<longrightarrow> newDrawQuad g s' (pos (objs s' f')) = int c)"
      if "f' \<in> set (GetFeatureBin s c t)" for f'
      using b(2)[OF that] by (cases "f' = f") (simp_all add: s'_simps ndq)
    then show ?thesis unfolding bin_ok_def s'_simps using b(1) by blast
  qed
  moreover have "obj_ok s' f'" if "f' \<in> A" for f'
    using objsA[OF that] by (cases "f' = f") (simp_all add: obj_ok_def s'_simps)
  moreover have "\<forall>f' \<in> set (unsortedFeatures s'). drawType (objs s' f') = DRAWTYPE_MODEL"
    using uns(3) by (simp add: s'_simps)
  ultimately show ?thesis
    unfolding s'_def[symmetric] using shape uns(1,2) by (simp add: grid_inv_def s'_simps)
qed

lemma RenderFeatureCreated_inv:
  assumes inv: "grid_inv g A {} s" and f: "f \<notin> A" and dq: "drawQuad obj < 0"
  shows "\<exists>s'. RenderFeatureCreated g f (s\<lparr>objs := (objs s)(f := obj)\<rparr>) = Some s' \<and>
           grid_inv g (insert f A) {} s'"
proof (cases "drawType obj = DRAWTYPE_MODEL")
  case False
  then have "RenderFeatureCreated g f (s\<lparr>objs := (objs s)(f := obj)\<rparr>) =
      Some (s\<lparr>objs := (objs s)(f := obj)\<rparr>)"
    by (simp add: RenderFeatureCreated_def)
  then show ?thesis using grid_inv_fresh[OF inv f dq, of "{}"] by simp
next
  case True
  define obj' where "obj' = fst (SetDrawAlphaValue g (obj\<lparr>drawQuad := -1\<rparr>) None (-1) (-1))"
  define s1 where "s1 = s\<lparr>objs := (objs s)(f := obj')\<rparr>"
  have obj': "obj' = obj\<lparr>drawQuad := -1, drawAlpha := 0\<rparr>"
    by (simp add: obj'_def SetDrawAlphaValue_def)
  have s1: "reset_drawAlpha g f (set_drawQuad f (-1) (s\<lparr>objs := (objs s)(f := obj)\<rparr>)) = s1"
    by (simp add: reset_drawAlpha_def set_drawQuad_def s1_def obj'_def)
  have inv1: "grid_inv g (insert f A) {f} s1"
    unfolding s1_def by (rule grid_inv_fresh[OF inv f]) (simp add: obj')
  obtain s2 where s2: "UpdateDrawQuad g f s1 = Some s2" "grid_inv g (insert f A) {} s2"
    "unsortedFeatures s2 = unsortedFeatures s1"
    "\<And>f'. f' \<noteq> f \<Longrightarrow> objs s2 f' = objs s1 f'"
    "\<exists>q. objs s2 f = (objs s1 f)\<lparr>drawQuad := q\<rparr>"
    using UpdateDrawQuad_inv[OF inv1] by blast
  define s3 where "s3 = s2\<lparr>unsortedFeatures := unsortedFeatures s2 @ [f]\<rparr>"
  have eq: "RenderFeatureCreated g f (s\<lparr>objs := (objs s)(f := obj)\<rparr>) = Some s3"
    using True s1 s2(1) by (simp add: RenderFeatureCreated_def s3_def)
  have uns_s: "set (unsortedFeatures s) \<subseteq> A" using inv by (simp add: grid_inv_def)
  have nf: "f \<notin> set (unsortedFeatures s2)"
    using uns_s f by (auto simp: s2(3) s1_def)
  have dt: "drawType (objs s2 f) = DRAWTYPE_MODEL"
    using True s2(5) by (auto simp: s1_def obj')
  have g2: "0 < drawQuadsX s2" "0 < drawQuadsY s2"
    "length (modelRenderers s2) = nat (drawQuadsX s2 * drawQuadsY s2)"
    "\<forall>c < length (modelRenderers s2). \<forall>t. bin_ok g (insert f A) {} s2 c t"
    "\<forall>f' \<in> insert f A. obj_ok s2 f'"
    "set (unsortedFeatures s2) \<subseteq> insert f A" "distinct (unsortedFeatures s2)"
    "\<forall>f' \<in> set (unsortedFeatures s2). drawType (objs s2 f') = DRAWTYPE_MODEL"
    using s2(2) by (simp_all add: grid_inv_def)
  have b3: "bin_ok g (insert f A) {} s3 c t = bin_ok g (insert f A) {} s2 c t" for c t
    by (simp add: bin_ok_def s3_def GetFeatureBin_def newDrawQuad_def newDrawQuadX_def newDrawQuadY_def)
  have o3: "obj_ok s3 f' = obj_ok s2 f'" for f'
    by (simp add: obj_ok_def s3_def GetFeatureBin_def)
  have "grid_inv g (insert f A) {} s3"
    unfolding grid_inv_def b3 o3 using g2 nf dt by (simp add: s3_def)
  then show ?thesis using eq by simp
qed


lemma Moved_inv:
  assumes inv: "grid_inv g A {} s" and f: "f \<in> A"
  shows "\<exists>s'. apply_event g (Moved f p) s = Some s' \<and> grid_inv g A {} s'"
  using UpdateDrawQuad_inv[OF grid_inv_moved[OF inv, of f p] f]
  by (auto simp: FeatureMoved_def)

lemma RenderFeatureDestroyed_registered:
  assumes "model (objs s f) = Some m" "0 \<le> drawQuad (objs s f)"
    "nat (drawQuad (objs s f)) < length (modelRenderers s)"
  shows "\<exists>mr. RenderFeatureDestroyed f s =
           Some (set_drawQuad f (-1)
             (s\<lparr>unsortedFeatures :=
                   (if drawType (objs s f) = DRAWTYPE_MODEL
                    then VectorErase (unsortedFeatures s) f else unsortedFeatures s),
                 modelRenderers := mr, objectLODs := objectLODs s @ [(f, 0)]\<rparr>)) \<and>
           length mr = length (modelRenderers s) \<and>
           (\<forall>c t. c < length mr \<longrightarrow>
              lastDrawFrame (mr ! c) = lastDrawFrame (modelRenderers s ! c) \<and>
              rendererTypes (mr ! c) t =
                (if c = nat (drawQuad (objs s f)) \<and> t = mdl_type m
                 then DelFeature f (rendererTypes (modelRenderers s ! c) t)
                 else rendererTypes (modelRenderers s ! c) t))"
proof -
  define s1 where "s1 = (if drawType (objs s f) = DRAWTYPE_MODEL
                then s\<lparr>unsortedFeatures := VectorErase (unsortedFeatures s) f\<rparr> else s)"
  have s1: "objs s1 = objs s" "modelRenderers s1 = modelRenderers s"
    "objectLODs s1 = objectLODs s"
    "s1 = s\<lparr>unsortedFeatures := (if drawType (objs s f) = DRAWTYPE_MODEL
                    then VectorErase (unsortedFeatures s) f else unsortedFeatures s)\<rparr>"
    by (simp_all add: s1_def)
  have len: "nat (drawQuad (objs s f)) < length (modelRenderers s1)"
    using assms(3) by (simp add: s1)
  obtain mr where mr: "update_bin (drawQuad (objs s f)) (mdl_type m) (DelFeature f) s1 =
        Some (s1\<lparr>modelRenderers := mr\<rparr>)"
      "length mr = length (modelRenderers s1)"
      "\<And>c t'. c < length mr \<Longrightarrow>
              lastDrawFrame (mr ! c) = lastDrawFrame (modelRenderers s1 ! c) \<and>
              rendererTypes (mr ! c) t' =
                (if c = nat (drawQuad (objs s f)) \<and> t' = mdl_type m
                 then DelFeature f (rendererTypes (modelRenderers s1 ! c) t')
                 else rendererTypes (modelRenderers s1 ! c) t')"
    using update_bin_Some[OF assms(2) len, of "mdl_type m" "DelFeature f"] by blast
  have "RenderFeatureDestroyed f s =
      Some ((set_drawQuad f (-1) (s1\<lparr>modelRenderers := mr\<rparr>))
              \<lparr>objectLODs := objectLODs s @ [(f, 0)]\<rparr>)"
    using assms(1,2) mr(1)
    by (simp add: RenderFeatureDestroyed_def Let_def s1_def[symmetric] s1(1) set_drawQuad_def s1(3))
  also have "(set_drawQuad f (-1) (s1\<lparr>modelRenderers := mr\<rparr>))\<lparr>objectLODs := objectLODs s @ [(f, 0)]\<rparr> =
      set_drawQuad f (-1)
             (s\<lparr>unsortedFeatures :=
                   (if drawType (objs s f) = DRAWTYPE_MODEL
                    then VectorErase (unsortedFeatures s) f else unsortedFeatures s),
                 modelRenderers := mr, objectLODs := objectLODs s @ [(f, 0)]\<rparr>)"
    by (simp add: s1(4) set_drawQuad_def)
  finally show ?thesis using mr(2,3) by (auto simp: s1(2))
qed

lemma RenderFeatureDestroyed_unregistered:
  assumes "model (objs s f) = None \<or> drawQuad (objs s f) < 0"
  shows "RenderFeatureDestroyed f s =
           Some (s\<lparr>unsortedFeatures :=
                   (if drawType (objs s f) = DRAWTYPE_MODEL
                    then VectorErase (unsortedFeatures s) f else unsortedFeatures s),
                 objectLODs := objectLODs s @ [(f, 0)]\<rparr>)"
  using assms by (auto simp: RenderFeatureDestroyed_def Let_def split: option.splits)

lemma RenderFeatureDestroyed_inv:
  assumes inv: "grid_inv g A {} s" and fA: "f \<in> A"
  shows "\<exists>s'. RenderFeatureDestroyed f s = Some s' \<and> grid_inv g (A - {f}) {} s'"
proof -
  define U where "U = (if drawType (objs s f) = DRAWTYPE_MODEL
                    then VectorErase (unsortedFeatures s) f else unsortedFeatures s)"
  have shape: "0 < drawQuadsX s" "0 < drawQuadsY s"
    "length (modelRenderers s) = nat (drawQuadsX s * drawQuadsY s)"
    using inv by (simp_all add: grid_inv_def)
  have bins: "bin_ok g A {} s c t" if "c < length (modelRenderers s)" for c t
    using inv that by (simp add: grid_inv_def)
  have objsA: "obj_ok s f'" if "f' \<in> A" for f'
    using inv that by (simp add: grid_inv_def)
  have uns: "set (unsortedFeatures s) \<subseteq> A" "distinct (unsortedFeatures s)"
    "\<forall>f \<in> set (unsortedFeatures s). drawType (objs s f) = DRAWTYPE_MODEL"
    using inv by (simp_all add: grid_inv_def)
  have U: "set U \<subseteq> A - {f}" "distinct U" "set U \<subseteq> set (unsortedFeatures s)"
  proof -
    show "set U \<subseteq> A - {f}"
    proof (cases "drawType (objs s f) = DRAWTYPE_MODEL")
      case True
      then show ?thesis using set_VectorErase[OF uns(2), of f] uns(1) by (auto simp: U_def)
    next
      case False
      then have "f \<notin> set (unsortedFeatures s)" using uns(3) by auto
      then show ?thesis using False uns(1) by (auto simp: U_def)
    qed
    show "distinct U" using uns(2) distinct_VectorErase[OF uns(2), of f] by (simp add: U_def)
    show "set U \<subseteq> set (unsortedFeatures s)"
      using set_VectorErase_subset[of "unsortedFeatures s" f] by (simp add: U_def)
  qed
  have in_bin: "drawQuad (objs s f) = int c \<and> (\<exists>m. model (objs s f) = Some m \<and> mdl_type m = t)"
    if "c < length (modelRenderers s)" "f \<in> set (GetFeatureBin s c t)" for c t
    using bins[OF that(1), of t] that(2) by (auto simp: bin_ok_def)
  show ?thesis
  proof (cases "model (objs s f) = None \<or> drawQuad (objs s f) < 0")
    case True
    define s' where "s' = s\<lparr>unsortedFeatures := U, objectLODs := objectLODs s @ [(f, 0)]\<rparr>"
    have eq: "RenderFeatureDestroyed f s = Some s'"
      using RenderFeatureDestroyed_unregistered[OF True] by (simp add: s'_def U_def)
    have s'_simps: "drawQuadsX s' = drawQuadsX s" "drawQuadsY s' = drawQuadsY s"
      "modelRenderers s' = modelRenderers s" "unsortedFeatures s' = U"
      "objs s' = objs s" "\<And>c t. GetFeatureBin s' c t = GetFeatureBin s c t"
      by (simp_all add: s'_def GetFeatureBin_def)
    have ndq: "newDrawQuad g s' q = newDrawQuad g s q" for q
      by (rule newDrawQuad_cong[OF s'_simps(1,2)])
    have nobin: "f \<notin> set (GetFeatureBin s c t)" if "c < length (modelRenderers s)" for c t
      using in_bin[OF that] True by auto
    have "bin_ok g (A - {f}) {} s' c t" if c: "c < length (modelRenderers s')" for c t
    proof -
      have c': "c < length (modelRenderers s)" using c by (simp add: s'_simps)
      have "f' \<noteq> f" if "f' \<in> set (GetFeatureBin s c t)" for f'
        using nobin[OF c', of t] that by auto
      then show ?thesis
        using bins[OF c', of t] unfolding bin_ok_def s'_simps ndq by blast
    qed
    moreover have "obj_ok s' f'" if "f' \<in> A - {f}" for f'
      using objsA[of f'] that by (simp add: obj_ok_def s'_simps)
    moreover have "\<forall>f' \<in> set (unsortedFeatures s'). drawType (objs s' f') = DRAWTYPE_MODEL"
      using uns(3) U(3) by (auto simp: s'_simps)
    ultimately have "grid_inv g (A - {f}) {} s'"
      using shape U(1,2) by (simp add: grid_inv_def s'_simps)
    then show ?thesis using eq by simp
  next
    case False
    then obtain m where m: "model (objs s f) = Some m" and dq: "0 \<le> drawQuad (objs s f)"
      by auto
    define old where "old = drawQuad (objs s f)"
    have oldN: "nat old < length (modelRenderers s)"
      using objsA[OF fA] dq shape by (simp add: obj_ok_def old_def)
    obtain mr where mr: "RenderFeatureDestroyed f s =
           Some (set_drawQuad f (-1)
             (s\<lparr>unsortedFeatures := U, modelRenderers := mr, objectLODs := objectLODs s @ [(f, 0)]\<rparr>))"
        "length mr = length (modelRenderers s)"
        "\<And>c t. c < length mr \<Longrightarrow>
              rendererTypes (mr ! c) t =
                (if c = nat old \<and> t = mdl_type m
                 then DelFeature f (rendererTypes (modelRenderers s ! c) t)
                 else rendererTypes (modelRenderers s ! c) t)"
      using RenderFeatureDestroyed_registered[OF m dq] oldN unfolding old_def U_def by blast
    define s' where "s' = set_drawQuad f (-1)
             (s\<lparr>unsortedFeatures := U, modelRenderers := mr, objectLODs := objectLODs s @ [(f, 0)]\<rparr>)"
    have s'_simps: "drawQuadsX s' = drawQuadsX s" "drawQuadsY s' = drawQuadsY s"
      "modelRenderers s' = mr" "unsortedFeatures s' = U"
      "\<And>f'. objs s' f' = (if f' = f then (objs s f)\<lparr>drawQuad := -1\<rparr> else objs s f')"
      by (simp_all add: s'_def set_drawQuad_def)
    have bin': "GetFeatureBin s' c t =
          (if c = nat old \<and> t = mdl_type m then VectorErase (GetFeatureBin s c t) f
           else GetFeatureBin s c t)" if "c < length (modelRenderers s)" for c t
      using mr(3)[of c t] that mr(2)
      by (simp add: GetFeatureBin_def s'_simps DelFeature_def)
    have ndq: "newDrawQuad g s' q = newDrawQuad g s q" for q
      by (rule newDrawQuad_cong[OF s'_simps(1,2)])
    have "bin_ok g (A - {f}) {} s' c t" if c: "c < length (modelRenderers s')" for c t
    proof -
      have c': "c < length (modelRenderers s)" using c mr(2) by (simp add: s'_simps)
      have b: "distinct (GetFeatureBin s c t)"
        "\<And>f'. f' \<in> set (GetFeatureBin s c t) \<Longrightarrow> f' \<in> A \<and> drawQuad (objs s f') = int c \<and>
            (\<exists>m. model (objs s f') = Some m \<and> mdl_type m = t) \<and>
            newDrawQuad g s (pos (objs s f')) = int c"
        using bins[OF c', of t] by (auto simp: bin_ok_def)
      have nf: "f \<notin> set (GetFeatureBin s' c t)"
      proof (cases "c = nat old \<and> t = mdl_type m")
        case True
        have "GetFeatureBin s' c t = VectorErase (GetFeatureBin s c t) f"
          using bin'[OF c', of t, unfolded if_P[OF True]] .
        then show ?thesis using set_VectorErase[OF b(1), of f] by simp
      next
        case False
        have e: "GetFeatureBin s' c t = GetFeatureBin s c t"
          using bin'[OF c', of t, unfolded if_not_P[OF False]] .
        have "f \<notin> set (GetFeatureBin s c t)"
        proof
          assume "f \<in> set (GetFeatureBin s c t)"
          then have "old = int c" "mdl_type m = t" using in_bin[OF c', of t] m by (auto simp: old_def)
          then show False using False by auto
        qed
        then show ?thesis using e by simp
      qed
      have sub: "set (GetFeatureBin s' c t) \<subseteq> set (GetFeatureBin s c t)"
        using bin'[OF c', of t] set_VectorErase_subset[of "GetFeatureBin s c t" f]
        by (cases "c = nat old \<and> t = mdl_type m") simp_all
      have d: "distinct (GetFeatureBin s' c t)"
        using bin'[OF c', of t] b(1) distinct_VectorErase[OF b(1), of f]
        by (cases "c = nat old \<and> t = mdl_type m") simp_all
      have "f' \<in> A - {f} \<and> drawQuad (objs s' f') = int c \<and>
            (\<exists>m. model (objs s' f') = Some m \<and> mdl_type m = t) \<and>
            (f' \<notin> {} \<longrightarrow> newDrawQuad g s' (pos (objs s' f')) = int c)"
        if "f' \<in> set (GetFeatureBin s' c t)" for f'
      proof -
        have "f' \<noteq> f" using nf that by auto
        moreover have "f' \<in> set (GetFeatureBin s c t)" using sub that by auto
        ultimately show ?thesis using b(2)[of f'] by (simp add: s'_simps ndq)
      qed
      then show ?thesis unfolding bin_ok_def using d by blast
    qed
    moreover have "obj_ok s' f'" if f': "f' \<in> A - {f}" for f'
      unfolding obj_ok_def
    proof (intro conjI allI impI)
      have ne: "f' \<noteq> f" and f'A: "f' \<in> A" using f' by auto
      have o: "obj_ok s f'" by (rule objsA[OF f'A])
      show "drawQuad (objs s' f') < drawQuadsX s' * drawQuadsY s'"
        using o ne by (simp add: obj_ok_def s'_simps)
      fix m' assume a: "0 \<le> drawQuad (objs s' f') \<and> model (objs s' f') = Some m'"
      define c where "c = nat (drawQuad (objs s f'))"
      have a': "0 \<le> drawQuad (objs s f')" "model (objs s f') = Some m'"
        using a ne by (simp_all add: s'_simps)
      have c': "c < length (modelRenderers s)"
        using o a' shape(3) by (simp add: obj_ok_def c_def)
      have mem: "f' \<in> set (GetFeatureBin s c (mdl_type m'))"
        using o a' by (simp add: obj_ok_def c_def)
      have d: "distinct (GetFeatureBin s c (mdl_type m'))"
        using bins[OF c', of "mdl_type m'"] by (simp add: bin_ok_def)
      have m2: "f' \<in> set (VectorErase (GetFeatureBin s c (mdl_type m')) f)"
        unfolding set_VectorErase[OF d] using mem ne by simp
      have "f' \<in> set (GetFeatureBin s' c (mdl_type m'))"
      proof (cases "c = nat old \<and> mdl_type m' = mdl_type m")
        case True
        show ?thesis using m2 bin'[OF c', of "mdl_type m'", unfolded if_P[OF True]] by simp
      next
        case False
        show ?thesis using mem bin'[OF c', of "mdl_type m'", unfolded if_not_P[OF False]] by simp
      qed
      then show "f' \<in> set (GetFeatureBin s' (nat (drawQuad (objs s' f'))) (mdl_type m'))"
        using ne by (simp add: s'_simps c_def)
    qed
    moreover have "\<forall>f' \<in> set (unsortedFeatures s'). drawType (objs s' f') = DRAWTYPE_MODEL"
      using uns(3) U(3) by (auto simp: s'_simps)
    ultimately have "grid_inv g (A - {f}) {} s'"
      using shape U(1,2) mr(2) by (simp add: grid_inv_def s'_simps)
    then show ?thesis using mr(1) by (simp add: s'_def)
  qed
qed


lemma run_events_inv:
  "events_ok A es \<Longrightarrow> grid_inv g A {} s \<Longrightarrow>
   \<exists>s'. run_events g es s = Some s' \<and> grid_inv g (alive_after A es) {} s'"
proof (induction es arbitrary: A s)
  case Nil
  then show ?case by simp
next
  case (Cons e es)
  show ?case
  proof (cases e)
    case (Created f obj)
    then have ok: "f \<notin> A" "drawQuad obj < 0" "events_ok (insert f A) es"
      using Cons.prems(1) by simp_all
    obtain s1 where s1: "RenderFeatureCreated g f (s\<lparr>objs := (objs s)(f := obj)\<rparr>) = Some s1"
      "grid_inv g (insert f A) {} s1"
      using RenderFeatureCreated_inv[OF Cons.prems(2) ok(1,2)] by blast
    show ?thesis using Cons.IH[OF ok(3) s1(2)] s1(1) Created by simp
  next
    case (Moved f p)
    then have ok: "f \<in> A" "events_ok A es" using Cons.prems(1) by simp_all
    obtain s1 where s1: "apply_event g (Moved f p) s = Some s1" "grid_inv g A {} s1"
      using Moved_inv[OF Cons.prems(2) ok(1)] by blast
    show ?thesis using Cons.IH[OF ok(2) s1(2)] s1(1) Moved by simp
  next
    case (Destroyed f)
    then have ok: "f \<in> A" "events_ok (A - {f}) es" using Cons.prems(1) by simp_all
    obtain s1 where s1: "RenderFeatureDestroyed f s = Some s1" "grid_inv g (A - {f}) {} s1"
      using RenderFeatureDestroyed_inv[OF Cons.prems(2) ok(1)] by blast
    show ?thesis using Cons.IH[OF ok(2) s1(2)] s1(1) Destroyed by simp
  qed
qed

lemma CFeatureDrawer_inv:
  assumes "0 < mapx div DRAW_QUAD_SIZE" "0 < mapy div DRAW_QUAD_SIZE"
  shows "grid_inv g {} {} (CFeatureDrawer heap mapx mapy cfgDraw cfgFade)"
  using assms
  by (simp add: grid_inv_def bin_ok_def CFeatureDrawer_def GetFeatureBin_def)

text \<open>
  \<^bold>\<open>C3\<close>. After every finite sequence of creations, moves and destructions that the
  simulation can produce, run from the constructor's state on a map of at least one quad
  in each direction, no handler has failed, and: every bin of every quad holds no feature
  twice, and every feature in the bin of quad \<open>c\<close> and model type \<open>t\<close> has \<^verbatim>\<open>drawQuad = c\<close>, a
  position whose computed quad is \<open>c\<close>, and a model of type \<open>t\<close> (so it is in no other bin);
  conversely every feature in use with a model and a \<^verbatim>\<open>drawQuad\<close> that is not negative is
  in the bin of that quad.
\<close>

theorem C3_grid_invariant:
  assumes "events_ok {} evs" "0 < mapx div DRAW_QUAD_SIZE" "0 < mapy div DRAW_QUAD_SIZE"
  shows "\<exists>s. run_events g evs (CFeatureDrawer heap mapx mapy cfgDraw cfgFade) = Some s \<and>
     (\<forall>c < length (modelRenderers s). \<forall>t.
        distinct (GetFeatureBin s c t) \<and>
        (\<forall>f \<in> set (GetFeatureBin s c t).
           drawQuad (objs s f) = int c \<and>
           newDrawQuad g s (pos (objs s f)) = int c \<and>
           (\<exists>m. model (objs s f) = Some m \<and> mdl_type m = t))) \<and>
     (\<forall>f \<in> alive_after {} evs. \<forall>m.
        0 \<le> drawQuad (objs s f) \<and> model (objs s f) = Some m \<longrightarrow>
          nat (drawQuad (objs s f)) < length (modelRenderers s) \<and>
          f \<in> set (GetFeatureBin s (nat (drawQuad (objs s f))) (mdl_type m)))"
proof -
  obtain s where s: "run_events g evs (CFeatureDrawer heap mapx mapy cfgDraw cfgFade) = Some s"
    "grid_inv g (alive_after {} evs) {} s"
    using run_events_inv[OF assms(1) CFeatureDrawer_inv[OF assms(2,3)]] by blast
  have a: "distinct (GetFeatureBin s c t) \<and>
        (\<forall>f \<in> set (GetFeatureBin s c t).
           drawQuad (objs s f) = int c \<and>
           newDrawQuad g s (pos (objs s f)) = int c \<and>
           (\<exists>m. model (objs s f) = Some m \<and> mdl_type m = t))"
    if "c < length (modelRenderers s)" for c t
    using s(2) that unfolding grid_inv_def bin_ok_def by blast
  have b: "nat (drawQuad (objs s f)) < length (modelRenderers s) \<and>
          f \<in> set (GetFeatureBin s (nat (drawQuad (objs s f))) (mdl_type m))"
    if "f \<in> alive_after {} evs" "0 \<le> drawQuad (objs s f)" "model (objs s f) = Some m" for f m
  proof -
    have "obj_ok s f" using s(2) that(1) by (simp add: grid_inv_def)
    moreover have "length (modelRenderers s) = nat (drawQuadsX s * drawQuadsY s)"
      using s(2) by (simp add: grid_inv_def)
    ultimately show ?thesis using that(2,3) by (simp add: obj_ok_def)
  qed
  show ?thesis using s(1) a b by blast
qed

lemma fx_events_ok: "events_ok {} fx_events"
  by (simp add: fx_events_def fx_feature_def)

text \<open>
  The theorem for the example sequence of events on a map of 96 by 96 squares.
\<close>

theorem C3_grid_invariant_witness:
  "\<exists>s. run_events fx_globals fx_events (CFeatureDrawer (\<lambda>a. fx_feature 0 0 1) 96 96 6000 4500) = Some s \<and>
     (\<forall>c < length (modelRenderers s). \<forall>t.
        distinct (GetFeatureBin s c t) \<and>
        (\<forall>f \<in> set (GetFeatureBin s c t).
           drawQuad (objs s f) = int c \<and>
           newDrawQuad fx_globals s (pos (objs s f)) = int c \<and>
           (\<exists>m. model (objs s f) = Some m \<and> mdl_type m = t))) \<and>
     (\<forall>f \<in> alive_after {} fx_events. \<forall>m.
        0 \<le> drawQuad (objs s f) \<and> model (objs s f) = Some m \<longrightarrow>
          nat (drawQuad (objs s f)) < length (modelRenderers s) \<and>
          f \<in> set (GetFeatureBin s (nat (drawQuad (objs s f))) (mdl_type m)))"
  by (rule C3_grid_invariant[OF fx_events_ok]) (simp_all add: DRAW_QUAD_SIZE_def)



subsection \<open>The target quad\<close>

lemma Clamp_float_to_int: "Clamp (float_to_int r) 0 ma = Clamp \<lfloor>r\<rfloor> 0 ma"
proof (cases "0 \<le> r")
  case True
  then show ?thesis by (simp add: float_to_int_def)
next
  case False
  have c: "\<lceil>r\<rceil> \<le> 0" using False by (simp add: ceiling_le_iff)
  have f: "\<lfloor>r\<rfloor> \<le> 0" using False by (simp add: floor_le_iff)
  have m1: "max 0 \<lceil>r\<rceil> = 0" using c by (rule max_absorb1)
  have m2: "max 0 \<lfloor>r\<rfloor> = 0" using f by (rule max_absorb1)
  show ?thesis
    unfolding float_to_int_def Clamp_def if_not_P[OF False] m1 m2 by (rule refl)
qed

lemma newDrawQuad_floor:
  "newDrawQuad g s p =
     Clamp \<lfloor>vz p / real_of_int (SQUARE_SIZE g * DRAW_QUAD_SIZE)\<rfloor> 0 (drawQuadsY s - 1) * drawQuadsX s +
     Clamp \<lfloor>vx p / real_of_int (SQUARE_SIZE g * DRAW_QUAD_SIZE)\<rfloor> 0 (drawQuadsX s - 1)"
  by (simp add: newDrawQuad_def newDrawQuadX_def newDrawQuadY_def Clamp_float_to_int)

text \<open>
  \<^bold>\<open>C4\<close>. For a feature with a model, on a grid of at least one quad in each direction,
  the target quad of its position is \<open>cellY * drawQuadsX + cellX\<close> with
  \<open>cellX = Clamp \<lfloor>x / cellSize\<rfloor> 0 (drawQuadsX - 1)\<close> and
  \<open>cellY = Clamp \<lfloor>z / cellSize\<rfloor> 0 (drawQuadsY - 1)\<close>, where \<open>cellSize\<close> is
  \<^verbatim>\<open>SQUARE_SIZE * DRAW_QUAD_SIZE\<close> world units (the conversion to \<^verbatim>\<open>int\<close> truncates, which
  after the clamp at 0 is the floor), and it is an index of the grid.

  \<^item> Insertion (\<^verbatim>\<open>RenderFeatureCreated\<close>, whatever the feature's \<^verbatim>\<open>drawQuad\<close> was before)
    appends the feature to the bin of the target quad, stores the target in \<^verbatim>\<open>drawQuad\<close>,
    appends the feature to \<^verbatim>\<open>unsortedFeatures\<close> and leaves every other bin as it was.
  \<^item> Relocation (\<^verbatim>\<open>FeatureMoved\<close>) does nothing when the target is the current quad;
    otherwise, for a registered feature, it erases the feature from the bin of the old
    quad, appends it to the bin of the target and stores the target in \<^verbatim>\<open>drawQuad\<close>.
  \<^item> Removal (\<^verbatim>\<open>RenderFeatureDestroyed\<close>) does not compute the quad again, it reads
    \<^verbatim>\<open>drawQuad\<close>. In a state that satisfies the invariant of the grid with no move pending
    (every state the events reach, by \<open>run_events_inv\<close>) the \<^verbatim>\<open>drawQuad\<close> of a registered
    feature is the target quad of its position, and removal erases the feature from the
    bin of the target quad, which then holds it no more, stores -1 in \<^verbatim>\<open>drawQuad\<close> and
    leaves every other bin as it was.
\<close>

theorem C4_target_cell:
  assumes shape: "0 < drawQuadsX s" "0 < drawQuadsY s"
      "length (modelRenderers s) = nat (drawQuadsX s * drawQuadsY s)"
    and m: "model (objs s f) = Some m"
  shows "let cellSize = real_of_int (SQUARE_SIZE g * DRAW_QUAD_SIZE);
             cellX = Clamp \<lfloor>vx (pos (objs s f)) / cellSize\<rfloor> 0 (drawQuadsX s - 1);
             cellY = Clamp \<lfloor>vz (pos (objs s f)) / cellSize\<rfloor> 0 (drawQuadsY s - 1);
             target = cellY * drawQuadsX s + cellX;
             old = drawQuad (objs s f);
             t = mdl_type m
         in newDrawQuad g s (pos (objs s f)) = target \<and>
            0 \<le> target \<and> target < drawQuadsX s * drawQuadsY s \<and>
            (drawType (objs s f) = DRAWTYPE_MODEL \<longrightarrow>
               (\<exists>s'. RenderFeatureCreated g f s = Some s' \<and>
                  drawQuad (objs s' f) = target \<and>
                  GetFeatureBin s' (nat target) t = GetFeatureBin s (nat target) t @ [f] \<and>
                  (\<forall>c u. c < length (modelRenderers s) \<and> (c \<noteq> nat target \<or> u \<noteq> t) \<longrightarrow>
                     GetFeatureBin s' c u = GetFeatureBin s c u) \<and>
                  unsortedFeatures s' = unsortedFeatures s @ [f])) \<and>
            (target = old \<longrightarrow> FeatureMoved g f oldpos s = Some s) \<and>
            (0 \<le> old \<and> old < drawQuadsX s * drawQuadsY s \<and> target \<noteq> old \<longrightarrow>
               (\<exists>s'. FeatureMoved g f oldpos s = Some s' \<and>
                  drawQuad (objs s' f) = target \<and>
                  GetFeatureBin s' (nat old) t = VectorErase (GetFeatureBin s (nat old) t) f \<and>
                  GetFeatureBin s' (nat target) t = GetFeatureBin s (nat target) t @ [f])) \<and>
            (\<forall>A. grid_inv g A {} s \<and> f \<in> A \<and> 0 \<le> old \<longrightarrow>
               old = target \<and>
               (\<exists>s'. RenderFeatureDestroyed f s = Some s' \<and>
                  drawQuad (objs s' f) = -1 \<and>
                  GetFeatureBin s' (nat target) t = VectorErase (GetFeatureBin s (nat target) t) f \<and>
                  f \<notin> set (GetFeatureBin s' (nat target) t) \<and>
                  (\<forall>c u. c < length (modelRenderers s) \<and> (c \<noteq> nat target \<or> u \<noteq> t) \<longrightarrow>
                     GetFeatureBin s' c u = GetFeatureBin s c u)))"
proof -
  define target where "target = newDrawQuad g s (pos (objs s f))"
  define old where "old = drawQuad (objs s f)"
  have tgt: "0 \<le> target" "target < drawQuadsX s * drawQuadsY s"
    using newDrawQuad_range[OF shape(1,2), of g "pos (objs s f)"] by (simp_all add: target_def)
  have tlen: "nat target < length (modelRenderers s)" using tgt shape(3) by simp
  have noop: "FeatureMoved g f oldpos s = Some s" if "target = old"
    using that UpdateDrawQuad_noop[of s f g] by (simp add: FeatureMoved_def target_def old_def)
  have move: "\<exists>s'. FeatureMoved g f oldpos s = Some s' \<and>
                  drawQuad (objs s' f) = target \<and>
                  GetFeatureBin s' (nat old) (mdl_type m) =
                    VectorErase (GetFeatureBin s (nat old) (mdl_type m)) f \<and>
                  GetFeatureBin s' (nat target) (mdl_type m) =
                    GetFeatureBin s (nat target) (mdl_type m) @ [f]"
    if reg: "0 \<le> old" "old < drawQuadsX s * drawQuadsY s" and ne: "target \<noteq> old"
  proof -
    have olen: "nat old < length (modelRenderers s)" using reg shape(3) by simp
    have ne': "drawQuad (objs s f) \<noteq> newDrawQuad g s (pos (objs s f))"
      using ne by (simp add: target_def old_def)
    have reg': "-1 \<le> drawQuad (objs s f)" "drawQuad (objs s f) < drawQuadsX s * drawQuadsY s"
      using reg by (simp_all add: old_def)
    obtain mr where mr: "UpdateDrawQuad g f s =
           Some (set_drawQuad f target (s\<lparr>modelRenderers := mr\<rparr>))"
        "length mr = length (modelRenderers s)"
        "\<And>c t. c < length mr \<Longrightarrow>
              rendererTypes (mr ! c) t =
                (if c = nat target \<and> t = mdl_type m
                 then AddFeature f (rendererTypes (modelRenderers s ! c) t)
                 else if 0 \<le> old \<and> c = nat old \<and> t = mdl_type m
                 then DelFeature f (rendererTypes (modelRenderers s ! c) t)
                 else rendererTypes (modelRenderers s ! c) t)"
      using UpdateDrawQuad_relocate[OF shape reg' ne' m]
      unfolding target_def old_def by auto
    define s' where "s' = set_drawQuad f target (s\<lparr>modelRenderers := mr\<rparr>)"
    have nn: "nat old \<noteq> nat target" using ne reg(1) tgt(1) by simp
    have "drawQuad (objs s' f) = target" by (simp add: s'_def set_drawQuad_def)
    moreover have "GetFeatureBin s' (nat old) (mdl_type m) =
        VectorErase (GetFeatureBin s (nat old) (mdl_type m)) f"
      using mr(3)[of "nat old" "mdl_type m"] olen mr(2) nn reg(1)
      by (simp add: s'_def set_drawQuad_def GetFeatureBin_def DelFeature_def)
    moreover have "GetFeatureBin s' (nat target) (mdl_type m) =
        GetFeatureBin s (nat target) (mdl_type m) @ [f]"
      using mr(3)[of "nat target" "mdl_type m"] tlen mr(2)
      by (simp add: s'_def set_drawQuad_def GetFeatureBin_def AddFeature_def)
    moreover have "FeatureMoved g f oldpos s = Some s'"
      using mr(1) by (simp add: FeatureMoved_def s'_def)
    ultimately show ?thesis by blast
  qed
  have create: "\<exists>s'. RenderFeatureCreated g f s = Some s' \<and>
                  drawQuad (objs s' f) = target \<and>
                  GetFeatureBin s' (nat target) (mdl_type m) =
                    GetFeatureBin s (nat target) (mdl_type m) @ [f] \<and>
                  (\<forall>c u. c < length (modelRenderers s) \<and> (c \<noteq> nat target \<or> u \<noteq> mdl_type m) \<longrightarrow>
                     GetFeatureBin s' c u = GetFeatureBin s c u) \<and>
                  unsortedFeatures s' = unsortedFeatures s @ [f]"
    if dt: "drawType (objs s f) = DRAWTYPE_MODEL"
  proof -
    define s1 where "s1 = reset_drawAlpha g f (set_drawQuad f (-1) s)"
    have s1: "drawQuadsX s1 = drawQuadsX s" "drawQuadsY s1 = drawQuadsY s"
      "modelRenderers s1 = modelRenderers s" "unsortedFeatures s1 = unsortedFeatures s"
      "objs s1 f = (objs s f)\<lparr>drawQuad := -1, drawAlpha := 0\<rparr>"
      by (simp_all add: s1_def reset_drawAlpha_def set_drawQuad_def SetDrawAlphaValue_def)
    have t1: "newDrawQuad g s1 (pos (objs s1 f)) = target"
      using newDrawQuad_cong[OF s1(1,2)] by (simp add: s1(5) target_def)
    have shape1: "0 < drawQuadsX s1" "0 < drawQuadsY s1"
      "length (modelRenderers s1) = nat (drawQuadsX s1 * drawQuadsY s1)"
      using shape by (simp_all add: s1(1-3))
    have dq1: "drawQuad (objs s1 f) = -1" by (simp add: s1(5))
    have pre: "-1 \<le> drawQuad (objs s1 f)" "drawQuad (objs s1 f) < drawQuadsX s1 * drawQuadsY s1"
      "drawQuad (objs s1 f) \<noteq> newDrawQuad g s1 (pos (objs s1 f))" "model (objs s1 f) = Some m"
    proof -
      show "-1 \<le> drawQuad (objs s1 f)" by (simp add: dq1)
      show "drawQuad (objs s1 f) < drawQuadsX s1 * drawQuadsY s1"
        using tgt by (simp add: dq1 s1(1,2))
      show "drawQuad (objs s1 f) \<noteq> newDrawQuad g s1 (pos (objs s1 f))"
        using tgt(1) by (simp add: dq1 t1)
      show "model (objs s1 f) = Some m" using m by (simp add: s1(5))
    qed
    obtain mr where mr: "UpdateDrawQuad g f s1 =
           Some (set_drawQuad f target (s1\<lparr>modelRenderers := mr\<rparr>))"
        "length mr = length (modelRenderers s1)"
        "\<And>c t. c < length mr \<Longrightarrow>
              rendererTypes (mr ! c) t =
                (if c = nat target \<and> t = mdl_type m
                 then AddFeature f (rendererTypes (modelRenderers s1 ! c) t)
                 else if 0 \<le> drawQuad (objs s1 f) \<and> c = nat (drawQuad (objs s1 f)) \<and> t = mdl_type m
                 then DelFeature f (rendererTypes (modelRenderers s1 ! c) t)
                 else rendererTypes (modelRenderers s1 ! c) t)"
      using UpdateDrawQuad_relocate[OF shape1 pre] unfolding t1 by auto
    define s' where "s' = (set_drawQuad f target (s1\<lparr>modelRenderers := mr\<rparr>))
        \<lparr>unsortedFeatures := unsortedFeatures s1 @ [f]\<rparr>"
    have "RenderFeatureCreated g f s =
        (case UpdateDrawQuad g f s1 of None \<Rightarrow> None
         | Some s2 \<Rightarrow> Some (s2\<lparr>unsortedFeatures := unsortedFeatures s2 @ [f]\<rparr>))"
      using dt by (simp add: RenderFeatureCreated_def s1_def)
    then have "RenderFeatureCreated g f s = Some s'"
      unfolding mr(1) by (simp add: s'_def set_drawQuad_def)
    moreover have "drawQuad (objs s' f) = target" by (simp add: s'_def set_drawQuad_def)
    moreover have "GetFeatureBin s' (nat target) (mdl_type m) =
        GetFeatureBin s (nat target) (mdl_type m) @ [f]"
      using mr(3)[of "nat target" "mdl_type m"] tlen mr(2)
      by (simp add: s'_def set_drawQuad_def GetFeatureBin_def AddFeature_def s1(3))
    moreover have "GetFeatureBin s' c u = GetFeatureBin s c u"
      if "c < length (modelRenderers s)" "c \<noteq> nat target \<or> u \<noteq> mdl_type m" for c u
      using mr(3)[of c u] that mr(2)
      by (auto simp: s'_def set_drawQuad_def GetFeatureBin_def s1(3) dq1)
    moreover have "unsortedFeatures s' = unsortedFeatures s @ [f]"
      by (simp add: s'_def set_drawQuad_def s1(4))
    ultimately show ?thesis by blast
  qed
  have destroy: "old = target \<and>
               (\<exists>s'. RenderFeatureDestroyed f s = Some s' \<and>
                  drawQuad (objs s' f) = -1 \<and>
                  GetFeatureBin s' (nat target) (mdl_type m) =
                    VectorErase (GetFeatureBin s (nat target) (mdl_type m)) f \<and>
                  f \<notin> set (GetFeatureBin s' (nat target) (mdl_type m)) \<and>
                  (\<forall>c u. c < length (modelRenderers s) \<and> (c \<noteq> nat target \<or> u \<noteq> mdl_type m) \<longrightarrow>
                     GetFeatureBin s' c u = GetFeatureBin s c u))"
    if inv: "grid_inv g A {} s" and fA: "f \<in> A" and reg: "0 \<le> old" for A
  proof -
    have ok: "obj_ok s f" using inv fA by (simp add: grid_inv_def)
    have olt: "old < drawQuadsX s * drawQuadsY s" using ok by (simp add: obj_ok_def old_def)
    have olen: "nat old < length (modelRenderers s)" using reg olt shape(3) by simp
    have mem: "f \<in> set (GetFeatureBin s (nat old) (mdl_type m))"
      using ok reg m by (simp add: obj_ok_def old_def)
    have bin: "bin_ok g A {} s (nat old) (mdl_type m)"
      using inv olen by (simp add: grid_inv_def)
    have dist: "distinct (GetFeatureBin s (nat old) (mdl_type m))"
      using bin by (simp add: bin_ok_def)
    have "newDrawQuad g s (pos (objs s f)) = int (nat old)"
      using bin mem by (simp add: bin_ok_def)
    then have eq: "old = target" using reg by (simp add: target_def)
    obtain mr where mr: "RenderFeatureDestroyed f s =
           Some (set_drawQuad f (-1)
             (s\<lparr>unsortedFeatures :=
                   (if drawType (objs s f) = DRAWTYPE_MODEL
                    then VectorErase (unsortedFeatures s) f else unsortedFeatures s),
                 modelRenderers := mr, objectLODs := objectLODs s @ [(f, 0)]\<rparr>))"
        "length mr = length (modelRenderers s)"
        "\<And>c t. c < length mr \<Longrightarrow>
              rendererTypes (mr ! c) t =
                (if c = nat old \<and> t = mdl_type m
                 then DelFeature f (rendererTypes (modelRenderers s ! c) t)
                 else rendererTypes (modelRenderers s ! c) t)"
      using RenderFeatureDestroyed_registered[OF m reg[unfolded old_def]] olen
      unfolding old_def by blast
    define s' where "s' = set_drawQuad f (-1)
             (s\<lparr>unsortedFeatures :=
                   (if drawType (objs s f) = DRAWTYPE_MODEL
                    then VectorErase (unsortedFeatures s) f else unsortedFeatures s),
                 modelRenderers := mr, objectLODs := objectLODs s @ [(f, 0)]\<rparr>)"
    have r: "RenderFeatureDestroyed f s = Some s'" using mr(1) by (simp add: s'_def)
    have dq: "drawQuad (objs s' f) = -1" by (simp add: s'_def set_drawQuad_def)
    have b: "GetFeatureBin s' (nat old) (mdl_type m) =
        VectorErase (GetFeatureBin s (nat old) (mdl_type m)) f"
      using mr(3)[of "nat old" "mdl_type m"] olen mr(2)
      by (simp add: s'_def set_drawQuad_def GetFeatureBin_def DelFeature_def)
    have gone: "f \<notin> set (GetFeatureBin s' (nat old) (mdl_type m))"
      unfolding b set_VectorErase[OF dist] by simp
    have frame: "GetFeatureBin s' c u = GetFeatureBin s c u"
      if "c < length (modelRenderers s)" "c \<noteq> nat old \<or> u \<noteq> mdl_type m" for c u
      using mr(3)[of c u] that mr(2)
      by (auto simp: s'_def set_drawQuad_def GetFeatureBin_def)
    show ?thesis
      using eq r dq b gone frame unfolding eq[symmetric] by blast
  qed
  have "newDrawQuad g s (pos (objs s f)) =
     Clamp \<lfloor>vz (pos (objs s f)) / real_of_int (SQUARE_SIZE g * DRAW_QUAD_SIZE)\<rfloor> 0 (drawQuadsY s - 1)
       * drawQuadsX s +
     Clamp \<lfloor>vx (pos (objs s f)) / real_of_int (SQUARE_SIZE g * DRAW_QUAD_SIZE)\<rfloor> 0 (drawQuadsX s - 1)"
    by (rule newDrawQuad_floor)
  then have fl: "Clamp \<lfloor>vz (pos (objs s f)) / real_of_int (SQUARE_SIZE g * DRAW_QUAD_SIZE)\<rfloor> 0 (drawQuadsY s - 1)
       * drawQuadsX s +
     Clamp \<lfloor>vx (pos (objs s f)) / real_of_int (SQUARE_SIZE g * DRAW_QUAD_SIZE)\<rfloor> 0 (drawQuadsX s - 1) = target"
    by (simp add: target_def)
  have all: "newDrawQuad g s (pos (objs s f)) = target \<and>
            0 \<le> target \<and> target < drawQuadsX s * drawQuadsY s \<and>
            (drawType (objs s f) = DRAWTYPE_MODEL \<longrightarrow>
               (\<exists>s'. RenderFeatureCreated g f s = Some s' \<and>
                  drawQuad (objs s' f) = target \<and>
                  GetFeatureBin s' (nat target) (mdl_type m) = GetFeatureBin s (nat target) (mdl_type m) @ [f] \<and>
                  (\<forall>c u. c < length (modelRenderers s) \<and> (c \<noteq> nat target \<or> u \<noteq> mdl_type m) \<longrightarrow>
                     GetFeatureBin s' c u = GetFeatureBin s c u) \<and>
                  unsortedFeatures s' = unsortedFeatures s @ [f])) \<and>
            (target = old \<longrightarrow> FeatureMoved g f oldpos s = Some s) \<and>
            (0 \<le> old \<and> old < drawQuadsX s * drawQuadsY s \<and> target \<noteq> old \<longrightarrow>
               (\<exists>s'. FeatureMoved g f oldpos s = Some s' \<and>
                  drawQuad (objs s' f) = target \<and>
                  GetFeatureBin s' (nat old) (mdl_type m) = VectorErase (GetFeatureBin s (nat old) (mdl_type m)) f \<and>
                  GetFeatureBin s' (nat target) (mdl_type m) = GetFeatureBin s (nat target) (mdl_type m) @ [f])) \<and>
            (\<forall>A. grid_inv g A {} s \<and> f \<in> A \<and> 0 \<le> old \<longrightarrow>
               old = target \<and>
               (\<exists>s'. RenderFeatureDestroyed f s = Some s' \<and>
                  drawQuad (objs s' f) = -1 \<and>
                  GetFeatureBin s' (nat target) (mdl_type m) = VectorErase (GetFeatureBin s (nat target) (mdl_type m)) f \<and>
                  f \<notin> set (GetFeatureBin s' (nat target) (mdl_type m)) \<and>
                  (\<forall>c u. c < length (modelRenderers s) \<and> (c \<noteq> nat target \<or> u \<noteq> mdl_type m) \<longrightarrow>
                     GetFeatureBin s' c u = GetFeatureBin s c u)))"
    using tgt noop move create destroy by (simp add: target_def[symmetric]) blast
  show ?thesis
    unfolding Let_def fl old_def[symmetric] by (rule all)
qed


lemma fx_state64_simps:
  "drawQuadsX fx_state64 = 64" "drawQuadsY fx_state64 = 64"
  "length (modelRenderers fx_state64) = 4096"
  "objs fx_state64 7 =
     (fx_feature 600 1100 100)\<lparr>drawQuad := 194, drawFlag := FD_ALPHAF_FLAG, drawAlpha := 1 / 2\<rparr>"
  "GetFeatureBin fx_state64 194 1 = [7]" "GetFeatureBin fx_state64 258 1 = []"
  by (simp_all add: fx_state64_def CFeatureDrawer_def DRAW_QUAD_SIZE_def GetFeatureBin_def)

lemma fx_new64_simps:
  "drawQuadsX fx_new64 = 64" "drawQuadsY fx_new64 = 64"
  "length (modelRenderers fx_new64) = 4096"
  "objs fx_new64 7 = (fx_feature 600 800 100)\<lparr>drawQuad := -2\<rparr>"
  "GetFeatureBin fx_new64 194 1 = []" "unsortedFeatures fx_new64 = []"
  by (simp_all add: fx_new64_def CFeatureDrawer_def DRAW_QUAD_SIZE_def GetFeatureBin_def)

lemma fx_home64_simps:
  "drawQuadsX fx_home64 = 64" "drawQuadsY fx_home64 = 64"
  "length (modelRenderers fx_home64) = 4096"
  "objs fx_home64 7 = (fx_feature 600 800 100)\<lparr>drawQuad := 194\<rparr>"
  "GetFeatureBin fx_home64 194 1 = [7]" "unsortedFeatures fx_home64 = [7]"
  by (simp_all add: fx_home64_def CFeatureDrawer_def DRAW_QUAD_SIZE_def GetFeatureBin_def)

lemma fx_home64_quad: "newDrawQuad fx_globals fx_home64 \<lparr>vx = 600, vy = 0, vz = 800\<rparr> = 194"
  by (simp add: newDrawQuad_floor fx_home64_simps fx_globals_def DRAW_QUAD_SIZE_def Clamp_def)

lemma fx_home64_inv: "grid_inv fx_globals {7} {} fx_home64"
proof -
  have bins: "GetFeatureBin fx_home64 c t = (if c = 194 \<and> t = 1 then [7] else [])"
    if "c < 4096" for c t
    using that by (simp add: fx_home64_def GetFeatureBin_def nth_list_update)
  have b: "bin_ok fx_globals {7} {} fx_home64 c t" if "c < 4096" for c t
    unfolding bin_ok_def bins[OF that]
    by (simp add: fx_home64_simps fx_feature_def fx_home64_quad)
  have o: "obj_ok fx_home64 7"
    unfolding obj_ok_def by (simp add: fx_home64_simps fx_feature_def del: One_nat_def)
  have bs: "\<forall>c < length (modelRenderers fx_home64). \<forall>t. bin_ok fx_globals {7} {} fx_home64 c t"
    using b by (simp add: fx_home64_simps)
  show ?thesis
    unfolding grid_inv_def using bs o
    by (simp add: fx_home64_simps fx_feature_def)
qed

text \<open>
  The theorem on a grid of width 64. A new feature at (600, 0, 800), which is in no bin, is
  inserted into the bin of quad \<open>3 * 64 + 2 = 194\<close>. The example of the claim: a feature
  registered in quad 194 whose position is now in quad (2, 4) is erased from the bin at 194
  and appended to the bin at \<open>4 * 64 + 2 = 258\<close>, and its \<^verbatim>\<open>drawQuad\<close> becomes 258. A feature
  registered in quad 194, at rest there, is erased from the bin at 194 when it is
  destroyed.
\<close>

theorem C4_target_cell_witness:
  "(drawQuad (objs fx_new64 7) < 0 \<and> GetFeatureBin fx_new64 194 1 = [] \<and>
    (\<exists>s'. RenderFeatureCreated fx_globals 7 fx_new64 = Some s' \<and>
        drawQuad (objs s' 7) = 3 * 64 + 2 \<and> GetFeatureBin s' 194 1 = [7] \<and>
        unsortedFeatures s' = [7])) \<and>
   (drawQuad (objs fx_state64 7) = 3 * 64 + 2 \<and> GetFeatureBin fx_state64 194 1 = [7] \<and>
    newDrawQuad fx_globals fx_state64 (pos (objs fx_state64 7)) = 4 * 64 + 2 \<and>
    (\<exists>s'. FeatureMoved fx_globals 7 \<lparr>vx = 600, vy = 0, vz = 1000\<rparr> fx_state64 = Some s' \<and>
        drawQuad (objs s' 7) = 258 \<and> GetFeatureBin s' 194 1 = [] \<and> GetFeatureBin s' 258 1 = [7])) \<and>
   (grid_inv fx_globals {7} {} fx_home64 \<and> GetFeatureBin fx_home64 194 1 = [7] \<and>
    newDrawQuad fx_globals fx_home64 (pos (objs fx_home64 7)) = 3 * 64 + 2 \<and>
    (\<exists>s'. RenderFeatureDestroyed 7 fx_home64 = Some s' \<and>
        drawQuad (objs s' 7) = -1 \<and> GetFeatureBin s' 194 1 = []))"
proof -
  let ?m = "\<lparr>mdl_type = 1, textureType = 0\<rparr>"
  have m: "model (objs fx_state64 7) = Some ?m"
    by (simp add: fx_state64_simps fx_feature_def)
  have cx: "Clamp \<lfloor>vx (pos (objs fx_state64 7)) / real_of_int (SQUARE_SIZE fx_globals * DRAW_QUAD_SIZE)\<rfloor>
      0 (drawQuadsX fx_state64 - 1) = 2"
    by (simp add: fx_state64_simps fx_feature_def fx_globals_def DRAW_QUAD_SIZE_def Clamp_def)
  have cy: "Clamp \<lfloor>vz (pos (objs fx_state64 7)) / real_of_int (SQUARE_SIZE fx_globals * DRAW_QUAD_SIZE)\<rfloor>
      0 (drawQuadsY fx_state64 - 1) = 4"
    by (simp add: fx_state64_simps fx_feature_def fx_globals_def DRAW_QUAD_SIZE_def Clamp_def)
  have move: "newDrawQuad fx_globals fx_state64 (pos (objs fx_state64 7)) = 258 \<and>
      (\<exists>s'. FeatureMoved fx_globals 7 \<lparr>vx = 600, vy = 0, vz = 1000\<rparr> fx_state64 = Some s' \<and>
         drawQuad (objs s' 7) = 258 \<and>
         GetFeatureBin s' 194 1 = VectorErase (GetFeatureBin fx_state64 194 1) 7 \<and>
         GetFeatureBin s' 258 1 = GetFeatureBin fx_state64 258 1 @ [7])"
    using C4_target_cell[of fx_state64 7 ?m fx_globals
        "\<lparr>vx = 600, vy = 0, vz = 1000\<rparr>", OF _ _ _ m]
    unfolding Let_def cx cy
    by (simp add: fx_state64_simps del: One_nat_def)
  have mn: "model (objs fx_new64 7) = Some ?m"
    by (simp add: fx_new64_simps fx_feature_def)
  have nx: "Clamp \<lfloor>vx (pos (objs fx_new64 7)) / real_of_int (SQUARE_SIZE fx_globals * DRAW_QUAD_SIZE)\<rfloor>
      0 (drawQuadsX fx_new64 - 1) = 2"
    by (simp add: fx_new64_simps fx_feature_def fx_globals_def DRAW_QUAD_SIZE_def Clamp_def)
  have ny: "Clamp \<lfloor>vz (pos (objs fx_new64 7)) / real_of_int (SQUARE_SIZE fx_globals * DRAW_QUAD_SIZE)\<rfloor>
      0 (drawQuadsY fx_new64 - 1) = 3"
    by (simp add: fx_new64_simps fx_feature_def fx_globals_def DRAW_QUAD_SIZE_def Clamp_def)
  have dt: "drawType (objs fx_new64 7) = DRAWTYPE_MODEL"
    by (simp add: fx_new64_simps fx_feature_def)
  have create: "\<exists>s'. RenderFeatureCreated fx_globals 7 fx_new64 = Some s' \<and>
        drawQuad (objs s' 7) = 194 \<and>
        GetFeatureBin s' 194 1 = GetFeatureBin fx_new64 194 1 @ [7] \<and>
        unsortedFeatures s' = unsortedFeatures fx_new64 @ [7]"
    using C4_target_cell[of fx_new64 7 ?m fx_globals
        "\<lparr>vx = 600, vy = 0, vz = 800\<rparr>", OF _ _ _ mn] dt
    unfolding Let_def nx ny
    by (simp add: fx_new64_simps del: One_nat_def) blast
  have mh: "model (objs fx_home64 7) = Some ?m"
    by (simp add: fx_home64_simps fx_feature_def)
  have hx: "Clamp \<lfloor>vx (pos (objs fx_home64 7)) / real_of_int (SQUARE_SIZE fx_globals * DRAW_QUAD_SIZE)\<rfloor>
      0 (drawQuadsX fx_home64 - 1) = 2"
    by (simp add: fx_home64_simps fx_feature_def fx_globals_def DRAW_QUAD_SIZE_def Clamp_def)
  have hy: "Clamp \<lfloor>vz (pos (objs fx_home64 7)) / real_of_int (SQUARE_SIZE fx_globals * DRAW_QUAD_SIZE)\<rfloor>
      0 (drawQuadsY fx_home64 - 1) = 3"
    by (simp add: fx_home64_simps fx_feature_def fx_globals_def DRAW_QUAD_SIZE_def Clamp_def)
  have destroy: "newDrawQuad fx_globals fx_home64 (pos (objs fx_home64 7)) = 194 \<and>
      (\<exists>s'. RenderFeatureDestroyed 7 fx_home64 = Some s' \<and>
         drawQuad (objs s' 7) = -1 \<and>
         GetFeatureBin s' 194 1 = VectorErase (GetFeatureBin fx_home64 194 1) 7)"
    using C4_target_cell[of fx_home64 7 ?m fx_globals
        "\<lparr>vx = 600, vy = 0, vz = 800\<rparr>", OF _ _ _ mh] fx_home64_inv
    unfolding Let_def hx hy
    by (simp add: fx_home64_simps del: One_nat_def) blast
  show ?thesis
    using move create destroy fx_home64_inv
    by (simp add: fx_state64_simps fx_new64_simps fx_home64_simps del: One_nat_def)
qed



subsection \<open>Destruction\<close>

text \<open>
  \<^bold>\<open>C9\<close> (as amended). \<^verbatim>\<open>RenderFeatureDestroyed\<close> erases the feature from
  \<^verbatim>\<open>unsortedFeatures\<close> when its draw type is the model type; when it has a model and its
  \<^verbatim>\<open>drawQuad\<close> is not negative it erases it from the bin of that quad and sets \<^verbatim>\<open>drawQuad\<close>
  to -1, and otherwise leaves grid and features alone; it resets the feature's custom
  level of detail (\<^verbatim>\<open>SetObjectLOD(f, LUAOBJ_FEATURE, 0)\<close>). It does not call the decal
  drawer: only the destructor of the drawer does, for every feature still in
  \<^verbatim>\<open>unsortedFeatures\<close>.
\<close>

theorem C9_destroyed:
  assumes "\<forall>m. model (objs s f) = Some m \<and> 0 \<le> drawQuad (objs s f) \<longrightarrow>
             nat (drawQuad (objs s f)) < length (modelRenderers s)"
  shows "\<exists>s'. RenderFeatureDestroyed f s = Some s' \<and>
     unsortedFeatures s' =
       (if drawType (objs s f) = DRAWTYPE_MODEL then VectorErase (unsortedFeatures s) f
        else unsortedFeatures s) \<and>
     (drawType (objs s f) = DRAWTYPE_MODEL \<and> distinct (unsortedFeatures s) \<longrightarrow>
        f \<notin> set (unsortedFeatures s')) \<and>
     (\<forall>m. model (objs s f) = Some m \<and> 0 \<le> drawQuad (objs s f) \<longrightarrow>
        drawQuad (objs s' f) = -1 \<and>
        GetFeatureBin s' (nat (drawQuad (objs s f))) (mdl_type m) =
          VectorErase (GetFeatureBin s (nat (drawQuad (objs s f))) (mdl_type m)) f \<and>
        (distinct (GetFeatureBin s (nat (drawQuad (objs s f))) (mdl_type m)) \<longrightarrow>
           f \<notin> set (GetFeatureBin s' (nat (drawQuad (objs s f))) (mdl_type m)))) \<and>
     (model (objs s f) = None \<or> drawQuad (objs s f) < 0 \<longrightarrow>
        objs s' = objs s \<and> modelRenderers s' = modelRenderers s) \<and>
     objectLODs s' = objectLODs s @ [(f, 0)] \<and>
     decalsRemoved s' = decalsRemoved s \<and>
     decalsRemoved (CFeatureDrawer_destructor s) = decalsRemoved s @ unsortedFeatures s"
proof -
  define U where "U = (if drawType (objs s f) = DRAWTYPE_MODEL
                    then VectorErase (unsortedFeatures s) f else unsortedFeatures s)"
  have U: "f \<notin> set U" if "drawType (objs s f) = DRAWTYPE_MODEL" "distinct (unsortedFeatures s)"
    using that set_VectorErase[OF that(2), of f] by (simp add: U_def)
  have dtor: "decalsRemoved (CFeatureDrawer_destructor s) = decalsRemoved s @ unsortedFeatures s"
    by (simp add: CFeatureDrawer_destructor_def)
  show ?thesis
  proof (cases "model (objs s f) = None \<or> drawQuad (objs s f) < 0")
    case True
    define s' where "s' = s\<lparr>unsortedFeatures := U, objectLODs := objectLODs s @ [(f, 0)]\<rparr>"
    have eq: "RenderFeatureDestroyed f s = Some s'"
      using RenderFeatureDestroyed_unregistered[OF True] by (simp add: s'_def U_def)
    have s'_simps: "unsortedFeatures s' = U" "objs s' = objs s" "modelRenderers s' = modelRenderers s"
      "objectLODs s' = objectLODs s @ [(f, 0)]" "decalsRemoved s' = decalsRemoved s"
      by (simp_all add: s'_def)
    have none: "\<not> (model (objs s f) = Some m \<and> 0 \<le> drawQuad (objs s f))" for m
      using True by auto
    show ?thesis
      using eq U dtor none unfolding U_def[symmetric] by (auto simp: s'_simps)
  next
    case False
    then obtain m where m: "model (objs s f) = Some m" and dq: "0 \<le> drawQuad (objs s f)"
      by auto
    define old where "old = drawQuad (objs s f)"
    have olen: "nat old < length (modelRenderers s)" using assms m dq by (simp add: old_def)
    obtain mr where mr: "RenderFeatureDestroyed f s =
           Some (set_drawQuad f (-1)
             (s\<lparr>unsortedFeatures := U, modelRenderers := mr, objectLODs := objectLODs s @ [(f, 0)]\<rparr>))"
        "length mr = length (modelRenderers s)"
        "\<And>c t. c < length mr \<Longrightarrow>
              rendererTypes (mr ! c) t =
                (if c = nat old \<and> t = mdl_type m
                 then DelFeature f (rendererTypes (modelRenderers s ! c) t)
                 else rendererTypes (modelRenderers s ! c) t)"
      using RenderFeatureDestroyed_registered[OF m dq] olen unfolding old_def U_def by blast
    define s' where "s' = set_drawQuad f (-1)
             (s\<lparr>unsortedFeatures := U, modelRenderers := mr, objectLODs := objectLODs s @ [(f, 0)]\<rparr>)"
    have s'_simps: "unsortedFeatures s' = U" "drawQuad (objs s' f) = -1"
      "objectLODs s' = objectLODs s @ [(f, 0)]" "decalsRemoved s' = decalsRemoved s"
      by (simp_all add: s'_def set_drawQuad_def)
    have bin: "GetFeatureBin s' (nat old) (mdl_type m) =
        VectorErase (GetFeatureBin s (nat old) (mdl_type m)) f"
      using mr(3)[of "nat old" "mdl_type m"] olen mr(2)
      by (simp add: s'_def set_drawQuad_def GetFeatureBin_def DelFeature_def)
    have gone: "f \<notin> set (GetFeatureBin s' (nat old) (mdl_type m))"
      if "distinct (GetFeatureBin s (nat old) (mdl_type m))"
      unfolding bin set_VectorErase[OF that] by simp
    have eq: "RenderFeatureDestroyed f s = Some s'" using mr(1) by (simp add: s'_def)
    have only: "m' = m" if "model (objs s f) = Some m'" for m' using that m by simp
    show ?thesis
      using eq U dtor bin gone False only
      unfolding U_def[symmetric] old_def[symmetric] by (auto simp: s'_simps)
  qed
qed

text \<open>
  The theorem for the feature of the example state.
\<close>

theorem C9_destroyed_witness:
  "\<exists>s'. RenderFeatureDestroyed 7 fx_state64 = Some s' \<and>
     unsortedFeatures s' = [] \<and> drawQuad (objs s' 7) = -1 \<and> GetFeatureBin s' 194 1 = [] \<and>
     objectLODs s' = [(7, 0)] \<and> decalsRemoved s' = [] \<and>
     decalsRemoved (CFeatureDrawer_destructor fx_state64) = [7]"
proof -
  have u: "unsortedFeatures fx_state64 = [7]" "objectLODs fx_state64 = []"
    "decalsRemoved fx_state64 = []"
    by (simp_all add: fx_state64_def CFeatureDrawer_def)
  have f7: "model (objs fx_state64 7) = Some \<lparr>mdl_type = 1, textureType = 0\<rparr>"
    "drawQuad (objs fx_state64 7) = 194" "drawType (objs fx_state64 7) = DRAWTYPE_MODEL"
    by (simp_all add: fx_state64_simps fx_feature_def)
  have "\<exists>s'. RenderFeatureDestroyed 7 fx_state64 = Some s' \<and>
          unsortedFeatures s' = [] \<and> 7 \<notin> set (unsortedFeatures s') \<and>
          drawQuad (objs s' 7) = - 1 \<and> GetFeatureBin s' 194 1 = [] \<and>
          7 \<notin> set (GetFeatureBin s' 194 1) \<and>
          objectLODs s' = [(7, 0)] \<and> decalsRemoved s' = [] \<and>
          decalsRemoved (CFeatureDrawer_destructor fx_state64) = [7]"
    using C9_destroyed[of fx_state64 7]
    by (simp add: fx_state64_simps(3,5) u f7 del: One_nat_def)
  then show ?thesis by blast
qed

text \<open>
  The claim as written has the handler tell the decal system to detach the feature's
  ground decal. Destroying the one live feature of the example state leaves the list of
  decal removals empty.
\<close>

theorem C9_counterexample:
  "map_option (\<lambda>s. (decalsRemoved s, objectLODs s, unsortedFeatures s, drawQuad (objs s 7)))
     (RenderFeatureDestroyed 7 fx_state64) = Some ([], [(7, 0)], [], -1) \<and>
   unsortedFeatures fx_state64 = [7] \<and> decalsRemoved fx_state64 = []"
  by (simp add: RenderFeatureDestroyed_def fx_state64_def CFeatureDrawer_def fx_feature_def
      update_bin_def set_drawQuad_def DelFeature_def DRAW_QUAD_SIZE_def Let_def)



subsection \<open>Update\<close>

lemma Update_step:
  "reset_drawAlpha g f (UpdateDrawPos g f s) = s\<lparr>objs := (objs s)(f := UpdateFeature g (objs s f))\<rparr>"
  by (simp add: reset_drawAlpha_def UpdateDrawPos_def SetDrawAlphaValue_def UpdateFeature_def Let_def)

lemma UpdateFeature_idem: "UpdateFeature g (UpdateFeature g F) = UpdateFeature g F"
  by (simp add: UpdateFeature_def)

lemma Update_fold:
  fixes g :: Globals
  defines "step \<equiv> (\<lambda>f s'. s'\<lparr>objs := (objs s')(f := UpdateFeature g (objs s' f))\<rparr>)"
  shows "fold step xs s =
     s\<lparr>objs := (\<lambda>f. if f \<in> set xs then UpdateFeature g (objs s f) else objs s f)\<rparr>"
proof (induction xs arbitrary: s)
  case Nil
  show ?case by simp
next
  case (Cons x xs)
  have s1: "step x s = s\<lparr>objs := (objs s)(x := UpdateFeature g (objs s x))\<rparr>"
    by (simp add: step_def)
  have "fold step (x # xs) s = fold step xs (step x s)" by simp
  also have "\<dots> = (step x s)\<lparr>objs := (\<lambda>f. if f \<in> set xs then UpdateFeature g (objs (step x s) f)
                                         else objs (step x s) f)\<rparr>"
    by (rule Cons.IH)
  also have "\<dots> = s\<lparr>objs := (\<lambda>f. if f \<in> set (x # xs) then UpdateFeature g (objs s f) else objs s f)\<rparr>"
  proof -
    have "(\<lambda>f. if f \<in> set xs then UpdateFeature g (objs (step x s) f) else objs (step x s) f) =
          (\<lambda>f. if f \<in> set (x # xs) then UpdateFeature g (objs s f) else objs s f)"
      by (rule ext) (simp add: s1 UpdateFeature_idem)
    then show ?thesis by (simp add: s1)
  qed
  finally show ?case .
qed

lemma Update_eq:
  "Update g s =
     s\<lparr>objs := (\<lambda>f. if f \<in> set (unsortedFeatures s) then UpdateFeature g (objs s f) else objs s f)\<rparr>"
  unfolding Update_def Update_step Update_fold by (rule refl)

lemma UpdateDrawQuad_frame:
  assumes "UpdateDrawQuad g f s = Some s'"
  shows "unsortedFeatures s' = unsortedFeatures s \<and>
         (\<forall>f'. drawAlpha (objs s' f') = drawAlpha (objs s f') \<and>
               drawType (objs s' f') = drawType (objs s f'))"
proof -
  have ub: "unsortedFeatures b = unsortedFeatures a \<and> objs b = objs a"
    if "update_bin q t upd a = Some b" for q t upd a b
    using that by (auto simp: update_bin_def Let_def split: if_splits)
  have sd: "unsortedFeatures (set_drawQuad f q a) = unsortedFeatures a \<and>
      (\<forall>f'. drawAlpha (objs (set_drawQuad f q a) f') = drawAlpha (objs a f') \<and>
            drawType (objs (set_drawQuad f q a) f') = drawType (objs a f'))" for q a
    by (simp add: set_drawQuad_def)
  show ?thesis
  proof (cases "drawQuad (objs s f) < -1 \<or> drawQuad (objs s f) = newDrawQuad g s (pos (objs s f))")
    case True
    then have "s' = s" using assms UpdateDrawQuad_noop[OF True] by simp
    then show ?thesis by simp
  next
    case False
    show ?thesis
    proof (cases "model (objs s f)")
      case None
      then have "s' = set_drawQuad f (newDrawQuad g s (pos (objs s f))) s"
        using assms False by (auto simp: UpdateDrawQuad_def Let_def split: if_splits)
      then show ?thesis using sd by simp
    next
      case (Some m)
      define new where "new = newDrawQuad g s (pos (objs s f))"
      obtain s1 s2 where st:
        "(if 0 \<le> drawQuad (objs s f)
          then update_bin (drawQuad (objs s f)) (mdl_type m) (DelFeature f) s else Some s) = Some s1"
        "update_bin new (mdl_type m) (AddFeature f) s1 = Some s2"
        "s' = set_drawQuad f new s2"
        using assms False Some
        by (auto simp: UpdateDrawQuad_def Let_def new_def split: if_splits option.splits)
      have 1: "unsortedFeatures s1 = unsortedFeatures s \<and> objs s1 = objs s"
        using st(1) ub by (auto split: if_splits)
      have 2: "unsortedFeatures s2 = unsortedFeatures s1 \<and> objs s2 = objs s1"
        using st(2) ub by blast
      show ?thesis using sd[of new s2] 1 2 st(3) by simp
    qed
  qed
qed

lemma RenderFeatureDestroyed_frame:
  assumes "RenderFeatureDestroyed f s = Some s'"
  shows "set (unsortedFeatures s') \<subseteq> set (unsortedFeatures s) \<and>
         (\<forall>f'. drawAlpha (objs s' f') = drawAlpha (objs s f'))"
proof -
  define U where "U = (if drawType (objs s f) = DRAWTYPE_MODEL
                    then VectorErase (unsortedFeatures s) f else unsortedFeatures s)"
  have U: "set U \<subseteq> set (unsortedFeatures s)"
    using set_VectorErase_subset[of "unsortedFeatures s" f] by (simp add: U_def)
  show ?thesis
  proof (cases "model (objs s f) = None \<or> drawQuad (objs s f) < 0")
    case True
    then have "s' = s\<lparr>unsortedFeatures := U, objectLODs := objectLODs s @ [(f, 0)]\<rparr>"
      using assms RenderFeatureDestroyed_unregistered[OF True] by (simp add: U_def)
    then show ?thesis using U by simp
  next
    case False
    then obtain m where m: "model (objs s f) = Some m" and dq: "0 \<le> drawQuad (objs s f)"
      by auto
    have len: "nat (drawQuad (objs s f)) < length (modelRenderers s)"
    proof (rule ccontr)
      assume "\<not> ?thesis"
      then have "RenderFeatureDestroyed f s = None"
        using m dq by (simp add: RenderFeatureDestroyed_def Let_def update_bin_def)
      then show False using assms by simp
    qed
    obtain mr where "RenderFeatureDestroyed f s =
           Some (set_drawQuad f (-1)
             (s\<lparr>unsortedFeatures := U, modelRenderers := mr, objectLODs := objectLODs s @ [(f, 0)]\<rparr>))"
      using RenderFeatureDestroyed_registered[OF m dq len] unfolding U_def by blast
    then have "s' = set_drawQuad f (-1)
             (s\<lparr>unsortedFeatures := U, modelRenderers := mr, objectLODs := objectLODs s @ [(f, 0)]\<rparr>)"
      using assms by simp
    then show ?thesis using U by (simp add: set_drawQuad_def)
  qed
qed

lemma apply_event_alpha:
  assumes uns: "set (unsortedFeatures s) \<subseteq> A"
    and P: "\<forall>f \<in> set (unsortedFeatures s). drawAlpha (objs s f) = 0"
    and ok: "events_ok A (e # es)" and ev: "apply_event g e s = Some s'"
  shows "\<forall>f \<in> set (unsortedFeatures s'). drawAlpha (objs s' f) = 0"
proof (cases e)
  case (Created f obj)
  have fA: "f \<notin> A" using ok Created by simp
  define s0 where "s0 = s\<lparr>objs := (objs s)(f := obj)\<rparr>"
  have r: "RenderFeatureCreated g f s0 = Some s'" using ev Created by (simp add: s0_def)
  have nf: "f \<notin> set (unsortedFeatures s)" using uns fA by auto
  show ?thesis
  proof (cases "drawType obj = DRAWTYPE_MODEL")
    case False
    then have "s' = s0" using r by (simp add: RenderFeatureCreated_def s0_def)
    then show ?thesis using P nf by (auto simp: s0_def)
  next
    case True
    define s1 where "s1 = reset_drawAlpha g f (set_drawQuad f (-1) s0)"
    have "RenderFeatureCreated g f s0 =
        (case UpdateDrawQuad g f s1 of None \<Rightarrow> None
         | Some s2 \<Rightarrow> Some (s2\<lparr>unsortedFeatures := unsortedFeatures s2 @ [f]\<rparr>))"
      using True by (simp add: RenderFeatureCreated_def s1_def s0_def)
    then obtain s2 where s2: "UpdateDrawQuad g f s1 = Some s2"
      "s' = s2\<lparr>unsortedFeatures := unsortedFeatures s2 @ [f]\<rparr>"
      using r by (auto split: option.splits)
    have fr: "unsortedFeatures s2 = unsortedFeatures s1"
      "\<And>f'. drawAlpha (objs s2 f') = drawAlpha (objs s1 f')"
      using UpdateDrawQuad_frame[OF s2(1)] by simp_all
    have s1: "unsortedFeatures s1 = unsortedFeatures s" "drawAlpha (objs s1 f) = 0"
      "\<And>f'. f' \<noteq> f \<Longrightarrow> objs s1 f' = objs s f'"
      by (simp_all add: s1_def s0_def reset_drawAlpha_def set_drawQuad_def SetDrawAlphaValue_def)
    show ?thesis
    proof
      fix f' assume mem: "f' \<in> set (unsortedFeatures s')"
      show "drawAlpha (objs s' f') = 0"
      proof (cases "f' = f")
        case True
        then show ?thesis by (simp add: s2(2) fr(2) s1(2))
      next
        case False
        then have "f' \<in> set (unsortedFeatures s)" using mem by (simp add: s2(2) fr(1) s1(1))
        then show ?thesis using P False by (simp add: s2(2) fr(2) s1(3))
      qed
    qed
  qed
next
  case (Moved f p)
  define s0 where "s0 = s\<lparr>objs := (objs s)(f := (objs s f)\<lparr>pos := p\<rparr>)\<rparr>"
  have "UpdateDrawQuad g f s0 = Some s'"
    using ev Moved by (simp add: FeatureMoved_def s0_def)
  then have fr: "unsortedFeatures s' = unsortedFeatures s0"
    "\<And>f'. drawAlpha (objs s' f') = drawAlpha (objs s0 f')"
    using UpdateDrawQuad_frame by simp_all
  have "drawAlpha (objs s0 f') = drawAlpha (objs s f')" for f' by (simp add: s0_def)
  then show ?thesis using P fr by (simp add: s0_def)
next
  case (Destroyed f)
  have r: "RenderFeatureDestroyed f s = Some s'" using ev Destroyed by simp
  have fr: "set (unsortedFeatures s') \<subseteq> set (unsortedFeatures s)"
    "\<And>f'. drawAlpha (objs s' f') = drawAlpha (objs s f')"
    using RenderFeatureDestroyed_frame[OF r] by simp_all
  show ?thesis using P fr by auto
qed

lemma apply_event_inv:
  assumes "grid_inv g A {} s" "events_ok A (e # es)"
  shows "\<exists>s'. apply_event g e s = Some s' \<and> grid_inv g (alive_after A [e]) {} s' \<and>
           events_ok (alive_after A [e]) es"
proof (cases e)
  case (Created f obj)
  then show ?thesis
    using RenderFeatureCreated_inv[OF assms(1), of f obj] assms(2) by simp
next
  case (Moved f p)
  then show ?thesis using Moved_inv[OF assms(1), of f p] assms(2) by simp
next
  case (Destroyed f)
  then show ?thesis using RenderFeatureDestroyed_inv[OF assms(1), of f] assms(2) by simp
qed

lemma run_events_alpha:
  "grid_inv g A {} s \<Longrightarrow> \<forall>f \<in> set (unsortedFeatures s). drawAlpha (objs s f) = 0 \<Longrightarrow>
   events_ok A evs \<Longrightarrow>
   \<exists>s'. run_events g evs s = Some s' \<and> (\<forall>f \<in> set (unsortedFeatures s'). drawAlpha (objs s' f) = 0)"
proof (induction evs arbitrary: A s)
  case Nil
  then show ?case by simp
next
  case (Cons e es)
  obtain s1 where s1: "apply_event g e s = Some s1" "grid_inv g (alive_after A [e]) {} s1"
    "events_ok (alive_after A [e]) es"
    using apply_event_inv[OF Cons.prems(1,3)] by blast
  have uns: "set (unsortedFeatures s) \<subseteq> A" using Cons.prems(1) by (simp add: grid_inv_def)
  have P1: "\<forall>f \<in> set (unsortedFeatures s1). drawAlpha (objs s1 f) = 0"
    by (rule apply_event_alpha[OF uns Cons.prems(2,3) s1(1)])
  show ?case using Cons.IH[OF s1(2) P1 s1(3)] s1(1) by simp
qed

lemma grid_inv_Update: "grid_inv g A E (Update g' s) = grid_inv g A E s"
  by (simp add: Update_eq grid_inv_def bin_ok_def obj_ok_def GetFeatureBin_def UpdateFeature_def
      newDrawQuad_def newDrawQuadX_def newDrawQuadY_def)

text \<open>
  \<^bold>\<open>C10\<close>. \<^verbatim>\<open>Update\<close> changes nothing but the features in \<^verbatim>\<open>unsortedFeatures\<close>, and of
  those only \<^verbatim>\<open>drawPos\<close> and \<^verbatim>\<open>drawMidPos\<close> (position plus speed times the frame's time
  offset) and \<^verbatim>\<open>drawAlpha\<close>, which becomes 0: \<^verbatim>\<open>drawFlag\<close>, \<^verbatim>\<open>drawQuad\<close>, the bins of the
  grid and the list of live features stay as they are. From a state that satisfies the
  invariant of the grid, whatever creations, moves and destructions follow \<^verbatim>\<open>Update\<close>,
  every live feature still has \<^verbatim>\<open>drawAlpha = 0\<close>: until the next classification.
\<close>

theorem C10_update:
  "Update g s =
     s\<lparr>objs := (\<lambda>f. if f \<in> set (unsortedFeatures s)
                     then (objs s f)
                       \<lparr>drawPos := float3_plus (pos (objs s f))
                                    (float3_scale (speed (objs s f)) (timeOffset g)),
                        drawMidPos := float3_plus (midPos (objs s f))
                                    (float3_scale (speed (objs s f)) (timeOffset g)),
                        drawAlpha := 0\<rparr>
                     else objs s f)\<rparr> \<and>
   (\<forall>f \<in> set (unsortedFeatures (Update g s)). drawAlpha (objs (Update g s) f) = 0) \<and>
   (\<forall>f. drawFlag (objs (Update g s) f) = drawFlag (objs s f) \<and>
        drawQuad (objs (Update g s) f) = drawQuad (objs s f)) \<and>
   modelRenderers (Update g s) = modelRenderers s \<and>
   unsortedFeatures (Update g s) = unsortedFeatures s \<and>
   (\<forall>A evs. grid_inv g A {} s \<and> events_ok A evs \<longrightarrow>
      (\<exists>s'. run_events g evs (Update g s) = Some s' \<and>
            (\<forall>f \<in> set (unsortedFeatures s'). drawAlpha (objs s' f) = 0)))"
proof -
  have a: "\<forall>f \<in> set (unsortedFeatures (Update g s)). drawAlpha (objs (Update g s) f) = 0"
    by (simp add: Update_eq UpdateFeature_def)
  have b: "\<exists>s'. run_events g evs (Update g s) = Some s' \<and>
            (\<forall>f \<in> set (unsortedFeatures s'). drawAlpha (objs s' f) = 0)"
    if "grid_inv g A {} s" "events_ok A evs" for A evs
    using run_events_alpha[OF _ a that(2)] that(1) by (simp add: grid_inv_Update)
  have c: "Update g s =
     s\<lparr>objs := (\<lambda>f. if f \<in> set (unsortedFeatures s)
                     then (objs s f)
                       \<lparr>drawPos := float3_plus (pos (objs s f))
                                    (float3_scale (speed (objs s f)) (timeOffset g)),
                        drawMidPos := float3_plus (midPos (objs s f))
                                    (float3_scale (speed (objs s f)) (timeOffset g)),
                        drawAlpha := 0\<rparr>
                     else objs s f)\<rparr>"
    unfolding Update_eq UpdateFeature_def by (rule refl)
  have d: "\<forall>f. drawFlag (objs (Update g s) f) = drawFlag (objs s f) \<and>
        drawQuad (objs (Update g s) f) = drawQuad (objs s f)"
    by (simp add: Update_eq UpdateFeature_def)
  have e: "modelRenderers (Update g s) = modelRenderers s"
    "unsortedFeatures (Update g s) = unsortedFeatures s"
    by (simp_all add: Update_eq)
  show ?thesis using a b c d e by blast
qed


text \<open>
  The theorem for the example state, whose feature has alpha 1/2 before \<^verbatim>\<open>Update\<close>.
\<close>

theorem C10_update_witness:
  "drawAlpha (objs fx_state64 7) = 1 / 2 \<and>
   drawAlpha (objs (Update fx_globals fx_state64) 7) = 0 \<and>
   drawFlag (objs (Update fx_globals fx_state64) 7) = FD_ALPHAF_FLAG \<and>
   drawQuad (objs (Update fx_globals fx_state64) 7) = 194 \<and>
   GetFeatureBin (Update fx_globals fx_state64) 194 1 = [7]"
proof -
  have u: "unsortedFeatures fx_state64 = [7]"
    by (simp add: fx_state64_def CFeatureDrawer_def)
  have b: "GetFeatureBin (Update fx_globals fx_state64) 194 1 = GetFeatureBin fx_state64 194 1"
    using C10_update[of fx_globals fx_state64] by (simp add: GetFeatureBin_def)
  have a: "drawAlpha (objs (Update fx_globals fx_state64) 7) = 0"
    using C10_update[of fx_globals fx_state64] by (simp add: u)
  have c: "drawFlag (objs (Update fx_globals fx_state64) 7) = drawFlag (objs fx_state64 7)"
    "drawQuad (objs (Update fx_globals fx_state64) 7) = drawQuad (objs fx_state64 7)"
    using C10_update[of fx_globals fx_state64] by simp_all
  show ?thesis
    using a b c by (simp add: fx_state64_simps del: One_nat_def)
qed

subsection \<open>The draw passes\<close>

lemma fresh_bins_Cons:
  "fresh_bins g t (p # ps) =
     (if lastDrawFrame p < drawFrame g then fresh_bins g t ps
      else rendererTypes p t @ fresh_bins g t ps)"
  by (simp add: fresh_bins_def)

lemma sel_logs:
  "opaque_sel g (s\<lparr>farTexQueue := q, materialObjects := m, drawn := d\<rparr>) = opaque_sel g s"
  "opaque_mat g (s\<lparr>farTexQueue := q, materialObjects := m, drawn := d\<rparr>) = opaque_mat g s"
  "alpha_sel g (s\<lparr>farTexQueue := q, materialObjects := m, drawn := d\<rparr>) = alpha_sel g s"
  by (simp_all add: opaque_sel_def opaque_mat_def alpha_sel_def CanDrawFeature_def fun_eq_iff)

lemma DrawOpaqueFeature_logs:
  "DrawOpaqueFeature g f (s\<lparr>farTexQueue := q, materialObjects := m, drawn := d\<rparr>) =
     s\<lparr>farTexQueue := q @ filter (\<lambda>f. drawFlag (objs s f) = FD_FARTEX_FLAG) [f],
       materialObjects := m @ filter (\<lambda>f. opaque_sel g s f \<and> opaque_mat g s f) [f],
       drawn := d @ map (\<lambda>f. (f, None)) (filter (\<lambda>f. opaque_sel g s f \<and> \<not> opaque_mat g s f) [f])\<rparr>"
proof -
  define s' where "s' = s\<lparr>farTexQueue := q, materialObjects := m, drawn := d\<rparr>"
  have sel: "opaque_sel g s' = opaque_sel g s" "opaque_mat g s' = opaque_mat g s"
    by (simp_all add: s'_def sel_logs)
  have o: "objs s' = objs s" by (simp add: s'_def)
  have "DrawOpaqueFeature g f s' =
      (if drawFlag (objs s f) = FD_FARTEX_FLAG then s'\<lparr>farTexQueue := farTexQueue s' @ [f]\<rparr>
       else if opaque_sel g s f \<and> opaque_mat g s f
         then s'\<lparr>materialObjects := materialObjects s' @ [f]\<rparr>
       else if opaque_sel g s f \<and> \<not> opaque_mat g s f
         then s'\<lparr>drawn := drawn s' @ [(f, None)]\<rparr>
       else s')"
    unfolding sel[symmetric] o[symmetric]
    by (auto simp: DrawOpaqueFeature_def opaque_sel_def opaque_mat_def Let_def FD_FLAG_defs)
  also have "\<dots> = s\<lparr>farTexQueue := q @ filter (\<lambda>f. drawFlag (objs s f) = FD_FARTEX_FLAG) [f],
       materialObjects := m @ filter (\<lambda>f. opaque_sel g s f \<and> opaque_mat g s f) [f],
       drawn := d @ map (\<lambda>f. (f, None)) (filter (\<lambda>f. opaque_sel g s f \<and> \<not> opaque_mat g s f) [f])\<rparr>"
    by (simp add: s'_def opaque_sel_def)
  finally show ?thesis unfolding s'_def .
qed

lemma fold_DrawOpaqueFeature:
  "fold (DrawOpaqueFeature g) fs (s\<lparr>farTexQueue := q, materialObjects := m, drawn := d\<rparr>) =
     s\<lparr>farTexQueue := q @ filter (\<lambda>f. drawFlag (objs s f) = FD_FARTEX_FLAG) fs,
       materialObjects := m @ filter (\<lambda>f. opaque_sel g s f \<and> opaque_mat g s f) fs,
       drawn := d @ map (\<lambda>f. (f, None)) (filter (\<lambda>f. opaque_sel g s f \<and> \<not> opaque_mat g s f) fs)\<rparr>"
proof (induction fs arbitrary: q m d)
  case Nil
  show ?case by simp
next
  case (Cons f fs)
  have "fold (DrawOpaqueFeature g) (f # fs) (s\<lparr>farTexQueue := q, materialObjects := m, drawn := d\<rparr>) =
        fold (DrawOpaqueFeature g) fs
          (DrawOpaqueFeature g f (s\<lparr>farTexQueue := q, materialObjects := m, drawn := d\<rparr>))"
    by simp
  also have "\<dots> = s\<lparr>farTexQueue :=
          (q @ filter (\<lambda>f. drawFlag (objs s f) = FD_FARTEX_FLAG) [f]) @
             filter (\<lambda>f. drawFlag (objs s f) = FD_FARTEX_FLAG) fs,
       materialObjects :=
          (m @ filter (\<lambda>f. opaque_sel g s f \<and> opaque_mat g s f) [f]) @
             filter (\<lambda>f. opaque_sel g s f \<and> opaque_mat g s f) fs,
       drawn :=
          (d @ map (\<lambda>f. (f, None)) (filter (\<lambda>f. opaque_sel g s f \<and> \<not> opaque_mat g s f) [f])) @
             map (\<lambda>f. (f, None)) (filter (\<lambda>f. opaque_sel g s f \<and> \<not> opaque_mat g s f) fs)\<rparr>"
    unfolding DrawOpaqueFeature_logs by (rule Cons.IH)
  also have "\<dots> = s\<lparr>farTexQueue := q @ filter (\<lambda>f. drawFlag (objs s f) = FD_FARTEX_FLAG) (f # fs),
       materialObjects := m @ filter (\<lambda>f. opaque_sel g s f \<and> opaque_mat g s f) (f # fs),
       drawn := d @ map (\<lambda>f. (f, None)) (filter (\<lambda>f. opaque_sel g s f \<and> \<not> opaque_mat g s f) (f # fs))\<rparr>"
    by simp
  finally show ?case .
qed



lemma fold_opaque_proxies:
  "fold (\<lambda>mdlRenderProxy s'.
             if lastDrawFrame mdlRenderProxy < drawFrame g then s'
             else fold (DrawOpaqueFeature g) (rendererTypes mdlRenderProxy t) s')
     ps (s\<lparr>farTexQueue := q, materialObjects := m, drawn := d\<rparr>) =
   s\<lparr>farTexQueue := q @ filter (\<lambda>f. drawFlag (objs s f) = FD_FARTEX_FLAG) (fresh_bins g t ps),
     materialObjects := m @ filter (\<lambda>f. opaque_sel g s f \<and> opaque_mat g s f) (fresh_bins g t ps),
     drawn := d @ map (\<lambda>f. (f, None))
                (filter (\<lambda>f. opaque_sel g s f \<and> \<not> opaque_mat g s f) (fresh_bins g t ps))\<rparr>"
proof (induction ps arbitrary: q m d)
  case Nil
  show ?case by (simp add: fresh_bins_def)
next
  case (Cons p ps)
  show ?case
  proof (cases "lastDrawFrame p < drawFrame g")
    case True
    then show ?thesis by (simp add: fresh_bins_Cons Cons.IH)
  next
    case False
    then show ?thesis
      by (simp add: fresh_bins_Cons fold_DrawOpaqueFeature Cons.IH)
  qed
qed

lemma DrawOpaqueFeatures_eq:
  "DrawOpaqueFeatures g t s =
   s\<lparr>farTexQueue := farTexQueue s @
        filter (\<lambda>f. drawFlag (objs s f) = FD_FARTEX_FLAG) (candidates g t s),
     materialObjects := materialObjects s @
        filter (\<lambda>f. opaque_sel g s f \<and> opaque_mat g s f) (candidates g t s),
     drawn := drawn s @ map (\<lambda>f. (f, None))
        (filter (\<lambda>f. opaque_sel g s f \<and> \<not> opaque_mat g s f) (candidates g t s))\<rparr>"
proof -
  have s: "s = s\<lparr>farTexQueue := farTexQueue s, materialObjects := materialObjects s, drawn := drawn s\<rparr>"
    by simp
  have c: "candidates g t s = fresh_bins g t (modelRenderers s)"
    by (simp add: candidates_def fresh_bins_def)
  have "DrawOpaqueFeatures g t s =
      fold (\<lambda>mdlRenderProxy s'.
             if lastDrawFrame mdlRenderProxy < drawFrame g then s'
             else fold (DrawOpaqueFeature g) (rendererTypes mdlRenderProxy t) s')
        (modelRenderers s)
        (s\<lparr>farTexQueue := farTexQueue s, materialObjects := materialObjects s, drawn := drawn s\<rparr>)"
    by (simp add: DrawOpaqueFeatures_def)
  then show ?thesis unfolding fold_opaque_proxies c .
qed

lemma DrawAlphaFeature_logs:
  "DrawAlphaFeature g f (s\<lparr>materialObjects := m, drawn := d\<rparr>) =
     s\<lparr>materialObjects := m @ filter (\<lambda>f. alpha_sel g s f \<and> AddAlphaMaterialObject g f) [f],
       drawn := d @ map (\<lambda>f. (f, Some (drawAlpha (objs s f))))
                  (filter (\<lambda>f. alpha_sel g s f \<and> \<not> AddAlphaMaterialObject g f) [f])\<rparr>"
proof -
  define s' where "s' = s\<lparr>materialObjects := m, drawn := d\<rparr>"
  have sel: "alpha_sel g s' = alpha_sel g s"
    by (simp add: s'_def alpha_sel_def CanDrawFeature_def fun_eq_iff)
  have o: "objs s' = objs s" by (simp add: s'_def)
  have "DrawAlphaFeature g f s' =
      (if alpha_sel g s f \<and> AddAlphaMaterialObject g f
         then s'\<lparr>materialObjects := materialObjects s' @ [f]\<rparr>
       else if alpha_sel g s f \<and> \<not> AddAlphaMaterialObject g f
         then s'\<lparr>drawn := drawn s' @ [(f, Some (drawAlpha (objs s f)))]\<rparr>
       else s')"
    unfolding sel[symmetric] o[symmetric]
    by (auto simp: DrawAlphaFeature_def alpha_sel_def Let_def)
  also have "\<dots> = s\<lparr>materialObjects := m @ filter (\<lambda>f. alpha_sel g s f \<and> AddAlphaMaterialObject g f) [f],
       drawn := d @ map (\<lambda>f. (f, Some (drawAlpha (objs s f))))
                  (filter (\<lambda>f. alpha_sel g s f \<and> \<not> AddAlphaMaterialObject g f) [f])\<rparr>"
    by (simp add: s'_def)
  finally show ?thesis unfolding s'_def .
qed

lemma fold_DrawAlphaFeature:
  "fold (DrawAlphaFeature g) fs (s\<lparr>materialObjects := m, drawn := d\<rparr>) =
     s\<lparr>materialObjects := m @ filter (\<lambda>f. alpha_sel g s f \<and> AddAlphaMaterialObject g f) fs,
       drawn := d @ map (\<lambda>f. (f, Some (drawAlpha (objs s f))))
                  (filter (\<lambda>f. alpha_sel g s f \<and> \<not> AddAlphaMaterialObject g f) fs)\<rparr>"
proof (induction fs arbitrary: m d)
  case Nil
  show ?case by simp
next
  case (Cons f fs)
  have "fold (DrawAlphaFeature g) (f # fs) (s\<lparr>materialObjects := m, drawn := d\<rparr>) =
        fold (DrawAlphaFeature g) fs (DrawAlphaFeature g f (s\<lparr>materialObjects := m, drawn := d\<rparr>))"
    by simp
  also have "\<dots> = s\<lparr>materialObjects :=
          (m @ filter (\<lambda>f. alpha_sel g s f \<and> AddAlphaMaterialObject g f) [f]) @
             filter (\<lambda>f. alpha_sel g s f \<and> AddAlphaMaterialObject g f) fs,
       drawn :=
          (d @ map (\<lambda>f. (f, Some (drawAlpha (objs s f))))
                 (filter (\<lambda>f. alpha_sel g s f \<and> \<not> AddAlphaMaterialObject g f) [f])) @
             map (\<lambda>f. (f, Some (drawAlpha (objs s f))))
                 (filter (\<lambda>f. alpha_sel g s f \<and> \<not> AddAlphaMaterialObject g f) fs)\<rparr>"
    unfolding DrawAlphaFeature_logs by (rule Cons.IH)
  also have "\<dots> = s\<lparr>materialObjects := m @ filter (\<lambda>f. alpha_sel g s f \<and> AddAlphaMaterialObject g f) (f # fs),
       drawn := d @ map (\<lambda>f. (f, Some (drawAlpha (objs s f))))
                  (filter (\<lambda>f. alpha_sel g s f \<and> \<not> AddAlphaMaterialObject g f) (f # fs))\<rparr>"
    by simp
  finally show ?case .
qed

lemma fold_alpha_proxies:
  "fold (\<lambda>mdlRenderProxy s'.
             if lastDrawFrame mdlRenderProxy < drawFrame g then s'
             else fold (DrawAlphaFeature g) (rendererTypes mdlRenderProxy t) s')
     ps (s\<lparr>materialObjects := m, drawn := d\<rparr>) =
   s\<lparr>materialObjects := m @ filter (\<lambda>f. alpha_sel g s f \<and> AddAlphaMaterialObject g f) (fresh_bins g t ps),
     drawn := d @ map (\<lambda>f. (f, Some (drawAlpha (objs s f))))
                (filter (\<lambda>f. alpha_sel g s f \<and> \<not> AddAlphaMaterialObject g f) (fresh_bins g t ps))\<rparr>"
proof (induction ps arbitrary: m d)
  case Nil
  show ?case by (simp add: fresh_bins_def)
next
  case (Cons p ps)
  show ?case
  proof (cases "lastDrawFrame p < drawFrame g")
    case True
    then show ?thesis by (simp add: fresh_bins_Cons Cons.IH)
  next
    case False
    then show ?thesis
      by (simp add: fresh_bins_Cons fold_DrawAlphaFeature Cons.IH)
  qed
qed

lemma DrawAlphaFeatures_eq:
  "DrawAlphaFeatures g t s =
   s\<lparr>materialObjects := materialObjects s @
        filter (\<lambda>f. alpha_sel g s f \<and> AddAlphaMaterialObject g f) (candidates g t s),
     drawn := drawn s @ map (\<lambda>f. (f, Some (drawAlpha (objs s f))))
        (filter (\<lambda>f. alpha_sel g s f \<and> \<not> AddAlphaMaterialObject g f) (candidates g t s))\<rparr>"
proof -
  have c: "candidates g t s = fresh_bins g t (modelRenderers s)"
    by (simp add: candidates_def fresh_bins_def)
  have "DrawAlphaFeatures g t s =
      fold (\<lambda>mdlRenderProxy s'.
             if lastDrawFrame mdlRenderProxy < drawFrame g then s'
             else fold (DrawAlphaFeature g) (rendererTypes mdlRenderProxy t) s')
        (modelRenderers s)
        (s\<lparr>materialObjects := materialObjects s, drawn := drawn s\<rparr>)"
    by (simp add: DrawAlphaFeatures_def)
  then show ?thesis unfolding fold_alpha_proxies c .
qed

text \<open>
  \<^bold>\<open>C8\<close> (as amended). Each batcher submits only features whose flag it lets through.
  \<^verbatim>\<open>DrawAlphaFeatures\<close> looks at the features in the bins of the visited quads, and of
  those it submits (draws, with the feature's \<^verbatim>\<open>drawAlpha\<close>, or hands to the material
  system) exactly the ones that pass \<^verbatim>\<open>CanDrawFeature\<close> and whose flag is none of NoDraw,
  Opaque, Shadow and FarImpostor: among the five flags, only AlphaFading.
  \<^verbatim>\<open>DrawOpaqueFeatures\<close>, which serves the opaque pass and the shadow pass alike, queues
  exactly the features flagged FarImpostor with the far-texture handler and submits none
  of them; it submits exactly the features that pass \<^verbatim>\<open>CanDrawFeature\<close> and whose flag is
  none of NoDraw, AlphaFading and FarImpostor: among the five flags, Opaque and Shadow.
  Neither batcher changes anything else of the state.
\<close>

theorem C8_pass_filter:
  "let cand = candidates g t s;
       flag = (\<lambda>f. drawFlag (objs s f));
       alphaPick = filter (\<lambda>f. flag f \<noteq> FD_NODRAW_FLAG \<and> flag f \<noteq> FD_OPAQUE_FLAG \<and>
                            flag f \<noteq> FD_SHADOW_FLAG \<and> flag f \<noteq> FD_FARTEX_FLAG \<and>
                            CanDrawFeature g s (objs s f)) cand;
       opaquePick = filter (\<lambda>f. flag f \<noteq> FD_NODRAW_FLAG \<and> flag f \<noteq> FD_ALPHAF_FLAG \<and>
                             flag f \<noteq> FD_FARTEX_FLAG \<and> CanDrawFeature g s (objs s f)) cand;
       material = (\<lambda>f. (inShadowPass s \<and> AddShadowMaterialObject g f) \<or>
                        (\<not> inShadowPass s \<and> AddOpaqueMaterialObject g f))
   in DrawAlphaFeatures g t s =
        s\<lparr>materialObjects := materialObjects s @ filter (AddAlphaMaterialObject g) alphaPick,
          drawn := drawn s @ map (\<lambda>f. (f, Some (drawAlpha (objs s f))))
                     (filter (\<lambda>f. \<not> AddAlphaMaterialObject g f) alphaPick)\<rparr> \<and>
      DrawOpaqueFeatures g t s =
        s\<lparr>farTexQueue := farTexQueue s @ filter (\<lambda>f. flag f = FD_FARTEX_FLAG) cand,
          materialObjects := materialObjects s @ filter material opaquePick,
          drawn := drawn s @ map (\<lambda>f. (f, None)) (filter (\<lambda>f. \<not> material f) opaquePick)\<rparr> \<and>
      (\<forall>f \<in> set alphaPick. 0 \<le> flag f \<and> flag f \<le> 4 \<longrightarrow> flag f = FD_ALPHAF_FLAG) \<and>
      (\<forall>f \<in> set opaquePick. 0 \<le> flag f \<and> flag f \<le> 4 \<longrightarrow>
          flag f = FD_OPAQUE_FLAG \<or> flag f = FD_SHADOW_FLAG)"
proof -
  have sa: "alpha_sel g s = (\<lambda>f. drawFlag (objs s f) \<noteq> FD_NODRAW_FLAG \<and>
      drawFlag (objs s f) \<noteq> FD_OPAQUE_FLAG \<and> drawFlag (objs s f) \<noteq> FD_SHADOW_FLAG \<and>
      drawFlag (objs s f) \<noteq> FD_FARTEX_FLAG \<and> CanDrawFeature g s (objs s f))"
    by (simp add: alpha_sel_def fun_eq_iff)
  have so: "opaque_sel g s = (\<lambda>f. drawFlag (objs s f) \<noteq> FD_NODRAW_FLAG \<and>
      drawFlag (objs s f) \<noteq> FD_ALPHAF_FLAG \<and> drawFlag (objs s f) \<noteq> FD_FARTEX_FLAG \<and>
      CanDrawFeature g s (objs s f))"
    by (simp add: opaque_sel_def fun_eq_iff)
  have sm: "opaque_mat g s = (\<lambda>f. (inShadowPass s \<and> AddShadowMaterialObject g f) \<or>
                        (\<not> inShadowPass s \<and> AddOpaqueMaterialObject g f))"
    by (simp add: opaque_mat_def fun_eq_iff)
  have a: "DrawAlphaFeatures g t s =
        s\<lparr>materialObjects := materialObjects s @
             filter (AddAlphaMaterialObject g) (filter (alpha_sel g s) (candidates g t s)),
          drawn := drawn s @ map (\<lambda>f. (f, Some (drawAlpha (objs s f))))
                     (filter (\<lambda>f. \<not> AddAlphaMaterialObject g f)
                        (filter (alpha_sel g s) (candidates g t s)))\<rparr>"
    unfolding DrawAlphaFeatures_eq filter_filter by (rule refl)
  have b: "DrawOpaqueFeatures g t s =
        s\<lparr>farTexQueue := farTexQueue s @
             filter (\<lambda>f. drawFlag (objs s f) = FD_FARTEX_FLAG) (candidates g t s),
          materialObjects := materialObjects s @
             filter (opaque_mat g s) (filter (opaque_sel g s) (candidates g t s)),
          drawn := drawn s @ map (\<lambda>f. (f, None))
             (filter (\<lambda>f. \<not> opaque_mat g s f) (filter (opaque_sel g s) (candidates g t s)))\<rparr>"
    unfolding DrawOpaqueFeatures_eq filter_filter by (rule refl)
  have c: "drawFlag (objs s f) = FD_ALPHAF_FLAG"
    if "alpha_sel g s f" "0 \<le> drawFlag (objs s f)" "drawFlag (objs s f) \<le> 4" for f
    using that by (simp add: alpha_sel_def FD_FLAG_defs)
  have d: "drawFlag (objs s f) = FD_OPAQUE_FLAG \<or> drawFlag (objs s f) = FD_SHADOW_FLAG"
    if "opaque_sel g s f" "0 \<le> drawFlag (objs s f)" "drawFlag (objs s f) \<le> 4" for f
  proof -
    have "drawFlag (objs s f) \<noteq> 0" "drawFlag (objs s f) \<noteq> 2" "drawFlag (objs s f) \<noteq> 4"
      using that(1) by (simp_all add: opaque_sel_def FD_FLAG_defs)
    then have "drawFlag (objs s f) = 1 \<or> drawFlag (objs s f) = 3"
      using that(2,3) by arith
    then show ?thesis by (simp add: FD_FLAG_defs)
  qed
  show ?thesis
    unfolding Let_def sa[symmetric] so[symmetric] sm[symmetric]
    using a b c d by simp
qed

lemma fx_state9_simps:
  "drawQuadsX fx_state9 = 3" "drawQuadsY fx_state9 = 3"
  "length (modelRenderers fx_state9) = 9"
  "featureDrawDistance fx_state9 = 6000" "featureFadeDistance fx_state9 = 4500"
  "objs fx_state9 7 = (fx_feature 300 600 100)\<lparr>drawQuad := 7, alphaFade := False\<rparr>"
  "inShadowPass fx_state9 = False" "drawForward fx_state9 = True"
  "drawn fx_state9 = []" "farTexQueue fx_state9 = []" "materialObjects fx_state9 = []"
  by (simp_all add: fx_state9_def CFeatureDrawer_def DRAW_QUAD_SIZE_def)

lemma candidates_fx_state9_seen:
  "candidates fx_globals t (fx_state9_seen flag) = (if t = 1 then [7] else [])"
  by (simp add: candidates_def fx_state9_seen_def fx_state9_def fx_globals_def
      numeral_eq_Suc)

lemma CanDrawFeature_fx_state9_seen:
  "CanDrawFeature fx_globals (fx_state9_seen flag) (objs (fx_state9_seen flag) 7)"
  by (simp add: CanDrawFeature_def fx_state9_seen_def fx_state9_def fx_defs CFeatureDrawer_def Let_def)

text \<open>
  The theorem for the feature of the example in a visited quad: flagged AlphaFading it is
  drawn by the alpha batcher with its alpha and skipped by the opaque batcher; flagged
  FarImpostor it is queued by the opaque batcher and skipped by the alpha batcher.
\<close>

theorem C8_pass_filter_witness:
  "DrawAlphaFeatures fx_globals 1 (fx_state9_seen FD_ALPHAF_FLAG) =
     (fx_state9_seen FD_ALPHAF_FLAG)\<lparr>materialObjects := [], drawn := [(7, Some (1 / 2))]\<rparr> \<and>
   DrawOpaqueFeatures fx_globals 1 (fx_state9_seen FD_ALPHAF_FLAG) =
     (fx_state9_seen FD_ALPHAF_FLAG)\<lparr>farTexQueue := [], materialObjects := [], drawn := []\<rparr> \<and>
   DrawOpaqueFeatures fx_globals 1 (fx_state9_seen FD_FARTEX_FLAG) =
     (fx_state9_seen FD_FARTEX_FLAG)\<lparr>farTexQueue := [7], materialObjects := [], drawn := []\<rparr> \<and>
   DrawAlphaFeatures fx_globals 1 (fx_state9_seen FD_FARTEX_FLAG) =
     (fx_state9_seen FD_FARTEX_FLAG)\<lparr>materialObjects := [], drawn := []\<rparr>"
proof -
  have l: "farTexQueue (fx_state9_seen flag) = []" "materialObjects (fx_state9_seen flag) = []"
    "drawn (fx_state9_seen flag) = []" "inShadowPass (fx_state9_seen flag) = False"
    "drawFlag (objs (fx_state9_seen flag) 7) = flag"
    "drawAlpha (objs (fx_state9_seen flag) 7) = 1 / 2" for flag
    by (simp_all add: fx_state9_seen_def fx_state9_simps)
  have m: "AddAlphaMaterialObject fx_globals f = False" "AddOpaqueMaterialObject fx_globals f = False"
    "AddShadowMaterialObject fx_globals f = False" for f
    by (simp_all add: fx_globals_def)
  have a: "DrawAlphaFeatures fx_globals 1 (fx_state9_seen FD_ALPHAF_FLAG) =
     (fx_state9_seen FD_ALPHAF_FLAG)\<lparr>materialObjects := [], drawn := [(7, Some (1 / 2))]\<rparr> \<and>
   DrawOpaqueFeatures fx_globals 1 (fx_state9_seen FD_ALPHAF_FLAG) =
     (fx_state9_seen FD_ALPHAF_FLAG)\<lparr>farTexQueue := [], materialObjects := [], drawn := []\<rparr>"
    using C8_pass_filter[of fx_globals 1 "fx_state9_seen FD_ALPHAF_FLAG"]
      CanDrawFeature_fx_state9_seen[of FD_ALPHAF_FLAG]
    unfolding Let_def candidates_fx_state9_seen
    by (simp add: l m FD_FLAG_defs del: One_nat_def)
  have b: "DrawOpaqueFeatures fx_globals 1 (fx_state9_seen FD_FARTEX_FLAG) =
     (fx_state9_seen FD_FARTEX_FLAG)\<lparr>farTexQueue := [7], materialObjects := [], drawn := []\<rparr> \<and>
   DrawAlphaFeatures fx_globals 1 (fx_state9_seen FD_FARTEX_FLAG) =
     (fx_state9_seen FD_FARTEX_FLAG)\<lparr>materialObjects := [], drawn := []\<rparr>"
    using C8_pass_filter[of fx_globals 1 "fx_state9_seen FD_FARTEX_FLAG"]
      CanDrawFeature_fx_state9_seen[of FD_FARTEX_FLAG]
    unfolding Let_def candidates_fx_state9_seen
    by (simp add: l m FD_FLAG_defs del: One_nat_def)
  show ?thesis using a b by simp
qed

lemma fx_shadow_pass:
  "DrawShadowPass fx_globals_shadow fx_state9 =
     Some (fx_state9
       \<lparr>objs := (objs fx_state9)(7 := (objs fx_state9 7)\<lparr>drawFlag := FD_SHADOW_FLAG\<rparr>),
        modelRenderers := (modelRenderers fx_state9)
          [7 := (modelRenderers fx_state9 ! 7)\<lparr>lastDrawFrame := 1\<rparr>],
        camVisibleQuadFlags := (camVisibleQuadFlags fx_state9)(CAMTYPE_SHADOW := 1),
        drawn := [(7, None)]\<rparr>)"
  by (simp add: DrawShadowPass_def GetVisibleFeatures_def DrawQuad_def DrawQuadFeature_def
      DrawOpaqueFeatures_def DrawOpaqueFeature_def CanDrawFeature_def fx_globals_shadow_def
      fx_state9_def fx_defs CFeatureDrawer_def DRAW_QUAD_SIZE_def Let_def FD_FLAG_defs
      MODELTYPE_3DO_def MODELTYPE_S3O_def MODELTYPE_OTHER_def numeral_eq_Suc upt_rec)

text \<open>
  The claim as written has the opaque pass submit only features flagged Opaque. The
  \<^verbatim>\<open>switch\<close> of \<^verbatim>\<open>DrawOpaqueFeatures\<close> lets Shadow through as well (its comment: fartex,
  opaque, shadow are allowed here). In one draw frame the shadow pass visits quad (1, 2)
  and flags the feature Shadow; the opaque pass, whose camera visits quad (0, 0) only,
  iterates quad (1, 2) too, since it was visited in this frame, and draws the feature
  with its flag still Shadow.
\<close>

theorem C8_counterexample:
  "(case DrawShadowPass fx_globals_shadow fx_state9 of
      None \<Rightarrow> False
    | Some s1 \<Rightarrow>
        drawFlag (objs s1 7) = FD_SHADOW_FLAG \<and> \<not> inShadowPass s1 \<and>
        (case Draw fx_globals s1 of
           None \<Rightarrow> False
         | Some s2 \<Rightarrow>
             drawFlag (objs s2 7) = FD_SHADOW_FLAG \<and> drawn s2 = drawn s1 @ [(7, None)])) \<and>
   FD_SHADOW_FLAG \<noteq> FD_OPAQUE_FLAG"
  unfolding fx_shadow_pass
  by (simp add: Draw_def DrawOpaquePass_def GetVisibleFeatures_def DrawQuad_def DrawQuadFeature_def
      DrawOpaqueFeatures_def DrawOpaqueFeature_def CanDrawFeature_def
      fx_state9_def fx_defs CFeatureDrawer_def DRAW_QUAD_SIZE_def Let_def FD_FLAG_defs
      MODELTYPE_3DO_def MODELTYPE_S3O_def MODELTYPE_OTHER_def numeral_eq_Suc upt_rec)

subsection \<open>One draw frame\<close>

lemma SetDrawAlphaValue_stale:
  "SetDrawAlphaValue g (f\<lparr>drawAlpha := b, drawFlag := z\<rparr>) c B E =
   SetDrawAlphaValue g (f\<lparr>drawFlag := z\<rparr>) c B E"
  by (simp add: SetDrawAlphaValue_def Let_def)

lemma SetDrawAlphaValue_result:
  "SetDrawAlphaValue g f c B E = (f1, ok) \<Longrightarrow> \<exists>al. f1 = f\<lparr>drawAlpha := al\<rparr>"
  by (auto simp: SetDrawAlphaValue_def Let_def split: option.splits if_splits)

lemma DrawQuadFeature_stale:
  "rel_option (\<lambda>f1 f1'. f1' = f1\<lparr>drawAlpha := drawAlpha f1'\<rparr> \<and> flag_good f1 f1')
     (DrawQuadFeature g qd x y f0)
     (DrawQuadFeature g qd x y (f0\<lparr>drawFlag := a, drawAlpha := b\<rparr>))"
proof -
  obtain f1 ok where s: "SetDrawAlphaValue g (f0\<lparr>drawFlag := 0\<rparr>) (cam qd)
      (sqFadeDistBegin qd) (sqFadeDistEnd qd) = (f1, ok)"
    by (cases "SetDrawAlphaValue g (f0\<lparr>drawFlag := 0\<rparr>) (cam qd)
      (sqFadeDistBegin qd) (sqFadeDistEnd qd)") auto
  obtain al where f1: "f1 = f0\<lparr>drawFlag := 0, drawAlpha := al\<rparr>"
    using SetDrawAlphaValue_result[OF s] by auto
  show ?thesis
    unfolding DrawQuadFeature_def Let_def
    by (simp add: SetDrawAlphaValue_stale s f1 flag_good_def FD_FLAG_defs)
qed


lemma flags_rel_refl_upd:
  "flags_rel s (s\<lparr>objs := \<lambda>f. (objs s f)\<lparr>drawFlag := F f, drawAlpha := A f\<rparr>\<rparr>)"
  by (simp add: flags_rel_def)

lemma flags_rel_fields:
  assumes "flags_rel r r'"
  shows "modelRenderers r' = modelRenderers r" "unsortedFeatures r' = unsortedFeatures r"
    "drawQuadsX r' = drawQuadsX r" "drawQuadsY r' = drawQuadsY r"
    "featureDrawDistance r' = featureDrawDistance r" "featureFadeDistance r' = featureFadeDistance r"
    "camVisibleQuadFlags r' = camVisibleQuadFlags r" "drawForward r' = drawForward r"
    "inAlphaPass r' = inAlphaPass r" "inShadowPass r' = inShadowPass r"
    "decalsRemoved r' = decalsRemoved r" "objectLODs r' = objectLODs r"
    "farTexQueue r' = farTexQueue r" "materialObjects r' = materialObjects r" "drawn r' = drawn r"
proof -
  have e: "r' = r\<lparr>objs := objs r'\<rparr>" using assms by (simp add: flags_rel_def)
  show "modelRenderers r' = modelRenderers r" by (subst e) simp
  show "unsortedFeatures r' = unsortedFeatures r" by (subst e) simp
  show "drawQuadsX r' = drawQuadsX r" by (subst e) simp
  show "drawQuadsY r' = drawQuadsY r" by (subst e) simp
  show "featureDrawDistance r' = featureDrawDistance r" by (subst e) simp
  show "featureFadeDistance r' = featureFadeDistance r" by (subst e) simp
  show "camVisibleQuadFlags r' = camVisibleQuadFlags r" by (subst e) simp
  show "drawForward r' = drawForward r" by (subst e) simp
  show "inAlphaPass r' = inAlphaPass r" by (subst e) simp
  show "inShadowPass r' = inShadowPass r" by (subst e) simp
  show "decalsRemoved r' = decalsRemoved r" by (subst e) simp
  show "objectLODs r' = objectLODs r" by (subst e) simp
  show "farTexQueue r' = farTexQueue r" by (subst e) simp
  show "materialObjects r' = materialObjects r" by (subst e) simp
  show "drawn r' = drawn r" by (subst e) simp
qed

lemma flags_rel_obj:
  assumes "flags_rel r r'"
  shows "objs r' f = (objs r f)\<lparr>drawFlag := drawFlag (objs r' f), drawAlpha := drawAlpha (objs r' f)\<rparr>"
  using assms by (simp add: flags_rel_def)

lemma flags_rel_upd:
  assumes "flags_rel r r'" "upd (r\<lparr>objs := objs r'\<rparr>) = (upd r)\<lparr>objs := objs r'\<rparr>"
    "objs (upd r) = objs r"
  shows "flags_rel (upd r) (upd r')"
proof -
  have e: "r' = r\<lparr>objs := objs r'\<rparr>" using assms(1) by (simp add: flags_rel_def)
  have "upd r' = (upd r)\<lparr>objs := objs r'\<rparr>" using assms(2) e by simp
  then show ?thesis using assms(1,3) by (simp add: flags_rel_def)
qed

lemma DrawQuadFeatures_rel:
  assumes "flags_rel r r'"
  shows "rel_option (\<lambda>q q'. flags_rel q q' \<and> q = r\<lparr>objs := objs q\<rparr> \<and>
            (\<forall>f. f \<in> set fs \<or> flag_good (objs r f) (objs r' f)
                   \<longrightarrow> flag_good (objs q f) (objs q' f)))
     (DrawQuadFeatures g qd x y fs r) (DrawQuadFeatures g qd x y fs r')"
  using assms
proof (induction fs arbitrary: r r')
  case Nil
  then show ?case by simp
next
  case (Cons f fs)
  have e: "r' = r\<lparr>objs := objs r'\<rparr>" using Cons.prems by (simp add: flags_rel_def)
  have o: "objs r' f = (objs r f)\<lparr>drawFlag := drawFlag (objs r' f), drawAlpha := drawAlpha (objs r' f)\<rparr>"
    by (rule flags_rel_obj[OF Cons.prems])
  have st: "rel_option (\<lambda>f1 f1'. f1' = f1\<lparr>drawAlpha := drawAlpha f1'\<rparr> \<and> flag_good f1 f1')
     (DrawQuadFeature g qd x y (objs r f)) (DrawQuadFeature g qd x y (objs r' f))"
    using DrawQuadFeature_stale[where g = g and qd = qd and x = x and y = y and ?f0.0 = "objs r f"
        and a = "drawFlag (objs r' f)" and b = "drawAlpha (objs r' f)"]
    unfolding o[symmetric] .
  show ?case
  proof (cases "DrawQuadFeature g qd x y (objs r f)")
    case None
    then have "DrawQuadFeature g qd x y (objs r' f) = None" using st by simp
    then show ?thesis using None by simp
  next
    case (Some f1)
    then obtain f1' where f1': "DrawQuadFeature g qd x y (objs r' f) = Some f1'"
      "f1' = f1\<lparr>drawAlpha := drawAlpha f1'\<rparr>" "flag_good f1 f1'"
      using st by (auto simp: option_rel_Some1)
    define r1 where "r1 = r\<lparr>objs := (objs r)(f := f1)\<rparr>"
    define r1' where "r1' = r'\<lparr>objs := (objs r')(f := f1')\<rparr>"
    have fl: "drawFlag f1' = drawFlag f1" using f1'(3) by (simp add: flag_good_def)
    have f1eq: "f1' = f1\<lparr>drawFlag := drawFlag f1', drawAlpha := drawAlpha f1'\<rparr>"
      by (subst f1'(2)) (simp add: fl)
    have r1e: "r1' = r1\<lparr>objs := objs r1'\<rparr>"
      unfolding r1_def r1'_def by (subst e) simp
    have rel1: "flags_rel r1 r1'"
      unfolding flags_rel_def
    proof (intro conjI allI)
      show "r1' = r1\<lparr>objs := objs r1'\<rparr>" by (rule r1e)
      fix f2
      show "objs r1' f2 = (objs r1 f2)\<lparr>drawFlag := drawFlag (objs r1' f2),
                                        drawAlpha := drawAlpha (objs r1' f2)\<rparr>"
      proof (cases "f2 = f")
        case True
        then show ?thesis using f1eq by (simp add: r1_def r1'_def)
      next
        case False
        then show ?thesis using flags_rel_obj[OF Cons.prems, of f2] by (simp add: r1_def r1'_def)
      qed
    qed
    have step: "DrawQuadFeatures g qd x y (f # fs) r = DrawQuadFeatures g qd x y fs r1"
      "DrawQuadFeatures g qd x y (f # fs) r' = DrawQuadFeatures g qd x y fs r1'"
      using Some f1'(1) by (simp_all add: r1_def r1'_def)
    have good1: "flag_good (objs r1 f2) (objs r1' f2)"
      if "f2 = f \<or> flag_good (objs r f2) (objs r' f2)" for f2
      using that f1'(3) by (cases "f2 = f") (simp_all add: r1_def r1'_def)
    have r1r: "q = r\<lparr>objs := objs q\<rparr>" if "q = r1\<lparr>objs := objs q\<rparr>" for q
      by (subst that) (simp add: r1_def)
    have "rel_option (\<lambda>q q'. flags_rel q q' \<and> q = r1\<lparr>objs := objs q\<rparr> \<and>
            (\<forall>f2. f2 \<in> set fs \<or> flag_good (objs r1 f2) (objs r1' f2)
                   \<longrightarrow> flag_good (objs q f2) (objs q' f2)))
       (DrawQuadFeatures g qd x y fs r1) (DrawQuadFeatures g qd x y fs r1')"
      by (rule Cons.IH[OF rel1])
    then have "rel_option (\<lambda>q q'. flags_rel q q' \<and> q = r\<lparr>objs := objs q\<rparr> \<and>
            (\<forall>f2. f2 \<in> set (f # fs) \<or> flag_good (objs r f2) (objs r' f2)
                   \<longrightarrow> flag_good (objs q f2) (objs q' f2)))
       (DrawQuadFeatures g qd x y fs r1) (DrawQuadFeatures g qd x y fs r1')"
    proof (rule option.rel_mono_strong)
      fix q q'
      assume a: "flags_rel q q' \<and> q = r1\<lparr>objs := objs q\<rparr> \<and>
            (\<forall>f2. f2 \<in> set fs \<or> flag_good (objs r1 f2) (objs r1' f2)
                   \<longrightarrow> flag_good (objs q f2) (objs q' f2))"
      have g: "flag_good (objs q f2) (objs q' f2)"
        if "f2 \<in> set (f # fs) \<or> flag_good (objs r f2) (objs r' f2)" for f2
      proof (cases "f2 \<in> set fs")
        case True
        then show ?thesis using a by blast
      next
        case False
        then have "f2 = f \<or> flag_good (objs r f2) (objs r' f2)" using that by auto
        then show ?thesis using good1 a by blast
      qed
      show "flags_rel q q' \<and> q = r\<lparr>objs := objs q\<rparr> \<and>
            (\<forall>f2. f2 \<in> set (f # fs) \<or> flag_good (objs r f2) (objs r' f2)
                   \<longrightarrow> flag_good (objs q f2) (objs q' f2))"
        using a r1r g by blast
    qed
    then show ?thesis unfolding step .
  qed
qed


lemma frame_inv_rel: "frame_inv n r r' \<Longrightarrow> flags_rel r r'"
  by (simp add: frame_inv_def)

lemma DrawQuad_rel:
  assumes inv: "frame_inv (drawFrame g) r r'"
  shows "rel_option (frame_inv (drawFrame g)) (DrawQuad g qd x y r) (DrawQuad g qd x y r')"
proof -
  note rel = frame_inv_rel[OF inv]
  note fld = flags_rel_fields[OF rel]
  define q where "q = y * qd_drawQuadsX qd + x"
  show ?thesis
  proof (cases "0 \<le> q \<and> nat q < length (modelRenderers r)")
    case False
    then show ?thesis by (simp add: DrawQuad_def Let_def q_def[symmetric] fld)
  next
    case True
    define p where "p = modelRenderers r ! nat q"
    define mr where "mr = (modelRenderers r)[nat q := p\<lparr>lastDrawFrame := drawFrame g\<rparr>]"
    define r1 where "r1 = r\<lparr>modelRenderers := mr\<rparr>"
    define r1' where "r1' = r'\<lparr>modelRenderers := mr\<rparr>"
    define fs where "fs = concat (map (rendererTypes p) [0..<MODELTYPE_OTHER])"
    have e: "r' = r\<lparr>objs := objs r'\<rparr>" using rel by (simp add: flags_rel_def)
    have rel1: "flags_rel r1 r1'"
      using flags_rel_upd[OF rel, where upd = "\<lambda>s. s\<lparr>modelRenderers := mr\<rparr>"]
      by (simp add: r1_def r1'_def)
    have d: "DrawQuad g qd x y r = DrawQuadFeatures g qd x y fs r1"
      "DrawQuad g qd x y r' = DrawQuadFeatures g qd x y fs r1'"
      using True
      by (simp_all add: DrawQuad_def Let_def q_def[symmetric] fld r1_def r1'_def mr_def p_def fs_def)
    have "rel_option (\<lambda>s s'. flags_rel s s' \<and> s = r1\<lparr>objs := objs s\<rparr> \<and>
            (\<forall>f. f \<in> set fs \<or> flag_good (objs r1 f) (objs r1' f)
                   \<longrightarrow> flag_good (objs s f) (objs s' f)))
       (DrawQuadFeatures g qd x y fs r1) (DrawQuadFeatures g qd x y fs r1')"
      by (rule DrawQuadFeatures_rel[OF rel1])
    then have "rel_option (frame_inv (drawFrame g))
       (DrawQuadFeatures g qd x y fs r1) (DrawQuadFeatures g qd x y fs r1')"
    proof (rule option.rel_mono_strong)
      fix s s'
      assume a: "flags_rel s s' \<and> s = r1\<lparr>objs := objs s\<rparr> \<and>
            (\<forall>f. f \<in> set fs \<or> flag_good (objs r1 f) (objs r1' f)
                   \<longrightarrow> flag_good (objs s f) (objs s' f))"
      have ms: "modelRenderers s = mr"
      proof -
        have "s = r1\<lparr>objs := objs s\<rparr>" using a by blast
        then have "modelRenderers s = modelRenderers (r1\<lparr>objs := objs s\<rparr>)" by simp
        then show ?thesis by (simp add: r1_def)
      qed
      have len: "length mr = length (modelRenderers r)" by (simp add: mr_def)
      have cell: "lastDrawFrame (mr ! c) \<le> drawFrame g \<and>
        (lastDrawFrame (mr ! c) = drawFrame g \<longrightarrow>
           (\<forall>t < MODELTYPE_OTHER. \<forall>f \<in> set (rendererTypes (mr ! c) t).
              flag_good (objs s f) (objs s' f)))"
        if c: "c < length mr" for c
      proof (cases "c = nat q")
        case True
        have mc: "mr ! c = p\<lparr>lastDrawFrame := drawFrame g\<rparr>"
          using True c len by (simp add: mr_def)
        have "flag_good (objs s f) (objs s' f)"
          if "t < MODELTYPE_OTHER" "f \<in> set (rendererTypes p t)" for t f
        proof -
          have "f \<in> set fs" using that by (auto simp: fs_def)
          then show ?thesis using a by blast
        qed
        then show ?thesis by (simp add: mc)
      next
        case False
        have mc: "mr ! c = modelRenderers r ! c" using False by (simp add: mr_def)
        have old: "lastDrawFrame (modelRenderers r ! c) \<le> drawFrame g \<and>
          (lastDrawFrame (modelRenderers r ! c) = drawFrame g \<longrightarrow>
             (\<forall>t < MODELTYPE_OTHER. \<forall>f \<in> set (rendererTypes (modelRenderers r ! c) t).
                flag_good (objs r f) (objs r' f)))"
          using inv c len unfolding frame_inv_def by simp
        have keep: "flag_good (objs s f) (objs s' f)" if "flag_good (objs r f) (objs r' f)" for f
        proof -
          have "flag_good (objs r1 f) (objs r1' f)" using that by (simp add: r1_def r1'_def)
          then show ?thesis using a by blast
        qed
        show ?thesis unfolding mc using old keep by blast
      qed
      show "frame_inv (drawFrame g) s s'"
        unfolding frame_inv_def ms using a cell by blast
    qed
    then show ?thesis unfolding d .
  qed
qed

lemma DrawQuads_rel:
  assumes "frame_inv (drawFrame g) r r'"
  shows "rel_option (frame_inv (drawFrame g)) (DrawQuads g qd qs r) (DrawQuads g qd qs r')"
  using assms
proof (induction qs arbitrary: r r')
  case Nil
  then show ?case by simp
next
  case (Cons xy qs)
  obtain x y where xy: "xy = (x, y)" by (cases xy)
  have st: "rel_option (frame_inv (drawFrame g)) (DrawQuad g qd x y r) (DrawQuad g qd x y r')"
    by (rule DrawQuad_rel[OF Cons.prems])
  show ?case
  proof (cases "DrawQuad g qd x y r")
    case None
    then have "DrawQuad g qd x y r' = None" using st by simp
    then show ?thesis using None by (simp add: xy)
  next
    case (Some r1)
    then obtain r1' where r1': "DrawQuad g qd x y r' = Some r1'" "frame_inv (drawFrame g) r1 r1'"
      using st by (auto simp: option_rel_Some1)
    show ?thesis using Cons.IH[OF r1'(2)] Some r1'(1) by (simp add: xy)
  qed
qed

lemma frame_inv_field:
  assumes "frame_inv n r r'" "objs (upd r) = objs r" "modelRenderers (upd r) = modelRenderers r"
    "upd (r\<lparr>objs := objs r'\<rparr>) = (upd r)\<lparr>objs := objs r'\<rparr>"
  shows "frame_inv n (upd r) (upd r')"
proof -
  note rel = frame_inv_rel[OF assms(1)]
  have e: "r' = r\<lparr>objs := objs r'\<rparr>" using rel by (simp add: flags_rel_def)
  have u: "upd r' = (upd r)\<lparr>objs := objs r'\<rparr>" using assms(4) e by simp
  have o: "objs (upd r') = objs r'" by (simp add: u)
  have "flags_rel (upd r) (upd r')" by (rule flags_rel_upd[OF rel assms(4,2)])
  then show ?thesis
    using assms(1) unfolding frame_inv_def assms(2,3) o by simp
qed

lemma GetVisibleFeatures_rel:
  assumes inv: "frame_inv (drawFrame g) r r'"
  shows "rel_option (frame_inv (drawFrame g)) (GetVisibleFeatures g c extraSize drawFar r)
           (GetVisibleFeatures g c extraSize drawFar r')"
proof (cases "GetCamType c = CAMTYPE_ENVMAP")
  case True
  then show ?thesis by (simp add: GetVisibleFeatures_def)
next
  case False
  note fld = flags_rel_fields[OF frame_inv_rel[OF inv]]
  define upd where "upd = (\<lambda>s::State. s\<lparr>camVisibleQuadFlags :=
      (camVisibleQuadFlags s)(GetCamType c := drawFrame g)\<rparr>)"
  have inv1: "frame_inv (drawFrame g) (upd r) (upd r')"
    using frame_inv_field[OF inv, where upd = upd] by (simp add: upd_def)
  have "rel_option (frame_inv (drawFrame g))
      (DrawQuads g \<lparr>qd_drawQuadsX = drawQuadsX r,
                      drawReflection = DrawReflectionPass g,
                      drawRefraction = DrawRefractionPass g,
                      drawShadowPass = (GetCamType c = CAMTYPE_SHADOW),
                      drawFarFeatures = drawFar,
                      sqFadeDistBegin = featureFadeDistance r * featureFadeDistance r,
                      sqFadeDistEnd = featureDrawDistance r * featureDrawDistance r,
                      cam = Some c\<rparr>
         (GridVisibility g c (featureDrawDistance r) DRAW_QUAD_SIZE extraSize) (upd r))
      (DrawQuads g \<lparr>qd_drawQuadsX = drawQuadsX r,
                      drawReflection = DrawReflectionPass g,
                      drawRefraction = DrawRefractionPass g,
                      drawShadowPass = (GetCamType c = CAMTYPE_SHADOW),
                      drawFarFeatures = drawFar,
                      sqFadeDistBegin = featureFadeDistance r * featureFadeDistance r,
                      sqFadeDistEnd = featureDrawDistance r * featureDrawDistance r,
                      cam = Some c\<rparr>
         (GridVisibility g c (featureDrawDistance r) DRAW_QUAD_SIZE extraSize) (upd r'))"
    by (rule DrawQuads_rel[OF inv1])
  then show ?thesis
    using False by (simp add: GetVisibleFeatures_def Let_def fld upd_def)
qed


lemma CanDrawFeature_stale:
  "CanDrawFeature g (r\<lparr>objs := ob\<rparr>) (f\<lparr>drawFlag := a, drawAlpha := b\<rparr>) = CanDrawFeature g r f"
  by (simp add: CanDrawFeature_def)

lemma candidates_cell:
  assumes "f \<in> set (candidates g t r)"
  shows "\<exists>c < length (modelRenderers r). \<not> lastDrawFrame (modelRenderers r ! c) < drawFrame g \<and>
           f \<in> set (rendererTypes (modelRenderers r ! c) t)"
proof -
  obtain p where p: "p \<in> set (modelRenderers r)" "\<not> lastDrawFrame p < drawFrame g"
    "f \<in> set (rendererTypes p t)"
    using assms by (auto simp: candidates_def)
  then obtain c where "c < length (modelRenderers r)" "modelRenderers r ! c = p"
    by (auto simp: in_set_conv_nth)
  then show ?thesis using p by blast
qed

lemma frame_inv_candidates:
  assumes inv: "frame_inv (drawFrame g) r r'" and t: "t < MODELTYPE_OTHER" and f: "f \<in> set (candidates g t r)"
  shows "flag_good (objs r f) (objs r' f)"
proof -
  obtain c where c: "c < length (modelRenderers r)"
    "\<not> lastDrawFrame (modelRenderers r ! c) < drawFrame g"
    "f \<in> set (rendererTypes (modelRenderers r ! c) t)"
    using candidates_cell[OF f] by blast
  have "lastDrawFrame (modelRenderers r ! c) \<le> drawFrame g"
    using inv c(1) by (simp add: frame_inv_def)
  then have "lastDrawFrame (modelRenderers r ! c) = drawFrame g" using c(2) by simp
  then show ?thesis using inv c(1,3) t unfolding frame_inv_def by blast
qed

lemma frame_inv_sel:
  assumes inv: "frame_inv (drawFrame g) r r'" and t: "t < MODELTYPE_OTHER" and f: "f \<in> set (candidates g t r)"
  shows "drawFlag (objs r' f) = drawFlag (objs r f)"
    "CanDrawFeature g r' (objs r' f) = CanDrawFeature g r (objs r f)"
    "opaque_sel g r' f = opaque_sel g r f" "opaque_mat g r' f = opaque_mat g r f"
    "alpha_sel g r' f = alpha_sel g r f"
    "alpha_sel g r f \<Longrightarrow> drawAlpha (objs r' f) = drawAlpha (objs r f)"
proof -
  note rel = frame_inv_rel[OF inv]
  note good = frame_inv_candidates[OF inv t f]
  have e: "r' = r\<lparr>objs := objs r'\<rparr>" using rel by (simp add: flags_rel_def)
  show fl: "drawFlag (objs r' f) = drawFlag (objs r f)" using good by (simp add: flag_good_def)
  have "CanDrawFeature g (r\<lparr>objs := objs r'\<rparr>)
          ((objs r f)\<lparr>drawFlag := drawFlag (objs r' f), drawAlpha := drawAlpha (objs r' f)\<rparr>) =
        CanDrawFeature g r (objs r f)"
    by (rule CanDrawFeature_stale)
  then show cd: "CanDrawFeature g r' (objs r' f) = CanDrawFeature g r (objs r f)"
    unfolding flags_rel_obj[OF rel, symmetric] e[symmetric] .
  show "opaque_sel g r' f = opaque_sel g r f" by (simp add: opaque_sel_def fl cd)
  show "opaque_mat g r' f = opaque_mat g r f"
    by (simp add: opaque_mat_def flags_rel_fields[OF rel])
  show "alpha_sel g r' f = alpha_sel g r f" by (simp add: alpha_sel_def fl cd)
  show "drawAlpha (objs r' f) = drawAlpha (objs r f)" if "alpha_sel g r f"
  proof -
    have "drawFlag (objs r f) \<noteq> 0" "drawFlag (objs r f) \<noteq> 1" "drawFlag (objs r f) \<noteq> 3"
      "drawFlag (objs r f) \<noteq> 4"
      using that by (simp_all add: alpha_sel_def FD_FLAG_defs)
    moreover have "0 \<le> drawFlag (objs r f)" "drawFlag (objs r f) \<le> 4"
      using good by (simp_all add: flag_good_def)
    ultimately have "drawFlag (objs r f) = 2" by arith
    then show ?thesis using good by (simp add: flag_good_def FD_FLAG_defs)
  qed
qed

lemma DrawOpaqueFeatures_rel:
  assumes inv: "frame_inv (drawFrame g) r r'" and t: "t < MODELTYPE_OTHER"
  shows "frame_inv (drawFrame g) (DrawOpaqueFeatures g t r) (DrawOpaqueFeatures g t r')"
proof -
  note rel = frame_inv_rel[OF inv]
  note fld = flags_rel_fields[OF rel]
  note sel = frame_inv_sel[OF inv t]
  have e: "r' = r\<lparr>objs := objs r'\<rparr>" using rel by (simp add: flags_rel_def)
  have c: "candidates g t r' = candidates g t r" by (simp add: candidates_def fld)
  have f1: "filter (\<lambda>f. drawFlag (objs r' f) = FD_FARTEX_FLAG) (candidates g t r) =
            filter (\<lambda>f. drawFlag (objs r f) = FD_FARTEX_FLAG) (candidates g t r)"
    by (rule filter_cong) (simp_all add: sel(1))
  have f2: "filter (\<lambda>f. opaque_sel g r' f \<and> opaque_mat g r' f) (candidates g t r) =
            filter (\<lambda>f. opaque_sel g r f \<and> opaque_mat g r f) (candidates g t r)"
    by (rule filter_cong) (simp_all add: sel(3,4))
  have f3: "filter (\<lambda>f. opaque_sel g r' f \<and> \<not> opaque_mat g r' f) (candidates g t r) =
            filter (\<lambda>f. opaque_sel g r f \<and> \<not> opaque_mat g r f) (candidates g t r)"
    by (rule filter_cong) (simp_all add: sel(3,4))
  define q where "q = DrawOpaqueFeatures g t r"
  have q: "q = r\<lparr>farTexQueue := farTexQueue q, materialObjects := materialObjects q, drawn := drawn q\<rparr>"
    unfolding q_def by (subst DrawOpaqueFeatures_eq) (simp add: DrawOpaqueFeatures_eq)
  have "DrawOpaqueFeatures g t r' =
      r'\<lparr>farTexQueue := farTexQueue q, materialObjects := materialObjects q, drawn := drawn q\<rparr>"
    unfolding q_def by (simp add: DrawOpaqueFeatures_eq c f1 f2 f3 fld)
  also have "\<dots> = q\<lparr>objs := objs r'\<rparr>"
    by (subst e, subst (2) q) simp
  finally have q': "DrawOpaqueFeatures g t r' = q\<lparr>objs := objs r'\<rparr>" .
  have oq: "objs q = objs r" "modelRenderers q = modelRenderers r" by (subst q, simp)+
  have "flags_rel q (q\<lparr>objs := objs r'\<rparr>)"
    using rel by (simp add: flags_rel_def oq)
  then have "frame_inv (drawFrame g) q (q\<lparr>objs := objs r'\<rparr>)"
    using inv unfolding frame_inv_def oq by simp
  then show ?thesis unfolding q' q_def[symmetric] .
qed

lemma DrawAlphaFeatures_rel:
  assumes inv: "frame_inv (drawFrame g) r r'" and t: "t < MODELTYPE_OTHER"
  shows "frame_inv (drawFrame g) (DrawAlphaFeatures g t r) (DrawAlphaFeatures g t r')"
proof -
  note rel = frame_inv_rel[OF inv]
  note fld = flags_rel_fields[OF rel]
  note sel = frame_inv_sel[OF inv t]
  have e: "r' = r\<lparr>objs := objs r'\<rparr>" using rel by (simp add: flags_rel_def)
  have c: "candidates g t r' = candidates g t r" by (simp add: candidates_def fld)
  have f2: "filter (\<lambda>f. alpha_sel g r' f \<and> AddAlphaMaterialObject g f) (candidates g t r) =
            filter (\<lambda>f. alpha_sel g r f \<and> AddAlphaMaterialObject g f) (candidates g t r)"
    by (rule filter_cong) (simp_all add: sel(5))
  have f3: "filter (\<lambda>f. alpha_sel g r' f \<and> \<not> AddAlphaMaterialObject g f) (candidates g t r) =
            filter (\<lambda>f. alpha_sel g r f \<and> \<not> AddAlphaMaterialObject g f) (candidates g t r)"
    by (rule filter_cong) (simp_all add: sel(5))
  have m: "map (\<lambda>f. (f, Some (drawAlpha (objs r' f))))
             (filter (\<lambda>f. alpha_sel g r f \<and> \<not> AddAlphaMaterialObject g f) (candidates g t r)) =
           map (\<lambda>f. (f, Some (drawAlpha (objs r f))))
             (filter (\<lambda>f. alpha_sel g r f \<and> \<not> AddAlphaMaterialObject g f) (candidates g t r))"
    by (rule map_cong) (simp_all add: sel(6))
  define q where "q = DrawAlphaFeatures g t r"
  have q: "q = r\<lparr>materialObjects := materialObjects q, drawn := drawn q\<rparr>"
    unfolding q_def by (subst DrawAlphaFeatures_eq) (simp add: DrawAlphaFeatures_eq)
  have "DrawAlphaFeatures g t r' =
      r'\<lparr>materialObjects := materialObjects q, drawn := drawn q\<rparr>"
    unfolding q_def by (simp add: DrawAlphaFeatures_eq c f2 f3 m fld)
  also have "\<dots> = q\<lparr>objs := objs r'\<rparr>"
    by (subst e, subst (2) q) simp
  finally have q': "DrawAlphaFeatures g t r' = q\<lparr>objs := objs r'\<rparr>" .
  have oq: "objs q = objs r" "modelRenderers q = modelRenderers r" by (subst q, simp)+
  have "flags_rel q (q\<lparr>objs := objs r'\<rparr>)"
    using rel by (simp add: flags_rel_def oq)
  then have "frame_inv (drawFrame g) q (q\<lparr>objs := objs r'\<rparr>)"
    using inv unfolding frame_inv_def oq by simp
  then show ?thesis unfolding q' q_def[symmetric] .
qed


lemma Update_rel:
  assumes inv: "frame_inv (drawFrame g) r r'"
  shows "frame_inv (drawFrame g) (Update g r) (Update g r')"
proof -
  note rel = frame_inv_rel[OF inv]
  note fld = flags_rel_fields[OF rel]
  have e: "r' = r\<lparr>objs := objs r'\<rparr>" using rel by (simp add: flags_rel_def)
  define ob where "ob = (\<lambda>(s::State) f.
      if f \<in> set (unsortedFeatures r) then UpdateFeature g (objs s f) else objs s f)"
  have u: "Update g r = r\<lparr>objs := ob r\<rparr>" by (simp add: Update_eq ob_def)
  have "Update g r' = r'\<lparr>objs := ob r'\<rparr>" by (simp add: Update_eq ob_def fld)
  also have "\<dots> = (r\<lparr>objs := ob r\<rparr>)\<lparr>objs := ob r'\<rparr>" by (subst e) simp
  finally have u': "Update g r' = (r\<lparr>objs := ob r\<rparr>)\<lparr>objs := ob r'\<rparr>" .
  have o: "ob r' f = (ob r f)\<lparr>drawFlag := drawFlag (ob r' f), drawAlpha := drawAlpha (ob r' f)\<rparr>" for f
  proof -
    define a where "a = drawFlag (objs r' f)"
    define b where "b = drawAlpha (objs r' f)"
    have ab: "objs r' f = (objs r f)\<lparr>drawFlag := a, drawAlpha := b\<rparr>"
      unfolding a_def b_def by (rule flags_rel_obj[OF rel])
    show ?thesis
    proof (cases "f \<in> set (unsortedFeatures r)")
      case True
      have "ob r' f = UpdateFeature g ((objs r f)\<lparr>drawFlag := a, drawAlpha := b\<rparr>)"
        using True by (simp add: ob_def ab)
      also have "\<dots> = (UpdateFeature g (objs r f))\<lparr>drawFlag := a\<rparr>"
        by (simp add: UpdateFeature_def)
      finally have x: "ob r' f = (ob r f)\<lparr>drawFlag := a\<rparr>" using True by (simp add: ob_def)
      have y: "drawAlpha (ob r f) = 0" using True by (simp add: ob_def UpdateFeature_def)
      have "(ob r f)\<lparr>drawFlag := a\<rparr> = (ob r f)\<lparr>drawFlag := a, drawAlpha := drawAlpha (ob r f)\<rparr>"
        by simp
      then show ?thesis unfolding x by (simp add: y)
    next
      case False
      then have x: "ob r' f = objs r' f" "ob r f = objs r f" by (simp_all add: ob_def)
      show ?thesis unfolding x by (rule flags_rel_obj[OF rel])
    qed
  qed
  have good: "flag_good (ob r f) (ob r' f)" if "flag_good (objs r f) (objs r' f)" for f
    using that by (simp add: ob_def UpdateFeature_def flag_good_def)
  have "flags_rel (r\<lparr>objs := ob r\<rparr>) ((r\<lparr>objs := ob r\<rparr>)\<lparr>objs := ob r'\<rparr>)"
    using o by (simp add: flags_rel_def)
  then show ?thesis
    unfolding u u' using inv good unfolding frame_inv_def by simp
qed


lemma fold_rel:
  assumes "\<And>t r r'. t \<in> set ts \<Longrightarrow> frame_inv n r r' \<Longrightarrow> frame_inv n (B t r) (B t r')"
    and "frame_inv n r r'"
  shows "frame_inv n (fold B ts r) (fold B ts r')"
  using assms
proof (induction ts arbitrary: r r')
  case Nil
  then show ?case by simp
next
  case (Cons t ts)
  have "frame_inv n (B t r) (B t r')" using Cons.prems by simp
  then have "frame_inv n (fold B ts (B t r)) (fold B ts (B t r'))"
    using Cons.IH Cons.prems(1) by simp
  then show ?case by simp
qed

lemma DrawOpaquePass_rel:
  assumes "frame_inv (drawFrame g) r r'"
  shows "frame_inv (drawFrame g) (DrawOpaquePass g d r) (DrawOpaquePass g d r')"
  unfolding DrawOpaquePass_def
  by (rule fold_rel[OF _ assms]) (simp add: DrawOpaqueFeatures_rel)

lemma DrawAlphaPass_rel:
  assumes inv: "frame_inv (drawFrame g) r r'"
  shows "frame_inv (drawFrame g) (DrawAlphaPass g r) (DrawAlphaPass g r')"
proof -
  have a: "frame_inv (drawFrame g) (r\<lparr>inAlphaPass := True\<rparr>) (r'\<lparr>inAlphaPass := True\<rparr>)"
    using frame_inv_field[OF inv, where upd = "\<lambda>s. s\<lparr>inAlphaPass := True\<rparr>"] by simp
  have b: "frame_inv (drawFrame g) (fold (DrawAlphaFeatures g) [MODELTYPE_3DO..<MODELTYPE_OTHER] (r\<lparr>inAlphaPass := True\<rparr>))
      (fold (DrawAlphaFeatures g) [MODELTYPE_3DO..<MODELTYPE_OTHER] (r'\<lparr>inAlphaPass := True\<rparr>))"
    by (rule fold_rel[OF _ a]) (simp add: DrawAlphaFeatures_rel)
  show ?thesis
    unfolding DrawAlphaPass_def
    using frame_inv_field[OF b, where upd = "\<lambda>s. s\<lparr>inAlphaPass := False\<rparr>"] by simp
qed

lemma Draw_rel:
  assumes inv: "frame_inv (drawFrame g) r r'"
  shows "rel_option (frame_inv (drawFrame g)) (Draw g r) (Draw g r')"
proof -
  note st = GetVisibleFeatures_rel[OF inv, of "GetActiveCamera g" 0 True]
  show ?thesis
  proof (cases "GetVisibleFeatures g (GetActiveCamera g) 0 True r")
    case None
    then have "GetVisibleFeatures g (GetActiveCamera g) 0 True r' = None" using st by simp
    then show ?thesis using None by (simp add: Draw_def)
  next
    case (Some r1)
    then obtain r1' where r1': "GetVisibleFeatures g (GetActiveCamera g) 0 True r' = Some r1'"
      "frame_inv (drawFrame g) r1 r1'"
      using st by (auto simp: option_rel_Some1)
    have f: "drawForward r1' = drawForward r1"
      using flags_rel_fields[OF frame_inv_rel[OF r1'(2)]] by simp
    show ?thesis
      using Some r1' DrawOpaquePass_rel[OF r1'(2), of False]
      by (simp add: Draw_def f)
  qed
qed

lemma DrawShadowPass_rel:
  assumes inv: "frame_inv (drawFrame g) r r'"
  shows "rel_option (frame_inv (drawFrame g)) (DrawShadowPass g r) (DrawShadowPass g r')"
proof -
  have a: "frame_inv (drawFrame g) (r\<lparr>inShadowPass := True\<rparr>) (r'\<lparr>inShadowPass := True\<rparr>)"
    using frame_inv_field[OF inv, where upd = "\<lambda>s. s\<lparr>inShadowPass := True\<rparr>"] by simp
  note st = GetVisibleFeatures_rel[OF a, of "GetCamera g CAMTYPE_SHADOW" 0 False]
  show ?thesis
  proof (cases "GetVisibleFeatures g (GetCamera g CAMTYPE_SHADOW) 0 False (r\<lparr>inShadowPass := True\<rparr>)")
    case None
    then have "GetVisibleFeatures g (GetCamera g CAMTYPE_SHADOW) 0 False (r'\<lparr>inShadowPass := True\<rparr>) = None"
      using st by simp
    then show ?thesis using None by (simp add: DrawShadowPass_def)
  next
    case (Some r1)
    then obtain r1' where r1':
      "GetVisibleFeatures g (GetCamera g CAMTYPE_SHADOW) 0 False (r'\<lparr>inShadowPass := True\<rparr>) = Some r1'"
      "frame_inv (drawFrame g) r1 r1'"
      using st by (auto simp: option_rel_Some1)
    have b: "frame_inv (drawFrame g) (DrawOpaqueFeatures g MODELTYPE_3DO r1) (DrawOpaqueFeatures g MODELTYPE_3DO r1')"
      by (rule DrawOpaqueFeatures_rel[OF r1'(2)]) (simp add: MODELTYPE_3DO_def MODELTYPE_OTHER_def)
    have c: "frame_inv (drawFrame g)
        (fold (DrawOpaqueFeatures g) [MODELTYPE_S3O..<MODELTYPE_OTHER] (DrawOpaqueFeatures g MODELTYPE_3DO r1))
        (fold (DrawOpaqueFeatures g) [MODELTYPE_S3O..<MODELTYPE_OTHER] (DrawOpaqueFeatures g MODELTYPE_3DO r1'))"
      by (rule fold_rel[OF _ b]) (simp add: DrawOpaqueFeatures_rel)
    show ?thesis
      using Some r1'(1)
        frame_inv_field[OF c, where upd = "\<lambda>s. s\<lparr>inShadowPass := False\<rparr>"]
      by (simp add: DrawShadowPass_def)
  qed
qed

lemma run_pass_rel:
  assumes "frame_inv (drawFrame g) r r'"
  shows "rel_option (frame_inv (drawFrame g)) (run_pass g p r) (run_pass g p r')"
  using assms
  by (cases p) (simp_all add: Update_rel DrawShadowPass_rel Draw_rel DrawAlphaPass_rel)

lemma run_passes_rel:
  assumes "frame_inv n r r'" "\<forall>(g, p) \<in> set ps. drawFrame g = n"
  shows "rel_option (frame_inv n) (run_passes ps r) (run_passes ps r')"
  using assms
proof (induction ps arbitrary: r r')
  case Nil
  then show ?case by simp
next
  case (Cons gp ps)
  obtain g p where gp: "gp = (g, p)" by (cases gp)
  have n: "drawFrame g = n" using Cons.prems(2) by (simp add: gp)
  have rest: "\<forall>(g, p) \<in> set ps. drawFrame g = n" using Cons.prems(2) by simp
  have st: "rel_option (frame_inv n) (run_pass g p r) (run_pass g p r')"
    using run_pass_rel[of g r r' p] Cons.prems(1) by (simp add: n)
  show ?case
  proof (cases "run_pass g p r")
    case None
    then have "run_pass g p r' = None" using st by simp
    then show ?thesis using None by (simp add: gp)
  next
    case (Some r1)
    then obtain r1' where r1': "run_pass g p r' = Some r1'" "frame_inv n r1 r1'"
      using st by (auto simp: option_rel_Some1)
    show ?thesis using Cons.IH[OF r1'(2) rest] Some r1'(1) by (simp add: gp)
  qed
qed

lemma frame_inv_start:
  assumes "\<forall>p \<in> set (modelRenderers s). lastDrawFrame p < n"
  shows "frame_inv n s (s\<lparr>objs := \<lambda>f. (objs s f)\<lparr>drawFlag := F f, drawAlpha := A f\<rparr>\<rparr>)"
proof -
  have "lastDrawFrame (modelRenderers s ! c) < n" if "c < length (modelRenderers s)" for c
    using assms that by simp
  then show ?thesis
    unfolding frame_inv_def using flags_rel_refl_upd[where s = s and F = F and A = A] by fastforce
qed

lemma fold_bins:
  "fold (\<lambda>p s'. if lastDrawFrame p < n then s' else fold B (bin p) s') ps s =
   fold B (concat (map bin (filter (\<lambda>p. \<not> lastDrawFrame p < n) ps))) s"
  by (induction ps arbitrary: s) simp_all

lemma batchers_fold:
  "DrawOpaqueFeatures g t q = fold (DrawOpaqueFeature g) (candidates g t q) q"
  "DrawAlphaFeatures g t q = fold (DrawAlphaFeature g) (candidates g t q) q"
  by (simp_all add: DrawOpaqueFeatures_def DrawAlphaFeatures_def candidates_def fold_bins)

text \<open>
  \<^bold>\<open>C7\<close>. Take a state \<open>s\<close> at the start of draw frame \<open>n\<close>: no quad has been visited in this
  frame yet (every last draw frame is below \<open>n\<close>). Let \<open>s'\<close> be \<open>s\<close> with other values, \<open>F f\<close>
  and \<open>A f\<close>, in the \<^verbatim>\<open>drawFlag\<close> and \<^verbatim>\<open>drawAlpha\<close> of every feature: what earlier frames left
  there. Any sequence of the passes of the frame (\<^verbatim>\<open>Update\<close>, \<^verbatim>\<open>DrawShadowPass\<close>, \<^verbatim>\<open>Draw\<close>,
  \<^verbatim>\<open>DrawAlphaPass\<close>, each with its own camera and globals, all with \<^verbatim>\<open>drawFrame = n\<close>)
  either fails an assertion from both states, or ends from both with the same features
  drawn, with the same alpha, the same features handed to the material system and the
  same features queued as impostors: nothing a batcher does depends on a flag or an alpha
  from before the frame.

  The batchers iterate the bins of the quads whose last draw frame is not below the
  current one (\<open>candidates\<close>), and in the frame these are the quads whose last draw frame is
  the current one. In such a quad every feature in a bin of a model type that the passes
  iterate carries what the visit of this frame gave it: one of the five flags, the same
  from \<open>s\<close> and from \<open>s'\<close>, and with the flag AlphaFading the same \<^verbatim>\<open>drawAlpha\<close>. The calls
  of the simulation (creation, movement, destruction) are not among the passes of a
  frame.
\<close>

theorem C7_no_stale_flags:
  assumes "\<forall>p \<in> set (modelRenderers s). lastDrawFrame p < n"
    and "\<forall>(g, p) \<in> set ps. drawFrame g = n"
  shows "let s' = s\<lparr>objs := \<lambda>f. (objs s f)\<lparr>drawFlag := F f, drawAlpha := A f\<rparr>\<rparr> in
         (\<forall>g t q. DrawOpaqueFeatures g t q = fold (DrawOpaqueFeature g) (candidates g t q) q \<and>
                  DrawAlphaFeatures g t q = fold (DrawAlphaFeature g) (candidates g t q) q) \<and>
         (case run_passes ps s of
            None \<Rightarrow> run_passes ps s' = None
          | Some r \<Rightarrow>
              (\<exists>r'. run_passes ps s' = Some r' \<and>
                 drawn r' = drawn r \<and> farTexQueue r' = farTexQueue r \<and>
                 materialObjects r' = materialObjects r \<and>
                 modelRenderers r' = modelRenderers r \<and>
                 (\<forall>g t f. drawFrame g = n \<and> f \<in> set (candidates g t r) \<longrightarrow>
                    (\<exists>c < length (modelRenderers r).
                       lastDrawFrame (modelRenderers r ! c) = n \<and>
                       f \<in> set (GetFeatureBin r c t))) \<and>
                 (\<forall>c < length (modelRenderers r).
                    lastDrawFrame (modelRenderers r ! c) \<le> n \<and>
                    (lastDrawFrame (modelRenderers r ! c) = n \<longrightarrow>
                       (\<forall>t < MODELTYPE_OTHER. \<forall>f \<in> set (GetFeatureBin r c t).
                          drawFlag (objs r' f) = drawFlag (objs r f) \<and>
                          drawFlag (objs r f) \<in> {FD_NODRAW_FLAG, FD_OPAQUE_FLAG, FD_ALPHAF_FLAG,
                                                  FD_SHADOW_FLAG, FD_FARTEX_FLAG} \<and>
                          (drawFlag (objs r f) = FD_ALPHAF_FLAG \<longrightarrow>
                             drawAlpha (objs r' f) = drawAlpha (objs r f)))))))"
proof -
  define s' where "s' = s\<lparr>objs := \<lambda>f. (objs s f)\<lparr>drawFlag := F f, drawAlpha := A f\<rparr>\<rparr>"
  have start: "frame_inv n s s'" unfolding s'_def by (rule frame_inv_start[OF assms(1)])
  note st = run_passes_rel[OF start assms(2)]
  have main: "(case run_passes ps s of
            None \<Rightarrow> run_passes ps s' = None
          | Some r \<Rightarrow>
              (\<exists>r'. run_passes ps s' = Some r' \<and>
                 drawn r' = drawn r \<and> farTexQueue r' = farTexQueue r \<and>
                 materialObjects r' = materialObjects r \<and>
                 modelRenderers r' = modelRenderers r \<and>
                 (\<forall>g t f. drawFrame g = n \<and> f \<in> set (candidates g t r) \<longrightarrow>
                    (\<exists>c < length (modelRenderers r).
                       lastDrawFrame (modelRenderers r ! c) = n \<and>
                       f \<in> set (GetFeatureBin r c t))) \<and>
                 (\<forall>c < length (modelRenderers r).
                    lastDrawFrame (modelRenderers r ! c) \<le> n \<and>
                    (lastDrawFrame (modelRenderers r ! c) = n \<longrightarrow>
                       (\<forall>t < MODELTYPE_OTHER. \<forall>f \<in> set (GetFeatureBin r c t).
                          drawFlag (objs r' f) = drawFlag (objs r f) \<and>
                          drawFlag (objs r f) \<in> {FD_NODRAW_FLAG, FD_OPAQUE_FLAG, FD_ALPHAF_FLAG,
                                                  FD_SHADOW_FLAG, FD_FARTEX_FLAG} \<and>
                          (drawFlag (objs r f) = FD_ALPHAF_FLAG \<longrightarrow>
                             drawAlpha (objs r' f) = drawAlpha (objs r f)))))))"
  proof (cases "run_passes ps s")
    case None
    then show ?thesis using st by simp
  next
    case (Some r)
    then obtain r' where r': "run_passes ps s' = Some r'" "frame_inv n r r'"
      using st by (auto simp: option_rel_Some1)
    note fld = flags_rel_fields[OF frame_inv_rel[OF r'(2)]]
    have cells: "lastDrawFrame (modelRenderers r ! c) \<le> n"
      if "c < length (modelRenderers r)" for c
      using r'(2) that by (simp add: frame_inv_def)
    have cand: "\<exists>c < length (modelRenderers r).
                       lastDrawFrame (modelRenderers r ! c) = n \<and>
                       f \<in> set (GetFeatureBin r c t)"
      if gn: "drawFrame g = n" and fc: "f \<in> set (candidates g t r)" for g t f
    proof -
      obtain c where c: "c < length (modelRenderers r)"
        "\<not> lastDrawFrame (modelRenderers r ! c) < drawFrame g"
        "f \<in> set (rendererTypes (modelRenderers r ! c) t)"
        using candidates_cell[OF fc] by blast
      have "lastDrawFrame (modelRenderers r ! c) = n" using cells[OF c(1)] c(2) gn by simp
      then show ?thesis using c(1,3) by (auto simp: GetFeatureBin_def)
    qed
    have good: "drawFlag (objs r' f) = drawFlag (objs r f) \<and>
                drawFlag (objs r f) \<in> {FD_NODRAW_FLAG, FD_OPAQUE_FLAG, FD_ALPHAF_FLAG,
                                        FD_SHADOW_FLAG, FD_FARTEX_FLAG} \<and>
                (drawFlag (objs r f) = FD_ALPHAF_FLAG \<longrightarrow>
                   drawAlpha (objs r' f) = drawAlpha (objs r f))"
      if "c < length (modelRenderers r)" "lastDrawFrame (modelRenderers r ! c) = n"
        "t < MODELTYPE_OTHER" "f \<in> set (GetFeatureBin r c t)" for c t f
    proof -
      have fg: "flag_good (objs r f) (objs r' f)"
        using r'(2) that unfolding frame_inv_def GetFeatureBin_def by blast
      have "0 \<le> drawFlag (objs r f)" "drawFlag (objs r f) \<le> 4"
        using fg by (simp_all add: flag_good_def)
      then have "drawFlag (objs r f) = 0 \<or> drawFlag (objs r f) = 1 \<or> drawFlag (objs r f) = 2 \<or>
          drawFlag (objs r f) = 3 \<or> drawFlag (objs r f) = 4" by arith
      then have "drawFlag (objs r f) \<in> {FD_NODRAW_FLAG, FD_OPAQUE_FLAG, FD_ALPHAF_FLAG,
                                        FD_SHADOW_FLAG, FD_FARTEX_FLAG}"
        by (auto simp: FD_FLAG_defs)
      then show ?thesis using fg by (simp add: flag_good_def)
    qed
    show ?thesis
      unfolding Some option.case
      using r'(1) fld(1,13,14,15) cand cells good by blast
  qed
  show ?thesis unfolding Let_def s'_def[symmetric] using main batchers_fold by blast
qed

lemma fx_frame_run:
  "run_passes [(fx_globals_shadow, Pass_DrawShadowPass), (fx_globals, Pass_Draw),
               (fx_globals, Pass_DrawAlphaPass)] fx_state9 =
     Some (fx_state9
       \<lparr>objs := (objs fx_state9)(7 := (objs fx_state9 7)\<lparr>drawFlag := FD_SHADOW_FLAG\<rparr>),
        modelRenderers := (modelRenderers fx_state9)
          [7 := (modelRenderers fx_state9 ! 7)\<lparr>lastDrawFrame := 1\<rparr>,
           0 := (modelRenderers fx_state9 ! 0)\<lparr>lastDrawFrame := 1\<rparr>],
        camVisibleQuadFlags := (camVisibleQuadFlags fx_state9)(CAMTYPE_SHADOW := 1, CAMTYPE_PLAYER := 1),
        drawn := [(7, None), (7, None)]\<rparr>)"
  unfolding run_passes.simps run_pass.simps fx_shadow_pass option.case
  by (simp add: Draw_def DrawOpaquePass_def DrawAlphaPass_def GetVisibleFeatures_def DrawQuad_def
      DrawQuadFeature_def DrawOpaqueFeatures_def DrawOpaqueFeature_def
      DrawAlphaFeatures_def DrawAlphaFeature_def CanDrawFeature_def
      fx_state9_def fx_defs CFeatureDrawer_def DRAW_QUAD_SIZE_def Let_def FD_FLAG_defs
      MODELTYPE_3DO_def MODELTYPE_S3O_def MODELTYPE_OTHER_def numeral_eq_Suc upt_rec)

text \<open>
  The theorem for the drawer with one feature, whose flag from an earlier frame says
  AlphaFading with \<open>drawAlpha = 1/3\<close>: after the shadow pass, the opaque pass and the alpha
  pass of draw frame 1 the feature has been drawn twice without alpha (by the shadow pass
  and by the opaque pass, flagged Shadow by the visit of the shadow camera), and not by
  the alpha pass.
\<close>

theorem C7_no_stale_flags_witness:
  "\<exists>r'. run_passes [(fx_globals_shadow, Pass_DrawShadowPass), (fx_globals, Pass_Draw),
                     (fx_globals, Pass_DrawAlphaPass)]
          (fx_state9\<lparr>objs := \<lambda>f. (objs fx_state9 f)\<lparr>drawFlag := FD_ALPHAF_FLAG, drawAlpha := 1 / 3\<rparr>\<rparr>) =
        Some r' \<and>
      drawn r' = [(7, None), (7, None)] \<and> farTexQueue r' = [] \<and> materialObjects r' = [] \<and>
      drawFlag (objs r' 7) = FD_SHADOW_FLAG"
proof -
  let ?ps = "[(fx_globals_shadow, Pass_DrawShadowPass), (fx_globals, Pass_Draw),
              (fx_globals, Pass_DrawAlphaPass)]"
  have fresh: "\<forall>p \<in> set (modelRenderers fx_state9). lastDrawFrame p < 1"
    by (auto simp: fx_state9_def dest!: set_update_subset_insert[THEN subsetD])
  have frames: "\<forall>(g, p) \<in> set ?ps. drawFrame g = 1"
    by (simp add: fx_globals_shadow_def fx_globals_def)
  define r where "r = fx_state9
       \<lparr>objs := (objs fx_state9)(7 := (objs fx_state9 7)\<lparr>drawFlag := FD_SHADOW_FLAG\<rparr>),
        modelRenderers := (modelRenderers fx_state9)
          [7 := (modelRenderers fx_state9 ! 7)\<lparr>lastDrawFrame := 1\<rparr>,
           0 := (modelRenderers fx_state9 ! 0)\<lparr>lastDrawFrame := 1\<rparr>],
        camVisibleQuadFlags := (camVisibleQuadFlags fx_state9)(CAMTYPE_SHADOW := 1, CAMTYPE_PLAYER := 1),
        drawn := [(7, None), (7, None)]\<rparr>"
  have run: "run_passes ?ps fx_state9 = Some r"
    unfolding r_def by (rule fx_frame_run)
  have r: "drawn r = [(7, None), (7, None)]" "farTexQueue r = []" "materialObjects r = []"
    "drawFlag (objs r 7) = FD_SHADOW_FLAG" "length (modelRenderers r) = 9"
    "lastDrawFrame (modelRenderers r ! 7) = 1"
    "7 \<in> set (GetFeatureBin r 7 1)"
    by (simp_all add: r_def fx_state9_simps fx_state9_def GetFeatureBin_def
        CFeatureDrawer_def del: One_nat_def)
  obtain r' where r': "run_passes ?ps
          (fx_state9\<lparr>objs := \<lambda>f. (objs fx_state9 f)\<lparr>drawFlag := FD_ALPHAF_FLAG, drawAlpha := 1 / 3\<rparr>\<rparr>) =
        Some r'"
      "drawn r' = drawn r" "farTexQueue r' = farTexQueue r" "materialObjects r' = materialObjects r"
      "\<forall>c < length (modelRenderers r).
          lastDrawFrame (modelRenderers r ! c) \<le> 1 \<and>
          (lastDrawFrame (modelRenderers r ! c) = 1 \<longrightarrow>
             (\<forall>t < MODELTYPE_OTHER. \<forall>f \<in> set (GetFeatureBin r c t).
                drawFlag (objs r' f) = drawFlag (objs r f) \<and>
                drawFlag (objs r f) \<in> {FD_NODRAW_FLAG, FD_OPAQUE_FLAG, FD_ALPHAF_FLAG,
                                        FD_SHADOW_FLAG, FD_FARTEX_FLAG} \<and>
                (drawFlag (objs r f) = FD_ALPHAF_FLAG \<longrightarrow>
                   drawAlpha (objs r' f) = drawAlpha (objs r f))))"
    using C7_no_stale_flags[OF fresh frames, where F = "\<lambda>f. FD_ALPHAF_FLAG" and A = "\<lambda>f. 1 / 3"]
    unfolding Let_def run option.case by blast
  have c7: "(7::nat) < length (modelRenderers r)" by (simp add: r(5))
  have t1: "(1::nat) < MODELTYPE_OTHER" by (simp add: MODELTYPE_OTHER_def)
  have "drawFlag (objs r' 7) = drawFlag (objs r 7)"
    using r'(5)[rule_format, OF c7, THEN conjunct2, rule_format, OF r(6) t1 r(7)] by simp
  then show ?thesis using r'(1-4) r(1-4) by simp
qed

end
